theory Spec2Isabelle
  imports Main "HOL-Library.Word" "HOL-Library.Char_ord" "HOL-Library.List_Lexorder"
begin

section \<open>StorageObjectStorageQueue: exceptions, effects and collaborators\<close>

text \<open>
  The development embeds \<^verbatim>\<open>src/Storages/ObjectStorageQueue/StorageObjectStorageQueue.cpp\<close>.
  A C++ exception is a value: a function that can throw returns \<open>exception + 'a\<close>, with
  \<open>Inl\<close> for the exception. A call to a collaborator (the blob store, the coordinator, the
  schedule pool, the log) is recorded as an event, in program order, so that every function
  with effects returns the list of events it performed. Where the source branches on what a
  collaborator returns, or catches what it throws, the outcome is an input of the model.
  An event of the log keeps the level and the format string of the line.
\<close>

datatype error_code =
    LOGICAL_ERROR
  | BAD_ARGUMENTS
  | BAD_QUERY_PARAMETER
  | QUERY_NOT_ALLOWED
  | SUPPORT_IS_DISABLED
  | UNKNOWN_EXCEPTION
  | OTHER_ERROR

text \<open>The arguments that \<^verbatim>\<open>fmt\<close> substitutes for the \<^verbatim>\<open>{}\<close> of a message.\<close>

datatype fmt_arg = ArgStr string | ArgNum nat

text \<open>\<^verbatim>\<open>Coordination::Error\<close>: \<^verbatim>\<open>ZOK\<close>, or any other code.\<close>

datatype Coordination_Error = ZOK | ZERROR nat

type_synonym Request = string
type_synonym StoredObject = string

text \<open>
  \<^verbatim>\<open>Exception(code, format, args...)\<close> keeps its code, its format string and the arguments;
  \<^verbatim>\<open>zkutil::KeeperMultiException(code, requests, responses)\<close> keeps the coordinator's code
  and the requests.
\<close>

datatype exception =
    Exception error_code string "fmt_arg list"
  | KeeperMultiException Coordination_Error "Request list"

fun getCurrentExceptionMessage :: "exception \<Rightarrow> string" where
  "getCurrentExceptionMessage (Exception c f args) = f"
| "getCurrentExceptionMessage (KeeperMultiException c rs) = ''Transaction failed''"

datatype ObjectStorageQueueMode = ORDERED | UNORDERED

datatype ObjectStorageQueueAction = KEEP | DELETE

datatype profile_event =
    ObjectStorageQueueCommitRequests
  | ObjectStorageQueueSuccessfulCommits
  | ObjectStorageQueueUnsuccessfulCommits
  | ObjectStorageQueueRemovedObjects
  | ObjectStorageQueueInsertIterations
  | ObjectStorageQueueProcessedRows

datatype log_level = LOG_TEST | LOG_TRACE | LOG_DEBUG | LOG_INFO | LOG_ERROR

datatype event =
    ProfileIncrement profile_event nat
  | Log log_level string
  | PrepareCommitRequests nat bool string
  | RemoveObjectsIfExist "StoredObject list"
  | GetZooKeeper
  | TryMulti "Request list"
  | FinalizeCommit nat bool string
  | RegisterIfNot
  | Unregister
  | TryLogCurrentException exception
  | ScheduleAfter "64 word"
  | CreateFileIterator
  | ExecuteInsertPipeline nat
  | ReleaseFinishedBuckets

fun is_TryMulti :: "event \<Rightarrow> bool" where
  "is_TryMulti (TryMulti rs) = True"
| "is_TryMulti e = False"

fun is_RemoveObjectsIfExist :: "event \<Rightarrow> bool" where
  "is_RemoveObjectsIfExist (RemoveObjectsIfExist os) = True"
| "is_RemoveObjectsIfExist e = False"

fun is_RegisterIfNot :: "event \<Rightarrow> bool" where
  "is_RegisterIfNot RegisterIfNot = True"
| "is_RegisterIfNot e = False"

fun is_streaming_event :: "event \<Rightarrow> bool" where
  "is_streaming_event CreateFileIterator = True"
| "is_streaming_event (ExecuteInsertPipeline n) = True"
| "is_streaming_event (PrepareCommitRequests i b m) = True"
| "is_streaming_event (TryMulti rs) = True"
| "is_streaming_event e = False"

section \<open>commit\<close>

text \<open>
  An \<^verbatim>\<open>ObjectStorageQueueSource\<close> as \<^verbatim>\<open>commit\<close> sees it: its processor id, and what its
  \<^verbatim>\<open>prepareCommitRequests\<close> appends to \<^verbatim>\<open>requests\<close> and to \<^verbatim>\<open>successful_objects\<close>.
\<close>

record Source =
  processor_id :: nat
  prepared_requests :: "Request list"
  prepared_successful_objects :: "StoredObject list"

text \<open>
  What \<^verbatim>\<open>commit\<close> observes of its surroundings: whether the fail point
  \<^verbatim>\<open>object_storage_queue_fail_commit\<close> is enabled (\<^verbatim>\<open>fiu_do_on\<close> runs its block exactly
  then), and the code \<^verbatim>\<open>tryMulti\<close> returns.
\<close>

record CommitEnv =
  fail_commit :: bool
  multi_code :: Coordination_Error

definition gather_requests :: "Source list \<Rightarrow> Request list" where
  "gather_requests sources = concat (map prepared_requests sources)"

definition gather_successful_objects :: "Source list \<Rightarrow> StoredObject list" where
  "gather_successful_objects sources = concat (map prepared_successful_objects sources)"

definition commit ::
  "ObjectStorageQueueAction \<Rightarrow> CommitEnv \<Rightarrow> bool \<Rightarrow> nat \<Rightarrow> Source list \<Rightarrow> string
    \<Rightarrow> event list \<times> (exception + unit)" where
  "commit after_processing env insert_succeeded inserted_rows sources exception_message =
    (let requests = gather_requests sources;
         successful_objects = gather_successful_objects sources;
         prepared =
           ProfileIncrement ObjectStorageQueueProcessedRows inserted_rows
           # map (\<lambda>s. PrepareCommitRequests (processor_id s) insert_succeeded exception_message) sources
     in
       if requests = [] then (prepared @ [Log LOG_TEST ''Nothing to commit''], Inr ())
       else
         let counted = prepared @ [ProfileIncrement ObjectStorageQueueCommitRequests (length requests)];
             removed =
               (if successful_objects \<noteq> [] \<and> after_processing = DELETE
                then counted @ [RemoveObjectsIfExist successful_objects,
                                ProfileIncrement ObjectStorageQueueRemovedObjects (length successful_objects)]
                else counted);
             connected = removed @ [GetZooKeeper]
         in
           if fail_commit env
           then (connected, Inl (Exception UNKNOWN_EXCEPTION ''Failed to commit processed files'' []))
           else
             let issued = connected @ [TryMulti requests] in
               if multi_code env \<noteq> ZOK
               then (issued @ [ProfileIncrement ObjectStorageQueueUnsuccessfulCommits 1],
                     Inl (KeeperMultiException (multi_code env) requests))
               else (issued
                       @ [ProfileIncrement ObjectStorageQueueSuccessfulCommits 1]
                       @ map (\<lambda>s. FinalizeCommit (processor_id s) insert_succeeded exception_message) sources
                       @ [Log LOG_TRACE ''Successfully committed {} requests for {} sources (inserted rows: {}, successful files: {})''],
                     Inr ()))"

text \<open>The events of a trace that come before the first blob-store deletion.\<close>

definition before_removal :: "event list \<Rightarrow> event list" where
  "before_removal tr = takeWhile (\<lambda>e. \<not> is_RemoveObjectsIfExist e) tr"


section \<open>Settings, table metadata and the engine's state\<close>

text \<open>
  A value of a setting as the \<^verbatim>\<open>SETTINGS\<close> clause of a query carries it (\<^verbatim>\<open>Field\<close>), and
  the list of changes kept in the table's in-memory metadata (\<^verbatim>\<open>SettingsChanges\<close>, a vector
  of name and value in the order written).
\<close>

datatype Field = FieldUInt64 "64 word" | FieldBool bool | FieldString string

type_synonym SettingChange = "string \<times> Field"
type_synonym SettingsChanges = "SettingChange list"

text \<open>
  \<^verbatim>\<open>ObjectStorageQueueSettings\<close>, with the settings the file declares in
  \<^verbatim>\<open>namespace ObjectStorageQueueSetting\<close>; the two \<^verbatim>\<open>changed\<close> flags the file reads are
  inputs of their own.
\<close>

record ObjectStorageQueueSettings =
  setting_mode :: ObjectStorageQueueMode
  setting_after_processing :: ObjectStorageQueueAction
  setting_keeper_path :: string
  setting_loading_retries :: "64 word"
  setting_processing_threads_num :: "64 word"
  setting_enable_logging_to_queue_log :: "32 word"
  setting_last_processed_path :: string
  setting_tracked_file_ttl_sec :: "64 word"
  setting_tracked_files_limit :: "64 word"
  setting_cleanup_interval_min_ms :: "32 word"
  setting_cleanup_interval_max_ms :: "32 word"
  setting_buckets :: "64 word"
  setting_polling_min_timeout_ms :: "64 word"
  setting_polling_max_timeout_ms :: "64 word"
  setting_polling_backoff_ms :: "64 word"
  setting_max_processed_files_before_commit :: "64 word"
  setting_max_processed_rows_before_commit :: "64 word"
  setting_max_processed_bytes_before_commit :: "64 word"
  setting_max_processing_time_sec_before_commit :: "64 word"
  setting_enable_hash_ring_filtering :: bool
  setting_list_objects_batch_size :: "64 word"

text \<open>The fields of \<^verbatim>\<open>ObjectStorageQueueTableMetadata\<close> that the file reads.\<close>

record ObjectStorageQueueTableMetadata =
  mode :: ObjectStorageQueueMode
  after_processing :: ObjectStorageQueueAction
  loading_retries :: "64 word"
  processing_threads_num :: "64 word"
  last_processed_path :: string
  tracked_files_ttl_sec :: "64 word"
  tracked_files_limit :: "64 word"
  buckets :: "64 word"

text \<open>
  \<^verbatim>\<open>ObjectStorageQueueMetadata\<close> as the constructor builds it: the table metadata that
  \<^verbatim>\<open>syncWithKeeper\<close> returned and the two cleanup intervals of the settings.
\<close>

record ObjectStorageQueueMetadata =
  table_metadata :: ObjectStorageQueueTableMetadata
  cleanup_interval_min_ms :: "32 word"
  cleanup_interval_max_ms :: "32 word"

record CommitSettings =
  max_processed_files_before_commit :: "64 word"
  max_processed_rows_before_commit :: "64 word"
  max_processed_bytes_before_commit :: "64 word"
  max_processing_time_sec_before_commit :: "64 word"

text \<open>
  The members of \<^verbatim>\<open>StorageObjectStorageQueue\<close>. \<open>files_metadata\<close> stands for the metadata
  object built by the constructor (\<^verbatim>\<open>temp_metadata\<close>, moved into the registry by
  \<^verbatim>\<open>startup\<close>); \<open>settings_changes\<close> is the \<^verbatim>\<open>settings_changes\<close> of the in-memory metadata;
  \<open>storage_id\<close> is the table id of \<^verbatim>\<open>IStorage\<close>, as \<^verbatim>\<open>getNameForLogs\<close> prints it.
\<close>

record StorageObjectStorageQueue =
  storage_id :: string
  engine_name :: string
  zk_path :: string
  enable_logging_to_queue_log :: bool
  polling_min_timeout_ms :: "64 word"
  polling_max_timeout_ms :: "64 word"
  polling_backoff_ms :: "64 word"
  list_objects_batch_size :: "64 word"
  enable_hash_ring_filtering :: bool
  commit_settings :: CommitSettings
  configuration_path :: string
  reschedule_processing_interval_ms :: "64 word"
  settings_changes :: "SettingsChanges option"
  files_metadata :: ObjectStorageQueueMetadata
  mv_attached :: bool
  shutdown_called :: bool
  table_is_being_dropped :: bool

definition getTableMetadata :: "StorageObjectStorageQueue \<Rightarrow> ObjectStorageQueueTableMetadata" where
  "getTableMetadata st = table_metadata (files_metadata st)"

definition getName :: "StorageObjectStorageQueue \<Rightarrow> string" where
  "getName st = engine_name st"

section \<open>The constructor\<close>

text \<open>
  \<^verbatim>\<open>validateSettings\<close>. \<open>mode_changed\<close> is \<^verbatim>\<open>queue_settings[mode].changed\<close>.
\<close>

definition validateSettings :: "ObjectStorageQueueSettings \<Rightarrow> bool \<Rightarrow> bool \<Rightarrow> exception + unit" where
  "validateSettings queue_settings mode_changed is_attach =
    (if \<not> is_attach \<and> \<not> mode_changed
     then Inl (Exception BAD_ARGUMENTS
       ''Setting `mode` (Unordered/Ordered) is not specified, but is required.'' [])
     else if setting_processing_threads_num queue_settings = 0
     then Inl (Exception BAD_ARGUMENTS ''Setting `processing_threads_num` cannot be set to zero'' [])
     else if setting_cleanup_interval_min_ms queue_settings > setting_cleanup_interval_max_ms queue_settings
     then Inl (Exception BAD_ARGUMENTS
       ''Setting `cleanup_interval_min_ms` ({}) must be less or equal to `cleanup_interval_max_ms` ({})''
       [ArgNum (unat (setting_cleanup_interval_min_ms queue_settings)),
        ArgNum (unat (setting_cleanup_interval_max_ms queue_settings))])
     else Inr ())"

text \<open>
  The first statement of the constructor's body: the path of the configuration is replaced
  or checked. \<open>isPathWithGlobs\<close> is \<^verbatim>\<open>Configuration::isPathWithGlobs\<close>, declared outside this
  file, so it is a parameter.
\<close>

definition normalize_path :: "(string \<Rightarrow> bool) \<Rightarrow> string \<Rightarrow> exception + string" where
  "normalize_path isPathWithGlobs path =
    (if path = [] then Inr ''/*''
     else if last path = CHR ''/'' then Inr (path @ ''*'')
     else if \<not> isPathWithGlobs path
     then Inl (Exception BAD_QUERY_PARAMETER
       ''ObjectStorageQueue url must either end with '/' or contain globs'' [])
     else Inr path)"

text \<open>
  The arguments of the constructor and what its collaborators answer: \<open>arg_zk_path\<close> is what
  \<^verbatim>\<open>chooseZooKeeperPath\<close> returns, \<open>arg_is_attach\<close> is
  \<^verbatim>\<open>mode > LoadingStrictnessLevel::CREATE\<close>, \<open>arg_storage_checks\<close> is the exception, if any, of
  \<^verbatim>\<open>createObjectStorage\<close>, \<^verbatim>\<open>checkFormatName\<close>, \<^verbatim>\<open>check\<close> and
  \<^verbatim>\<open>resolveSchemaAndFormat\<close>, and \<open>arg_syncWithKeeper\<close> is the table metadata that
  \<^verbatim>\<open>ObjectStorageQueueMetadata::syncWithKeeper\<close> returns, or its exception.
\<close>

record ConstructorArgs =
  arg_table_id :: string
  arg_queue_settings :: ObjectStorageQueueSettings
  arg_mode_changed :: bool
  arg_path :: string
  arg_engine_name :: string
  arg_zk_path :: string
  arg_is_attach :: bool
  arg_engine_settings :: "SettingsChanges option"
  arg_storage_checks :: "exception option"
  arg_syncWithKeeper :: "exception + ObjectStorageQueueTableMetadata"

definition construct ::
  "(string \<Rightarrow> bool) \<Rightarrow> ConstructorArgs \<Rightarrow> exception + StorageObjectStorageQueue" where
  "construct isPathWithGlobs args =
    (let qs = arg_queue_settings args in
     case normalize_path isPathWithGlobs (arg_path args) of
       Inl e \<Rightarrow> Inl e
     | Inr path \<Rightarrow>
        (case validateSettings qs (arg_mode_changed args) (arg_is_attach args) of
           Inl e \<Rightarrow> Inl e
         | Inr u \<Rightarrow>
            (case arg_storage_checks args of
               Some e \<Rightarrow> Inl e
             | None \<Rightarrow>
                (case arg_syncWithKeeper args of
                   Inl e \<Rightarrow> Inl e
                 | Inr tm \<Rightarrow> Inr
                    \<lparr>storage_id = arg_table_id args,
                     engine_name = arg_engine_name args,
                     zk_path = arg_zk_path args,
                     enable_logging_to_queue_log = (setting_enable_logging_to_queue_log qs \<noteq> 0),
                     polling_min_timeout_ms = setting_polling_min_timeout_ms qs,
                     polling_max_timeout_ms = setting_polling_max_timeout_ms qs,
                     polling_backoff_ms = setting_polling_backoff_ms qs,
                     list_objects_batch_size = setting_list_objects_batch_size qs,
                     enable_hash_ring_filtering = setting_enable_hash_ring_filtering qs,
                     commit_settings =
                       \<lparr>max_processed_files_before_commit = setting_max_processed_files_before_commit qs,
                        max_processed_rows_before_commit = setting_max_processed_rows_before_commit qs,
                        max_processed_bytes_before_commit = setting_max_processed_bytes_before_commit qs,
                        max_processing_time_sec_before_commit =
                          setting_max_processing_time_sec_before_commit qs\<rparr>,
                     configuration_path = path,
                     reschedule_processing_interval_ms = setting_polling_min_timeout_ms qs,
                     settings_changes = arg_engine_settings args,
                     files_metadata =
                       \<lparr>table_metadata = tm,
                        cleanup_interval_min_ms = setting_cleanup_interval_min_ms qs,
                        cleanup_interval_max_ms = setting_cleanup_interval_max_ms qs\<rparr>,
                     mv_attached = False,
                     shutdown_called = False,
                     table_is_being_dropped = False\<rparr>))))"

section \<open>read\<close>

datatype QueryPlanStep = ReadFromObjectStorageQueue "string list" nat

text \<open>
  \<open>allow_direct_select\<close> is the session setting \<^verbatim>\<open>stream_like_engine_allow_direct_select\<close>
  of the query's context. On success the step is what \<^verbatim>\<open>query_plan.addStep\<close> receives.
\<close>

definition read ::
  "StorageObjectStorageQueue \<Rightarrow> bool \<Rightarrow> string list \<Rightarrow> nat \<Rightarrow> exception + QueryPlanStep" where
  "read st allow_direct_select column_names max_block_size =
    (if \<not> allow_direct_select
     then Inl (Exception QUERY_NOT_ALLOWED
       ''Direct select is not allowed. To enable use setting `stream_like_engine_allow_direct_select`'' [])
     else if mv_attached st
     then Inl (Exception QUERY_NOT_ALLOWED
       ''Cannot read from {} with attached materialized views'' [ArgStr (getName st)])
     else Inr (ReadFromObjectStorageQueue column_names max_block_size))"

section \<open>getSettings\<close>

definition getSettings :: "StorageObjectStorageQueue \<Rightarrow> ObjectStorageQueueSettings" where
  "getSettings st =
    (let tm = getTableMetadata st in
     \<lparr>setting_mode = mode tm,
      setting_after_processing = after_processing tm,
      setting_keeper_path = zk_path st,
      setting_loading_retries = loading_retries tm,
      setting_processing_threads_num = processing_threads_num tm,
      setting_enable_logging_to_queue_log = (if enable_logging_to_queue_log st then 1 else 0),
      setting_last_processed_path = last_processed_path tm,
      setting_tracked_file_ttl_sec = tracked_files_ttl_sec tm,
      setting_tracked_files_limit = tracked_files_limit tm,
      setting_cleanup_interval_min_ms = 0,
      setting_cleanup_interval_max_ms = 0,
      setting_buckets = buckets tm,
      setting_polling_min_timeout_ms = polling_min_timeout_ms st,
      setting_polling_max_timeout_ms = polling_max_timeout_ms st,
      setting_polling_backoff_ms = polling_backoff_ms st,
      setting_max_processed_files_before_commit =
        max_processed_files_before_commit (commit_settings st),
      setting_max_processed_rows_before_commit =
        max_processed_rows_before_commit (commit_settings st),
      setting_max_processed_bytes_before_commit =
        max_processed_bytes_before_commit (commit_settings st),
      setting_max_processing_time_sec_before_commit =
        max_processing_time_sec_before_commit (commit_settings st),
      setting_enable_hash_ring_filtering = enable_hash_ring_filtering st,
      setting_list_objects_batch_size = list_objects_batch_size st\<rparr>)"

section \<open>Reading results\<close>

text \<open>The error code of the \<^verbatim>\<open>Exception\<close> that a call threw, if it threw one.\<close>

definition thrown :: "exception + 'a \<Rightarrow> error_code option" where
  "thrown r = (case r of Inl (Exception c f args) \<Rightarrow> Some c | _ \<Rightarrow> None)"

text \<open>\<^verbatim>\<open>std::string::ends_with('/')\<close>.\<close>

definition ends_with_slash :: "string \<Rightarrow> bool" where
  "ends_with_slash path = (path \<noteq> [] \<and> last path = CHR ''/'')"

section \<open>getDependencies\<close>

text \<open>
  What the database catalog answers. \<^verbatim>\<open>getDependentViews\<close> gives the ids of the dependent
  views; \<^verbatim>\<open>tryGetTable\<close> gives for each id a storage or nothing. A storage is a
  \<^verbatim>\<open>StorageMaterializedView\<close>, with what its \<^verbatim>\<open>tryGetTargetTable\<close> answers (the target's
  name, or nothing), or a storage of another class, for which the \<^verbatim>\<open>dynamic_cast\<close> gives null.
\<close>

datatype Storage = StorageMaterializedView "string option" | StorageOther

type_synonym DependentView = "string \<times> Storage option"

text \<open>The loop of \<^verbatim>\<open>getDependencies\<close> over the view ids: false where the source returns 0.\<close>

fun dependencies_ready :: "DependentView list \<Rightarrow> bool" where
  "dependencies_ready [] = True"
| "dependencies_ready ((view_id, None) # view_ids) = False"
| "dependencies_ready ((view_id, Some (StorageMaterializedView None)) # view_ids) = False"
| "dependencies_ready ((view_id, Some view) # view_ids) = dependencies_ready view_ids"

text \<open>The \<^verbatim>\<open>LOG_TEST\<close> line of \<^verbatim>\<open>getDependencies\<close> is not an event of the model.\<close>

definition getDependencies :: "DependentView list \<Rightarrow> nat" where
  "getDependencies view_ids =
    (if view_ids = [] then 0
     else if \<not> dependencies_ready view_ids then 0
     else length view_ids)"

text \<open>
  The downstream consumers in the words of the spec: the dependent views that are
  materialized and have a resolvable target table.
\<close>

fun spec_is_consumer :: "DependentView \<Rightarrow> bool" where
  "spec_is_consumer (view_id, Some (StorageMaterializedView (Some target))) = True"
| "spec_is_consumer v = False"

definition spec_downstream_consumers :: "DependentView list \<Rightarrow> DependentView list" where
  "spec_downstream_consumers view_ids = filter spec_is_consumer view_ids"

section \<open>streamToViews\<close>

text \<open>
  One turn of the loop of \<^verbatim>\<open>streamToViews\<close>, as the loop observes it: the rows the progress
  callback counted, the exception the pipeline's executor threw (if any), what the source
  of each processor prepares for the commit, and what \<^verbatim>\<open>commit\<close> observes. The list of turns
  is the run of the loop: a turn is there because \<^verbatim>\<open>!shutdown_called && !isFinished()\<close> held
  before it, and the list ends where that condition fails.
\<close>

record Iteration =
  it_rows :: "64 word"
  it_pipeline_exception :: "exception option"
  it_prepared :: "nat \<Rightarrow> Request list \<times> StoredObject list"
  it_commit_env :: CommitEnv

definition createSources :: "64 word \<Rightarrow> Iteration \<Rightarrow> Source list" where
  "createSources threads it =
    map (\<lambda>i. \<lparr>processor_id = i,
               prepared_requests = fst (it_prepared it i),
               prepared_successful_objects = snd (it_prepared it i)\<rparr>)
        [0 ..< unat threads]"

fun streamToViews_loop ::
  "ObjectStorageQueueAction \<Rightarrow> 64 word \<Rightarrow> Iteration list \<Rightarrow> 64 word
    \<Rightarrow> event list \<times> (exception + 64 word)" where
  "streamToViews_loop action threads [] total_rows = ([], Inr total_rows)"
| "streamToViews_loop action threads (it # its) total_rows =
    (let sources = createSources threads it;
         started = [ProfileIncrement ObjectStorageQueueInsertIterations 1,
                    ExecuteInsertPipeline (unat threads)]
     in case it_pipeline_exception it of
          Some e \<Rightarrow>
            (case commit action (it_commit_env it) False (unat (it_rows it)) sources
                    (getCurrentExceptionMessage e) of
               (committed, Inl e') \<Rightarrow> (started @ committed, Inl e')
             | (committed, Inr u) \<Rightarrow> (started @ committed @ [ReleaseFinishedBuckets], Inl e))
        | None \<Rightarrow>
            (case commit action (it_commit_env it) True (unat (it_rows it)) sources [] of
               (committed, Inl e') \<Rightarrow> (started @ committed, Inl e')
             | (committed, Inr u) \<Rightarrow>
                 (case streamToViews_loop action threads its (total_rows + it_rows it) of
                    (later, r) \<Rightarrow> (started @ committed @ [ReleaseFinishedBuckets] @ later, r))))"

text \<open>
  \<open>table_exists\<close> is whether \<^verbatim>\<open>DatabaseCatalog::getTable\<close> gives a table; \<open>iterations\<close> is the
  run of the loop.
\<close>

record StreamEnv =
  table_exists :: bool
  iterations :: "Iteration list"

definition streamToViews ::
  "StorageObjectStorageQueue \<Rightarrow> StreamEnv \<Rightarrow> event list \<times> (exception + bool)" where
  "streamToViews st env =
    (if \<not> table_exists env
     then ([], Inl (Exception LOGICAL_ERROR ''Engine table {} doesn't exist.''
                      [ArgStr (storage_id st)]))
     else
       case streamToViews_loop (after_processing (getTableMetadata st))
              (processing_threads_num (getTableMetadata st)) (iterations env) 0 of
         (looped, Inl e) \<Rightarrow>
           (CreateFileIterator # Log LOG_TEST ''Using {} processing threads'' # looped, Inl e)
       | (looped, Inr total_rows) \<Rightarrow>
           (CreateFileIterator # Log LOG_TEST ''Using {} processing threads'' # looped
              @ [Log LOG_TEST ''Processed rows: {}''],
            Inr (total_rows > 0)))"

section \<open>threadFunc\<close>

text \<open>
  What one tick of the background task observes: the dependent views of the catalog, the
  exception of \<^verbatim>\<open>registerIfNot\<close> (if it throws), the run of \<^verbatim>\<open>streamToViews\<close>, whether
  \<^verbatim>\<open>shutdown\<close> set the atomic flag \<^verbatim>\<open>shutdown_called\<close> while the tick ran, and the exception of
  \<^verbatim>\<open>unregister\<close> (if it throws).
\<close>

record TickEnv =
  dependent_views :: "DependentView list"
  registerIfNot_exception :: "exception option"
  stream_env :: StreamEnv
  shutdown_during_tick :: bool
  unregister_exception :: "exception option"

text \<open>
  The \<^verbatim>\<open>try\<close> block of \<^verbatim>\<open>threadFunc\<close> when there are dependencies, with its \<^verbatim>\<open>catch (...)\<close>.
  \<^verbatim>\<open>mv_attached\<close> is set for the time of the block and reset by \<^verbatim>\<open>SCOPE_EXIT\<close> on every way
  out of it.
\<close>

definition stream_with_dependencies ::
  "StorageObjectStorageQueue \<Rightarrow> TickEnv \<Rightarrow> StorageObjectStorageQueue \<times> event list" where
  "stream_with_dependencies st env =
    (let attached = st\<lparr>mv_attached := True\<rparr>;
         started = [Log LOG_DEBUG ''Started streaming to {} attached views'', RegisterIfNot]
     in case registerIfNot_exception env of
          Some e \<Rightarrow>
            (attached\<lparr>mv_attached := False\<rparr>,
             started @ [Log LOG_ERROR (''Failed to process data: '' @ getCurrentExceptionMessage e)])
        | None \<Rightarrow>
            (case streamToViews attached (stream_env env) of
               (streamed, Inl e) \<Rightarrow>
                 (attached\<lparr>mv_attached := False\<rparr>,
                  started @ streamed
                    @ [Log LOG_ERROR (''Failed to process data: '' @ getCurrentExceptionMessage e)])
             | (streamed, Inr True) \<Rightarrow>
                 (attached\<lparr>reschedule_processing_interval_ms := polling_min_timeout_ms attached,
                           mv_attached := False\<rparr>,
                  started @ streamed @ [Log LOG_DEBUG ''Stopped streaming to {} attached views''])
             | (streamed, Inr False) \<Rightarrow>
                 (attached\<lparr>reschedule_processing_interval_ms :=
                             min (polling_max_timeout_ms attached)
                                 (reschedule_processing_interval_ms attached + polling_backoff_ms attached),
                           mv_attached := False\<rparr>,
                  started @ streamed @ [Log LOG_DEBUG ''Stopped streaming to {} attached views''])))"

text \<open>The end of \<^verbatim>\<open>threadFunc\<close>: the task schedules itself again unless the table shuts down.\<close>

definition reschedule :: "StorageObjectStorageQueue \<Rightarrow> TickEnv \<Rightarrow> event list" where
  "reschedule st env =
    (if \<not> shutdown_called st
     then [Log LOG_TRACE ''Reschedule processing thread in {} ms'',
           ScheduleAfter (reschedule_processing_interval_ms st)]
          @ (if reschedule_processing_interval_ms st > 5000
             then Unregister
                  # (case unregister_exception env of
                       Some e \<Rightarrow> [TryLogCurrentException e]
                     | None \<Rightarrow> [])
             else [])
     else [])"

definition threadFunc ::
  "StorageObjectStorageQueue \<Rightarrow> TickEnv \<Rightarrow> StorageObjectStorageQueue \<times> event list" where
  "threadFunc st env =
    (if shutdown_called st then (st, [])
     else
       let dependencies_count = getDependencies (dependent_views env);
           (streamed_st, streamed) =
             (if dependencies_count \<noteq> 0 then stream_with_dependencies st env
              else (st, [Log LOG_TEST ''No attached dependencies'']));
           final_st = streamed_st\<lparr>shutdown_called := shutdown_during_tick env\<rparr>
       in (final_st, streamed @ reschedule final_st env))"

text \<open>A dependent view that does not make \<^verbatim>\<open>getDependencies\<close> return 0.\<close>

fun view_is_ready :: "DependentView \<Rightarrow> bool" where
  "view_is_ready (view_id, None) = False"
| "view_is_ready (view_id, Some (StorageMaterializedView None)) = False"
| "view_is_ready (view_id, Some view) = True"

text \<open>An event of a tick that registers the replica, streams or claims files.\<close>

definition is_processing_event :: "event \<Rightarrow> bool" where
  "is_processing_event e = (is_RegisterIfNot e \<or> is_streaming_event e)"

fun is_ScheduleAfter :: "event \<Rightarrow> bool" where
  "is_ScheduleAfter (ScheduleAfter ms) = True"
| "is_ScheduleAfter e = False"

section \<open>Changeable settings\<close>

definition changeable_settings_unordered_mode :: "string list" where
  "changeable_settings_unordered_mode =
    [''processing_threads_num'',
     ''loading_retries'',
     ''after_processing'',
     ''tracked_files_limit'',
     ''tracked_file_ttl_sec'',
     ''polling_min_timeout_ms'',
     ''polling_max_timeout_ms'',
     ''polling_backoff_ms'',
     ''max_processed_files_before_commit'',
     ''max_processed_rows_before_commit'',
     ''max_processed_bytes_before_commit'',
     ''max_processing_time_sec_before_commit'',
     ''enable_hash_ring_filtering'',
     ''list_objects_batch_size'']"

definition changeable_settings_ordered_mode :: "string list" where
  "changeable_settings_ordered_mode =
    [''loading_retries'',
     ''after_processing'',
     ''polling_min_timeout_ms'',
     ''polling_max_timeout_ms'',
     ''polling_backoff_ms'',
     ''max_processed_files_before_commit'',
     ''max_processed_rows_before_commit'',
     ''max_processed_bytes_before_commit'',
     ''max_processing_time_sec_before_commit'',
     ''buckets'',
     ''list_objects_batch_size'']"

text \<open>\<^verbatim>\<open>name.starts_with("s3queue_")\<close>; the prefix has \<^verbatim>\<open>std::strlen("s3queue_")\<close> = 8 characters.\<close>

definition starts_with_s3queue :: "string \<Rightarrow> bool" where
  "starts_with_s3queue name = (take 8 name = ''s3queue_'')"

definition normalizeSetting :: "string \<Rightarrow> string" where
  "normalizeSetting name = (if starts_with_s3queue name then drop 8 name else name)"

definition checkNormalizedSetting :: "string \<Rightarrow> exception + unit" where
  "checkNormalizedSetting name =
    (if starts_with_s3queue name
     then Inl (Exception LOGICAL_ERROR ''Setting is not normalized: {}'' [ArgStr name])
     else Inr ())"

definition isSettingChangeable :: "string \<Rightarrow> ObjectStorageQueueMode \<Rightarrow> exception + bool" where
  "isSettingChangeable name queue_mode =
    (case checkNormalizedSetting name of
       Inl e \<Rightarrow> Inl e
     | Inr u \<Rightarrow>
         if queue_mode = UNORDERED
         then Inr (name \<in> set changeable_settings_unordered_mode)
         else Inr (name \<in> set changeable_settings_ordered_mode))"

definition requiresDetachedMV :: "string \<Rightarrow> exception + bool" where
  "requiresDetachedMV name =
    (case checkNormalizedSetting name of
       Inl e \<Rightarrow> Inl e
     | Inr u \<Rightarrow> Inr (name = ''buckets''))"

text \<open>\<^verbatim>\<open>magic_enum::enum_name(mode)\<close>.\<close>

fun enum_name :: "ObjectStorageQueueMode \<Rightarrow> string" where
  "enum_name ORDERED = ''ORDERED''"
| "enum_name UNORDERED = ''UNORDERED''"

section \<open>Alter commands\<close>

text \<open>
  An \<^verbatim>\<open>AlterCommand\<close>: its type (the two the file names, or another one), the changes of a
  \<^verbatim>\<open>MODIFY SETTING\<close> and the names of a \<^verbatim>\<open>RESET SETTING\<close>. The names are a \<^verbatim>\<open>std::set\<close> in the
  source; a list holds them here, and \<open>normalizeAlterCommands\<close> leaves it sorted and
  without duplicates, as the \<^verbatim>\<open>std::set\<close> it builds is.
\<close>

datatype AlterCommandType = MODIFY_SETTING | RESET_SETTING | OTHER_COMMAND

record AlterCommand =
  command_type :: AlterCommandType
  command_settings_changes :: SettingsChanges
  command_settings_resets :: "string list"

definition normalize_names :: "SettingsChanges \<Rightarrow> SettingsChanges" where
  "normalize_names changes = map (\<lambda>change. (normalizeSetting (fst change), snd change)) changes"

definition normalizeAlterCommands :: "AlterCommand list \<Rightarrow> AlterCommand list" where
  "normalizeAlterCommands alter_commands =
    map (\<lambda>command. command
           \<lparr>command_settings_changes := normalize_names (command_settings_changes command),
            command_settings_resets :=
              sort (remdups (map normalizeSetting (command_settings_resets command)))\<rparr>)
        alter_commands"

text \<open>
  What \<^verbatim>\<open>alter\<close> and \<^verbatim>\<open>checkAlterIsPossible\<close> call outside this file:
  \<^verbatim>\<open>AlterCommands::isSettingsAlter\<close>; \<^verbatim>\<open>AlterCommands::apply\<close>, as the function from the
  commands and the \<^verbatim>\<open>settings_changes\<close> of the metadata it starts from to the
  \<^verbatim>\<open>settings_changes\<close> it leaves (nothing for a null pointer);
  \<^verbatim>\<open>ObjectStorageQueueSettings().get(name)\<close>, the default of a setting;
  \<^verbatim>\<open>ObjectStorageQueueMetadata::alterSettings\<close>, which changes the table metadata kept with the
  coordinator or throws; and \<^verbatim>\<open>Field::safeGet\<close> at the two types the file asks for.
\<close>

record AlterCollaborators =
  isSettingsAlter :: "AlterCommand list \<Rightarrow> bool"
  apply_commands :: "AlterCommand list \<Rightarrow> SettingsChanges option \<Rightarrow> SettingsChanges option"
  default_settings_get :: "string \<Rightarrow> Field"
  alterSettings ::
    "SettingsChanges \<Rightarrow> ObjectStorageQueueTableMetadata \<Rightarrow> exception + ObjectStorageQueueTableMetadata"
  safeGet_UInt64 :: "Field \<Rightarrow> exception + 64 word"
  safeGet_bool :: "Field \<Rightarrow> exception + bool"

text \<open>
  The settings of the table before the alter: the \<^verbatim>\<open>settings_changes\<close> of the in-memory
  metadata with each name normalized, or nothing (\<^verbatim>\<open>old_settings == nullptr\<close>).
\<close>

definition old_settings_of :: "StorageObjectStorageQueue \<Rightarrow> SettingsChanges option" where
  "old_settings_of st = map_option normalize_names (settings_changes st)"

text \<open>
  The lambda \<^verbatim>\<open>get_names\<close> of \<^verbatim>\<open>alter\<close>: the names as a \<^verbatim>\<open>std::set\<close> (a sorted list here), or
  the exception at the first name that is already in the set.
\<close>

fun get_names_from :: "string list \<Rightarrow> SettingsChanges \<Rightarrow> exception + string list" where
  "get_names_from names [] = Inr names"
| "get_names_from names (setting # settings) =
    (if fst setting \<in> set names
     then Inl (Exception BAD_ARGUMENTS ''Setting {} is duplicated'' [ArgStr (fst setting)])
     else get_names_from (insort (fst setting) names) settings)"

definition get_names :: "SettingsChanges \<Rightarrow> exception + string list" where
  "get_names settings = get_names_from [] settings"

text \<open>\<^verbatim>\<open>std::set_difference\<close> of two sorted ranges without duplicates.\<close>

definition set_difference :: "string list \<Rightarrow> string list \<Rightarrow> string list" where
  "set_difference old_set new_set = filter (\<lambda>name. name \<notin> set new_set) old_set"

text \<open>
  The first part of \<^verbatim>\<open>alter\<close>: when the table has old settings, the names of the old and
  of the new settings are collected, and each old setting that is no longer among the new
  ones is appended to them with its default.
\<close>

definition with_reset_settings ::
  "AlterCollaborators \<Rightarrow> SettingsChanges option \<Rightarrow> SettingsChanges \<Rightarrow> exception + SettingsChanges" where
  "with_reset_settings collab old_settings new_settings =
    (case old_settings of
       None \<Rightarrow> Inr new_settings
     | Some old \<Rightarrow>
        (case get_names old of
           Inl e \<Rightarrow> Inl e
         | Inr old_settings_set \<Rightarrow>
            (case get_names new_settings of
               Inl e \<Rightarrow> Inl e
             | Inr new_settings_set \<Rightarrow>
                 Inr (new_settings
                      @ map (\<lambda>name. (name, default_settings_get collab name))
                          (set_difference old_settings_set new_settings_set)))))"

text \<open>\<^verbatim>\<open>setting_changed\<close> as \<^verbatim>\<open>alter\<close> computes it for a new setting.\<close>

definition setting_changed :: "SettingsChanges option \<Rightarrow> SettingChange \<Rightarrow> bool" where
  "setting_changed old_settings setting =
    (case old_settings of
       None \<Rightarrow> True
     | Some old \<Rightarrow>
        (case find (\<lambda>change. fst change = fst setting) old of
           None \<Rightarrow> True
         | Some it \<Rightarrow> snd it \<noteq> snd setting))"

text \<open>
  The loop of \<^verbatim>\<open>alter\<close> over the new settings. \<open>seen\<close> is \<^verbatim>\<open>new_settings_set\<close>; the result is
  \<^verbatim>\<open>changed_settings\<close>. \<open>dependencies_count\<close> is what \<^verbatim>\<open>getDependencies\<close> returns.
\<close>

fun collect_changed_settings ::
  "ObjectStorageQueueMode \<Rightarrow> string \<Rightarrow> nat \<Rightarrow> SettingsChanges option \<Rightarrow> string list
    \<Rightarrow> SettingsChanges \<Rightarrow> exception + SettingsChanges" where
  "collect_changed_settings queue_mode name dependencies_count old_settings seen [] = Inr []"
| "collect_changed_settings queue_mode name dependencies_count old_settings seen (setting # settings) =
    (if fst setting \<in> set seen
     then Inl (Exception BAD_ARGUMENTS ''Setting {} is duplicated'' [ArgStr (fst setting)])
     else if \<not> setting_changed old_settings setting
     then collect_changed_settings queue_mode name dependencies_count old_settings
            (fst setting # seen) settings
     else
       case isSettingChangeable (fst setting) queue_mode of
         Inl e \<Rightarrow> Inl e
       | Inr False \<Rightarrow>
           Inl (Exception SUPPORT_IS_DISABLED ''Changing setting {} is not allowed for {} mode of {}''
                  [ArgStr (fst setting), ArgStr (enum_name queue_mode), ArgStr name])
       | Inr True \<Rightarrow>
          (case requiresDetachedMV (fst setting) of
             Inl e \<Rightarrow> Inl e
           | Inr detached \<Rightarrow>
               if detached \<and> dependencies_count \<noteq> 0
               then Inl (Exception SUPPORT_IS_DISABLED
                      ''Changing setting {} is not allowed only with detached dependencies (dependencies count: {})''
                      [ArgStr (fst setting), ArgNum dependencies_count])
               else
                 case collect_changed_settings queue_mode name dependencies_count old_settings
                        (fst setting # seen) settings of
                   Inl e \<Rightarrow> Inl e
                 | Inr changed_settings \<Rightarrow> Inr (setting # changed_settings)))"

text \<open>
  The members that a changed setting touches (the settings that are not stored with the
  coordinator), for one change.
\<close>

definition apply_local_change ::
  "AlterCollaborators \<Rightarrow> SettingChange \<Rightarrow> StorageObjectStorageQueue \<Rightarrow> exception + StorageObjectStorageQueue" where
  "apply_local_change collab change st =
    (let uint64 = safeGet_UInt64 collab (snd change);
         name = fst change
     in
       if name = ''polling_min_timeout_ms''
       then map_sum id (\<lambda>v. st\<lparr>polling_min_timeout_ms := v\<rparr>) uint64
       else if name = ''polling_max_timeout_ms''
       then map_sum id (\<lambda>v. st\<lparr>polling_max_timeout_ms := v\<rparr>) uint64
       else if name = ''polling_backoff_ms''
       then map_sum id (\<lambda>v. st\<lparr>polling_backoff_ms := v\<rparr>) uint64
       else if name = ''max_processed_files_before_commit''
       then map_sum id (\<lambda>v. st\<lparr>commit_settings :=
              (commit_settings st)\<lparr>max_processed_files_before_commit := v\<rparr>\<rparr>) uint64
       else if name = ''max_processed_rows_before_commit''
       then map_sum id (\<lambda>v. st\<lparr>commit_settings :=
              (commit_settings st)\<lparr>max_processed_rows_before_commit := v\<rparr>\<rparr>) uint64
       else if name = ''max_processed_bytes_before_commit''
       then map_sum id (\<lambda>v. st\<lparr>commit_settings :=
              (commit_settings st)\<lparr>max_processed_bytes_before_commit := v\<rparr>\<rparr>) uint64
       else if name = ''max_processing_time_sec_before_commit''
       then map_sum id (\<lambda>v. st\<lparr>commit_settings :=
              (commit_settings st)\<lparr>max_processing_time_sec_before_commit := v\<rparr>\<rparr>) uint64
       else if name = ''list_objects_batch_size''
       then map_sum id (\<lambda>v. st\<lparr>list_objects_batch_size := v\<rparr>) uint64
       else if name = ''enable_hash_ring_filtering''
       then map_sum id (\<lambda>v. st\<lparr>enable_hash_ring_filtering := v\<rparr>) (safeGet_bool collab (snd change))
       else Inr st)"

text \<open>
  The loop over \<^verbatim>\<open>changed_settings\<close>: the engine after the changes that were applied, and the
  exception that stopped the loop, if one did.
\<close>

fun apply_local_changes ::
  "AlterCollaborators \<Rightarrow> SettingsChanges \<Rightarrow> StorageObjectStorageQueue
    \<Rightarrow> StorageObjectStorageQueue \<times> exception option" where
  "apply_local_changes collab [] st = (st, None)"
| "apply_local_changes collab (change # changes) st =
    (case apply_local_change collab change st of
       Inl e \<Rightarrow> (st, Some e)
     | Inr st' \<Rightarrow> apply_local_changes collab changes st')"

section \<open>alter\<close>

text \<open>
  \<^verbatim>\<open>StorageObjectStorageQueue::alter\<close>: the engine it leaves and the exception it throws, if it
  throws. \<open>view_ids\<close> is what the catalog answers to \<^verbatim>\<open>getDependencies\<close>. Reading
  \<^verbatim>\<open>new_metadata.settings_changes\<close> when \<^verbatim>\<open>apply\<close> left a null pointer is an exception of its own
  class here. The log lines of \<^verbatim>\<open>alter\<close> and its last call, \<^verbatim>\<open>alterTable\<close> of the database, leave
  no mark on the engine and are not part of the model; \<^verbatim>\<open>setInMemoryMetadata\<close> stores the new
  settings.
\<close>

definition null_settings_changes :: exception where
  "null_settings_changes = Exception OTHER_ERROR ''settings_changes is null'' []"

definition alter ::
  "AlterCollaborators \<Rightarrow> DependentView list \<Rightarrow> AlterCommand list \<Rightarrow> StorageObjectStorageQueue
    \<Rightarrow> StorageObjectStorageQueue \<times> exception option" where
  "alter collab view_ids commands st =
    (if \<not> isSettingsAlter collab commands then (st, None)
     else
       let alter_commands = normalizeAlterCommands commands;
           old_settings = old_settings_of st
       in case apply_commands collab alter_commands old_settings of
            None \<Rightarrow> (st, Some null_settings_changes)
          | Some applied \<Rightarrow>
             (case with_reset_settings collab old_settings applied of
                Inl e \<Rightarrow> (st, Some e)
              | Inr new_settings \<Rightarrow>
                 (case collect_changed_settings (mode (getTableMetadata st)) (getName st)
                         (getDependencies view_ids) old_settings [] new_settings of
                    Inl e \<Rightarrow> (st, Some e)
                  | Inr changed_settings \<Rightarrow>
                     (case alterSettings collab changed_settings (getTableMetadata st) of
                        Inl e \<Rightarrow> (st, Some e)
                      | Inr tm \<Rightarrow>
                         (case apply_local_changes collab changed_settings
                                 (st\<lparr>files_metadata := (files_metadata st)\<lparr>table_metadata := tm\<rparr>\<rparr>) of
                            (st', Some e) \<Rightarrow> (st', Some e)
                          | (st', None) \<Rightarrow> (st'\<lparr>settings_changes := Some new_settings\<rparr>, None))))))"

section \<open>checkAlterIsPossible\<close>

text \<open>\<^verbatim>\<open>setting_changed\<close> as \<^verbatim>\<open>checkAlterIsPossible\<close> computes it.\<close>

definition setting_changed_in_check :: "SettingsChanges option \<Rightarrow> SettingChange \<Rightarrow> bool" where
  "setting_changed_in_check old_settings setting =
    (case old_settings of
       None \<Rightarrow> True
     | Some old \<Rightarrow>
        (case find (\<lambda>change. fst change = fst setting) old of
           None \<Rightarrow> False
         | Some it \<Rightarrow> snd it \<noteq> snd setting))"

fun check_new_settings ::
  "ObjectStorageQueueMode \<Rightarrow> string \<Rightarrow> nat \<Rightarrow> SettingsChanges option \<Rightarrow> SettingsChanges
    \<Rightarrow> exception + unit" where
  "check_new_settings queue_mode name dependencies_count old_settings [] = Inr ()"
| "check_new_settings queue_mode name dependencies_count old_settings (setting # settings) =
    (if \<not> setting_changed_in_check old_settings setting
     then check_new_settings queue_mode name dependencies_count old_settings settings
     else
       case isSettingChangeable (fst setting) queue_mode of
         Inl e \<Rightarrow> Inl e
       | Inr False \<Rightarrow>
           Inl (Exception SUPPORT_IS_DISABLED ''Changing setting {} is not allowed for {} mode of {}''
                  [ArgStr (fst setting), ArgStr (enum_name queue_mode), ArgStr name])
       | Inr True \<Rightarrow>
          (case requiresDetachedMV (fst setting) of
             Inl e \<Rightarrow> Inl e
           | Inr detached \<Rightarrow>
               if detached \<and> dependencies_count \<noteq> 0
               then Inl (Exception SUPPORT_IS_DISABLED
                      ''Changing setting {} is allowed only with detached dependencies (dependencies count: {})''
                      [ArgStr (fst setting), ArgNum dependencies_count])
               else check_new_settings queue_mode name dependencies_count old_settings settings))"

definition checkAlterIsPossible ::
  "AlterCollaborators \<Rightarrow> DependentView list \<Rightarrow> AlterCommand list \<Rightarrow> StorageObjectStorageQueue
    \<Rightarrow> exception + unit" where
  "checkAlterIsPossible collab view_ids commands st =
    (if list_ex (\<lambda>command. command_type command \<noteq> MODIFY_SETTING
                          \<and> command_type command \<noteq> RESET_SETTING) commands
     then Inl (Exception SUPPORT_IS_DISABLED ''Only MODIFY/RESET SETTING alter is allowed for {}''
                 [ArgStr (getName st)])
     else
       case apply_commands collab (normalizeAlterCommands commands) (old_settings_of st) of
         None \<Rightarrow> Inl (Exception LOGICAL_ERROR ''No settings changes'' [])
       | Some new_settings \<Rightarrow>
           check_new_settings (mode (getTableMetadata st)) (getName st) (getDependencies view_ids)
             (old_settings_of st) new_settings)"

section \<open>Reading the outcome of an alter\<close>

definition alter_thrown :: "'a \<times> exception option \<Rightarrow> error_code option" where
  "alter_thrown r = (case snd r of Some (Exception c f args) \<Rightarrow> Some c | _ \<Rightarrow> None)"

definition changeable_settings :: "ObjectStorageQueueMode \<Rightarrow> string list" where
  "changeable_settings queue_mode =
    (if queue_mode = UNORDERED then changeable_settings_unordered_mode
     else changeable_settings_ordered_mode)"

section \<open>Example inputs\<close>

definition example_source :: Source where
  "example_source =
     \<lparr>processor_id = 0, prepared_requests = [''set /processed/a''],
      prepared_successful_objects = [''a'']\<rparr>"

definition idle_source :: Source where
  "idle_source = \<lparr>processor_id = 0, prepared_requests = [], prepared_successful_objects = []\<rparr>"

definition healthy_commit_env :: CommitEnv where
  "healthy_commit_env = \<lparr>fail_commit = False, multi_code = ZOK\<rparr>"


text \<open>
  An instance of the parameter \<open>isPathWithGlobs\<close>: a path has globs when one of its
  characters is a glob character.
\<close>

definition glob_chars :: "string \<Rightarrow> bool" where
  "glob_chars path = list_ex (\<lambda>c. c \<in> set ''*?{'') path"

definition example_settings :: ObjectStorageQueueSettings where
  "example_settings =
    \<lparr>setting_mode = ORDERED,
     setting_after_processing = KEEP,
     setting_keeper_path = ''/queue/t'',
     setting_loading_retries = 10,
     setting_processing_threads_num = 2,
     setting_enable_logging_to_queue_log = 0,
     setting_last_processed_path = [],
     setting_tracked_file_ttl_sec = 0,
     setting_tracked_files_limit = 1000,
     setting_cleanup_interval_min_ms = 10000,
     setting_cleanup_interval_max_ms = 30000,
     setting_buckets = 4,
     setting_polling_min_timeout_ms = 1000,
     setting_polling_max_timeout_ms = 10000,
     setting_polling_backoff_ms = 1000,
     setting_max_processed_files_before_commit = 100,
     setting_max_processed_rows_before_commit = 0,
     setting_max_processed_bytes_before_commit = 0,
     setting_max_processing_time_sec_before_commit = 0,
     setting_enable_hash_ring_filtering = False,
     setting_list_objects_batch_size = 1000\<rparr>"

definition example_table_metadata :: ObjectStorageQueueTableMetadata where
  "example_table_metadata =
    \<lparr>mode = ORDERED, after_processing = KEEP, loading_retries = 10,
     processing_threads_num = 2, last_processed_path = [], tracked_files_ttl_sec = 0,
     tracked_files_limit = 1000, buckets = 4\<rparr>"

definition example_args :: ConstructorArgs where
  "example_args =
    \<lparr>arg_table_id = ''db.queue'',
     arg_queue_settings = example_settings,
     arg_mode_changed = True,
     arg_path = ''data/'',
     arg_engine_name = ''S3Queue'',
     arg_zk_path = ''/clickhouse/s3queue/queue/t'',
     arg_is_attach = False,
     arg_engine_settings = Some [(''mode'', FieldString ''ordered''), (''buckets'', FieldUInt64 4)],
     arg_storage_checks = None,
     arg_syncWithKeeper = Inr example_table_metadata\<rparr>"

text \<open>The engine that \<open>construct\<close> builds from \<open>example_args\<close>.\<close>

definition example_engine :: StorageObjectStorageQueue where
  "example_engine =
    \<lparr>storage_id = ''db.queue'',
     engine_name = ''S3Queue'',
     zk_path = ''/clickhouse/s3queue/queue/t'',
     enable_logging_to_queue_log = False,
     polling_min_timeout_ms = 1000,
     polling_max_timeout_ms = 10000,
     polling_backoff_ms = 1000,
     list_objects_batch_size = 1000,
     enable_hash_ring_filtering = False,
     commit_settings =
       \<lparr>max_processed_files_before_commit = 100, max_processed_rows_before_commit = 0,
        max_processed_bytes_before_commit = 0, max_processing_time_sec_before_commit = 0\<rparr>,
     configuration_path = ''data/*'',
     reschedule_processing_interval_ms = 1000,
     settings_changes = Some [(''mode'', FieldString ''ordered''), (''buckets'', FieldUInt64 4)],
     files_metadata =
       \<lparr>table_metadata = example_table_metadata,
        cleanup_interval_min_ms = 10000, cleanup_interval_max_ms = 30000\<rparr>,
     mv_attached = False,
     shutdown_called = False,
     table_is_being_dropped = False\<rparr>"

definition example_iteration :: Iteration where
  "example_iteration =
    \<lparr>it_rows = 5,
     it_pipeline_exception = None,
     it_prepared = (\<lambda>i. if i = 0 then ([''set /processed/a''], [''a'']) else ([], [])),
     it_commit_env = healthy_commit_env\<rparr>"

text \<open>A turn in which the iterator had no file to offer: no rows, nothing to commit.\<close>

definition empty_iteration :: Iteration where
  "empty_iteration =
    \<lparr>it_rows = 0,
     it_pipeline_exception = None,
     it_prepared = (\<lambda>i. ([], [])),
     it_commit_env = healthy_commit_env\<rparr>"

definition failing_commit_env :: CommitEnv where
  "failing_commit_env = \<lparr>fail_commit = True, multi_code = ZOK\<rparr>"

definition example_tick :: TickEnv where
  "example_tick =
    \<lparr>dependent_views = [(''db.mv'', Some (StorageMaterializedView (Some ''db.target'')))],
     registerIfNot_exception = None,
     stream_env = \<lparr>table_exists = True, iterations = [example_iteration]\<rparr>,
     shutdown_during_tick = False,
     unregister_exception = None\<rparr>"

definition idle_tick :: TickEnv where
  "idle_tick = example_tick\<lparr>stream_env := \<lparr>table_exists = True, iterations = [empty_iteration]\<rparr>\<rparr>"

definition failing_tick :: TickEnv where
  "failing_tick = example_tick\<lparr>stream_env :=
     \<lparr>table_exists = True,
      iterations = [example_iteration\<lparr>it_commit_env := failing_commit_env\<rparr>]\<rparr>\<rparr>"

definition window_view_tick :: TickEnv where
  "window_view_tick = example_tick\<lparr>dependent_views := [(''db.wv'', Some StorageOther)]\<rparr>"

definition no_views_tick :: TickEnv where
  "no_views_tick = example_tick\<lparr>dependent_views := []\<rparr>"

text \<open>
  An instance of the collaborators of \<open>alter\<close>. \<open>example_apply\<close> stands for
  \<^verbatim>\<open>AlterCommands::apply\<close>: \<^verbatim>\<open>MODIFY SETTING\<close> overwrites the value of a setting that is there
  and appends one that is not, \<^verbatim>\<open>RESET SETTING\<close> removes the setting.
\<close>

fun modify_setting :: "SettingChange \<Rightarrow> SettingsChanges \<Rightarrow> SettingsChanges" where
  "modify_setting change [] = [change]"
| "modify_setting change (setting # settings) =
    (if fst setting = fst change then (fst setting, snd change) # settings
     else setting # modify_setting change settings)"

fun reset_setting :: "string \<Rightarrow> SettingsChanges \<Rightarrow> SettingsChanges" where
  "reset_setting name [] = []"
| "reset_setting name (setting # settings) =
    (if fst setting = name then settings else setting # reset_setting name settings)"

fun example_apply_command :: "AlterCommand \<Rightarrow> SettingsChanges \<Rightarrow> SettingsChanges" where
  "example_apply_command command settings =
    (case command_type command of
       MODIFY_SETTING \<Rightarrow> fold modify_setting (command_settings_changes command) settings
     | RESET_SETTING \<Rightarrow> fold reset_setting (command_settings_resets command) settings
     | OTHER_COMMAND \<Rightarrow> settings)"

definition example_apply :: "AlterCommand list \<Rightarrow> SettingsChanges option \<Rightarrow> SettingsChanges option" where
  "example_apply commands old = map_option (fold example_apply_command commands) old"

definition example_collaborators :: AlterCollaborators where
  "example_collaborators =
    \<lparr>isSettingsAlter = list_all (\<lambda>command. command_type command \<noteq> OTHER_COMMAND),
     apply_commands = example_apply,
     default_settings_get = (\<lambda>name. if name = ''buckets'' then FieldUInt64 0 else FieldUInt64 10),
     alterSettings = (\<lambda>changes tm. Inr tm),
     safeGet_UInt64 = (\<lambda>field. case field of FieldUInt64 v \<Rightarrow> Inr v
                                 | _ \<Rightarrow> Inl (Exception OTHER_ERROR ''Bad get'' [])),
     safeGet_bool = (\<lambda>field. case field of FieldBool v \<Rightarrow> Inr v
                               | _ \<Rightarrow> Inl (Exception OTHER_ERROR ''Bad get'' []))\<rparr>"

definition modify :: "string \<Rightarrow> Field \<Rightarrow> AlterCommand" where
  "modify name v =
    \<lparr>command_type = MODIFY_SETTING, command_settings_changes = [(name, v)],
     command_settings_resets = []\<rparr>"

definition attached_view :: "DependentView list" where
  "attached_view = [(''db.mv'', Some (StorageMaterializedView (Some ''db.target'')))]"

text \<open>An engine in unordered mode, and one whose stored settings name a setting twice.\<close>

definition unordered_engine :: StorageObjectStorageQueue where
  "unordered_engine = example_engine
    \<lparr>settings_changes := Some [(''mode'', FieldString ''unordered''), (''buckets'', FieldUInt64 1)],
     files_metadata := (files_metadata example_engine)
       \<lparr>table_metadata := example_table_metadata\<lparr>mode := UNORDERED, buckets := 1\<rparr>\<rparr>\<rparr>"

definition doubled_engine :: StorageObjectStorageQueue where
  "doubled_engine = example_engine
    \<lparr>settings_changes := Some [(''mode'', FieldString ''ordered''),
                               (''loading_retries'', FieldUInt64 10),
                               (''s3queue_loading_retries'', FieldUInt64 10)]\<rparr>"

text \<open>
  A turn with no rows whose insert pipeline throws; an engine created with
  \<open>polling_min_timeout_ms\<close> above \<open>polling_max_timeout_ms\<close>; and one whose backoff is the
  largest 64-bit value.
\<close>

definition throwing_tick :: TickEnv where
  "throwing_tick = example_tick\<lparr>stream_env :=
     \<lparr>table_exists = True,
      iterations = [empty_iteration
        \<lparr>it_pipeline_exception := Some (Exception OTHER_ERROR ''Cannot insert'' [])\<rparr>]\<rparr>\<rparr>"

definition inverted_engine :: StorageObjectStorageQueue where
  "inverted_engine = example_engine
    \<lparr>polling_min_timeout_ms := 20000, reschedule_processing_interval_ms := 20000\<rparr>"

definition wrapping_engine :: StorageObjectStorageQueue where
  "wrapping_engine = example_engine\<lparr>polling_backoff_ms := 18446744073709551615\<rparr>"

text \<open>
  A \<^verbatim>\<open>MODIFY SETTING\<close> that names one setting twice, with and without the prefix, and a
  \<^verbatim>\<open>RESET SETTING\<close> of one name.
\<close>

definition modify_both :: AlterCommand where
  "modify_both =
    \<lparr>command_type = MODIFY_SETTING,
     command_settings_changes =
       [(''s3queue_polling_backoff_ms'', FieldUInt64 500), (''polling_backoff_ms'', FieldUInt64 600)],
     command_settings_resets = []\<rparr>"

definition reset_command :: "string \<Rightarrow> AlterCommand" where
  "reset_command name =
    \<lparr>command_type = RESET_SETTING, command_settings_changes = [],
     command_settings_resets = [name]\<rparr>"

section \<open>Properties of commit\<close>

lemma commit_nothing_to_commit:
  assumes "gather_requests sources = []"
  shows "commit ap env ok rows sources msg =
    (ProfileIncrement ObjectStorageQueueProcessedRows rows
       # map (\<lambda>s. PrepareCommitRequests (processor_id s) ok msg) sources
       @ [Log LOG_TEST ''Nothing to commit''], Inr ())"
  using assms by (simp add: commit_def)

lemma commit_deleting_trace:
  assumes "gather_requests sources \<noteq> []"
    and "gather_successful_objects sources \<noteq> []"
    and "ap = DELETE"
  shows "\<exists>rest. fst (commit ap env ok rows sources msg) =
    (ProfileIncrement ObjectStorageQueueProcessedRows rows
       # map (\<lambda>s. PrepareCommitRequests (processor_id s) ok msg) sources
       @ [ProfileIncrement ObjectStorageQueueCommitRequests (length (gather_requests sources))])
    @ RemoveObjectsIfExist (gather_successful_objects sources) # rest"
  using assms by (simp add: commit_def Let_def)

lemma takeWhile_stops_at:
  assumes "\<forall>e \<in> set pre. P e" and "\<not> P x"
  shows "takeWhile P (pre @ x # rest) = pre"
  using assms by (induction pre) auto

text \<open>
  Claim C1. A call of \<open>commit\<close> whose gathered requests are empty returns normally and its
  trace holds neither a coordinator transaction nor a blob-store deletion. Otherwise, when
  the successful objects are non-empty and the after-processing action is \<open>DELETE\<close>, the
  trace holds the deletion of exactly those objects, and no coordinator transaction stands
  before it: the multi is never issued first.
\<close>

theorem commit_empty_or_delete_before_multi:
  "(gather_requests sources = [] \<longrightarrow>
      snd (commit ap env ok rows sources msg) = Inr ()
      \<and> (\<forall>e \<in> set (fst (commit ap env ok rows sources msg)).
            \<not> is_TryMulti e \<and> \<not> is_RemoveObjectsIfExist e))
   \<and> (gather_requests sources \<noteq> [] \<and> gather_successful_objects sources \<noteq> [] \<and> ap = DELETE \<longrightarrow>
      RemoveObjectsIfExist (gather_successful_objects sources)
        \<in> set (fst (commit ap env ok rows sources msg))
      \<and> (\<forall>e \<in> set (before_removal (fst (commit ap env ok rows sources msg))). \<not> is_TryMulti e))"
proof (intro conjI impI)
  assume empty: "gather_requests sources = []"
  show "snd (commit ap env ok rows sources msg) = Inr ()"
    by (simp add: commit_nothing_to_commit [OF empty])
  show "\<forall>e \<in> set (fst (commit ap env ok rows sources msg)).
          \<not> is_TryMulti e \<and> \<not> is_RemoveObjectsIfExist e"
    by (auto simp: commit_nothing_to_commit [OF empty])
next
  assume h: "gather_requests sources \<noteq> [] \<and> gather_successful_objects sources \<noteq> [] \<and> ap = DELETE"
  then obtain rest where tr: "fst (commit ap env ok rows sources msg) =
    (ProfileIncrement ObjectStorageQueueProcessedRows rows
       # map (\<lambda>s. PrepareCommitRequests (processor_id s) ok msg) sources
       @ [ProfileIncrement ObjectStorageQueueCommitRequests (length (gather_requests sources))])
    @ RemoveObjectsIfExist (gather_successful_objects sources) # rest"
    using commit_deleting_trace by blast
  show "RemoveObjectsIfExist (gather_successful_objects sources)
          \<in> set (fst (commit ap env ok rows sources msg))"
    by (simp add: tr)
  have pre: "\<forall>e \<in> set (ProfileIncrement ObjectStorageQueueProcessedRows rows
       # map (\<lambda>s. PrepareCommitRequests (processor_id s) ok msg) sources
       @ [ProfileIncrement ObjectStorageQueueCommitRequests (length (gather_requests sources))]).
       \<not> is_RemoveObjectsIfExist e"
    by auto
  have "before_removal (fst (commit ap env ok rows sources msg)) =
    ProfileIncrement ObjectStorageQueueProcessedRows rows
       # map (\<lambda>s. PrepareCommitRequests (processor_id s) ok msg) sources
       @ [ProfileIncrement ObjectStorageQueueCommitRequests (length (gather_requests sources))]"
    unfolding before_removal_def tr
    by (rule takeWhile_stops_at) (use pre in auto)
  then show "\<forall>e \<in> set (before_removal (fst (commit ap env ok rows sources msg))). \<not> is_TryMulti e"
    by auto
qed

theorem commit_empty_or_delete_before_multi_witness:
  "gather_requests [idle_source] = []
   \<and> snd (commit DELETE healthy_commit_env True 0 [idle_source] []) = Inr ()
   \<and> \<not> list_ex is_TryMulti (fst (commit DELETE healthy_commit_env True 0 [idle_source] []))
   \<and> \<not> list_ex is_RemoveObjectsIfExist (fst (commit DELETE healthy_commit_env True 0 [idle_source] []))
   \<and> gather_requests [example_source] \<noteq> []
   \<and> gather_successful_objects [example_source] = [''a'']
   \<and> RemoveObjectsIfExist [''a'']
        \<in> set (fst (commit DELETE healthy_commit_env True 1 [example_source] []))
   \<and> \<not> list_ex is_TryMulti
        (before_removal (fst (commit DELETE healthy_commit_env True 1 [example_source] [])))
   \<and> TryMulti [''set /processed/a'']
        \<in> set (fst (commit DELETE healthy_commit_env True 1 [example_source] []))"
proof -
  have e: "gather_requests [idle_source] = []"
    by (simp add: gather_requests_def idle_source_def)
  have r: "gather_requests [example_source] \<noteq> []"
    by (simp add: gather_requests_def example_source_def)
  have o: "gather_successful_objects [example_source] = [''a'']"
    by (simp add: gather_successful_objects_def example_source_def)
  have m: "TryMulti [''set /processed/a'']
        \<in> set (fst (commit DELETE healthy_commit_env True 1 [example_source] []))"
    by (simp add: commit_def gather_requests_def gather_successful_objects_def
        example_source_def healthy_commit_env_def)
  show ?thesis
    using e r o m
      commit_empty_or_delete_before_multi
        [of "[idle_source]" DELETE healthy_commit_env True 0 "[]"]
      commit_empty_or_delete_before_multi
        [of "[example_source]" DELETE healthy_commit_env True 1 "[]"]
    by (simp add: list_ex_iff)
qed

section \<open>Properties of the background task\<close>

lemma streamToViews_mv_attached:
  "streamToViews (st\<lparr>mv_attached := b\<rparr>) env = streamToViews st env"
  by (simp add: streamToViews_def getTableMetadata_def)

lemma streamToViews_loop_total:
  "streamToViews_loop a t its acc = (tr, Inr r) \<Longrightarrow> r = acc + sum_list (map it_rows its)"
proof (induction its arbitrary: acc tr)
  case Nil
  then show ?case by simp
next
  case (Cons it its)
  from Cons.prems obtain tr' where
    "streamToViews_loop a t its (acc + it_rows it) = (tr', Inr r)"
    by (auto simp: Let_def split: option.splits prod.splits sum.splits)
  from Cons.IH [OF this] show ?case
    by (simp add: add.assoc)
qed

lemma streamToViews_returns:
  assumes "snd (streamToViews st env) = Inr b"
  shows "b = (0 < sum_list (map it_rows (iterations env)))"
proof -
  from assms obtain tr r where
    l: "streamToViews_loop (after_processing (getTableMetadata st))
          (processing_threads_num (getTableMetadata st)) (iterations env) 0 = (tr, Inr r)"
    and b: "b = (0 < r)"
    by (auto simp: streamToViews_def split: if_splits prod.splits sum.splits)
  from streamToViews_loop_total [OF l] b show ?thesis by simp
qed

lemma threadFunc_with_dependencies:
  assumes "\<not> shutdown_called st" and "getDependencies (dependent_views env) \<noteq> 0"
  shows "threadFunc st env =
    ((fst (stream_with_dependencies st env))\<lparr>shutdown_called := shutdown_during_tick env\<rparr>,
     snd (stream_with_dependencies st env)
       @ reschedule ((fst (stream_with_dependencies st env))
                       \<lparr>shutdown_called := shutdown_during_tick env\<rparr>) env)"
  using assms by (simp add: threadFunc_def Let_def split: prod.splits)

lemma threadFunc_without_dependencies:
  assumes "\<not> shutdown_called st" and "getDependencies (dependent_views env) = 0"
  shows "threadFunc st env =
    (st\<lparr>shutdown_called := shutdown_during_tick env\<rparr>,
     Log LOG_TEST ''No attached dependencies''
       # reschedule (st\<lparr>shutdown_called := shutdown_during_tick env\<rparr>) env)"
  using assms by (simp add: threadFunc_def Let_def)

lemma stream_with_dependencies_returned:
  assumes "registerIfNot_exception env = None"
    and "snd (streamToViews st (stream_env env)) = Inr b"
  shows "fst (stream_with_dependencies st env) =
    st\<lparr>mv_attached := False,
       reschedule_processing_interval_ms :=
         (if b then polling_min_timeout_ms st
          else min (polling_max_timeout_ms st)
                   (reschedule_processing_interval_ms st + polling_backoff_ms st))\<rparr>"
  using assms
  by (cases "streamToViews st (stream_env env)")
     (auto simp: stream_with_dependencies_def streamToViews_mv_attached Let_def)

lemma stream_with_dependencies_thrown:
  assumes "registerIfNot_exception env = None"
    and "snd (streamToViews st (stream_env env)) = Inl e"
  shows "stream_with_dependencies st env =
    (st\<lparr>mv_attached := False\<rparr>,
     [Log LOG_DEBUG ''Started streaming to {} attached views'', RegisterIfNot]
       @ fst (streamToViews st (stream_env env))
       @ [Log LOG_ERROR (''Failed to process data: '' @ getCurrentExceptionMessage e)])"
  using assms
  by (cases "streamToViews st (stream_env env)")
     (auto simp: stream_with_dependencies_def streamToViews_mv_attached Let_def)

lemma stream_with_dependencies_not_registered:
  assumes "registerIfNot_exception env = Some e"
  shows "stream_with_dependencies st env =
    (st\<lparr>mv_attached := False\<rparr>,
     [Log LOG_DEBUG ''Started streaming to {} attached views'', RegisterIfNot,
      Log LOG_ERROR (''Failed to process data: '' @ getCurrentExceptionMessage e)])"
  using assms by (simp add: stream_with_dependencies_def Let_def)

lemma reschedule_running:
  assumes "\<not> shutdown_called st"
  shows "ScheduleAfter (reschedule_processing_interval_ms st) \<in> set (reschedule st env)"
  using assms by (simp add: reschedule_def)

lemma reschedule_shut_down:
  assumes "shutdown_called st"
  shows "reschedule st env = []"
  using assms by (simp add: reschedule_def)

lemma reschedule_quiet:
  "list_all (\<lambda>e. \<not> is_RegisterIfNot e \<and> \<not> is_streaming_event e) (reschedule st env)"
  by (simp add: reschedule_def split: option.splits)

lemma unat_min_word: "unat (min (a :: 64 word) b) = min (unat a) (unat b)"
  by (simp add: min_def word_le_nat_alt)

lemma unat_add_no_overflow:
  assumes "unat (a :: 64 word) + unat b < 2 ^ 64"
  shows "unat (a + b) = unat a + unat b"
  using assms by (simp add: unat_add_lem [THEN iffD1])

lemma example_tick_streams:
  "snd (streamToViews example_engine (stream_env example_tick)) = Inr True"
  by (simp add: streamToViews_def example_engine_def example_tick_def example_iteration_def
      getTableMetadata_def example_table_metadata_def createSources_def commit_def
      gather_requests_def gather_successful_objects_def healthy_commit_env_def upt_rec Let_def)

lemma idle_tick_streams:
  "snd (streamToViews example_engine (stream_env idle_tick)) = Inr False"
  by (simp add: streamToViews_def example_engine_def example_tick_def idle_tick_def
      empty_iteration_def getTableMetadata_def example_table_metadata_def createSources_def
      commit_def gather_requests_def gather_successful_objects_def healthy_commit_env_def
      upt_rec Let_def)

lemma example_tick_facts:
  "\<not> shutdown_called example_engine"
  "getDependencies (dependent_views example_tick) = 1"
  "getDependencies (dependent_views idle_tick) = 1"
  "getDependencies (dependent_views failing_tick) = 1"
  "registerIfNot_exception example_tick = None"
  "registerIfNot_exception idle_tick = None"
  "registerIfNot_exception failing_tick = None"
  "\<not> shutdown_during_tick example_tick"
  "\<not> shutdown_during_tick idle_tick"
  "\<not> shutdown_during_tick failing_tick"
  by (simp_all add: example_engine_def example_tick_def idle_tick_def failing_tick_def
      getDependencies_def)

lemma throwing_tick_streams:
  "streamToViews example_engine (stream_env throwing_tick) =
    ([CreateFileIterator, Log LOG_TEST ''Using {} processing threads'',
      ProfileIncrement ObjectStorageQueueInsertIterations 1, ExecuteInsertPipeline 2,
      ProfileIncrement ObjectStorageQueueProcessedRows 0,
      PrepareCommitRequests 0 False ''Cannot insert'', PrepareCommitRequests 1 False ''Cannot insert'',
      Log LOG_TEST ''Nothing to commit'', ReleaseFinishedBuckets],
     Inl (Exception OTHER_ERROR ''Cannot insert'' []))"
  by (simp add: streamToViews_def example_engine_def example_tick_def throwing_tick_def
      empty_iteration_def getTableMetadata_def example_table_metadata_def createSources_def
      commit_def gather_requests_def gather_successful_objects_def healthy_commit_env_def
      upt_rec Let_def)

lemma streamToViews_same_metadata:
  assumes "files_metadata st' = files_metadata st" and "storage_id st' = storage_id st"
  shows "streamToViews st' env = streamToViews st env"
  using assms by (simp add: streamToViews_def getTableMetadata_def)

lemma construct_inverted:
  "construct glob_chars
     (example_args\<lparr>arg_queue_settings :=
        example_settings\<lparr>setting_polling_min_timeout_ms := 20000\<rparr>\<rparr>) = Inr inverted_engine"
  by (simp add: construct_def example_args_def inverted_engine_def example_engine_def
      normalize_path_def validateSettings_def example_settings_def)

text \<open>
  Claim C3, as the spec states it, fails in three ways. A tick that runs the streaming loop
  with no row processed and an insert that throws leaves the interval at 1000, where the
  claim's ``otherwise'' gives \<open>min 10000 (1000 + 1000) = 2000\<close>. A table created with
  \<open>polling_min_timeout_ms = 20000\<close> above \<open>polling_max_timeout_ms = 10000\<close> (the constructor
  does not compare them) starts at 20000, and an idle tick takes the interval down to 10000:
  it does not increase. With a backoff of \<open>2 ^ 64 - 1\<close> the 64-bit sum wraps, and an idle
  tick takes the interval from 1000 to 999.
\<close>

theorem threadFunc_interval_counterexample:
  "CreateFileIterator \<in> set (snd (threadFunc example_engine throwing_tick))
   \<and> reschedule_processing_interval_ms example_engine = 1000
   \<and> polling_backoff_ms example_engine = 1000
   \<and> polling_max_timeout_ms example_engine = 10000
   \<and> reschedule_processing_interval_ms (fst (threadFunc example_engine throwing_tick)) = 1000
   \<and> construct glob_chars
        (example_args\<lparr>arg_queue_settings :=
           example_settings\<lparr>setting_polling_min_timeout_ms := 20000\<rparr>\<rparr>) = Inr inverted_engine
   \<and> reschedule_processing_interval_ms inverted_engine = 20000
   \<and> snd (streamToViews inverted_engine (stream_env idle_tick)) = Inr False
   \<and> reschedule_processing_interval_ms (fst (threadFunc inverted_engine idle_tick)) = 10000
   \<and> unat (polling_backoff_ms wrapping_engine) = 18446744073709551615
   \<and> snd (streamToViews wrapping_engine (stream_env idle_tick)) = Inr False
   \<and> reschedule_processing_interval_ms wrapping_engine = 1000
   \<and> reschedule_processing_interval_ms (fst (threadFunc wrapping_engine idle_tick)) = 999"
proof -
  have same: "streamToViews inverted_engine (stream_env idle_tick)
      = streamToViews example_engine (stream_env idle_tick)"
    "streamToViews wrapping_engine (stream_env idle_tick)
      = streamToViews example_engine (stream_env idle_tick)"
    by (rule streamToViews_same_metadata; simp add: inverted_engine_def wrapping_engine_def)+
  have n: "\<not> shutdown_called example_engine" "\<not> shutdown_called inverted_engine"
    "\<not> shutdown_called wrapping_engine"
    by (simp_all add: example_engine_def inverted_engine_def wrapping_engine_def)
  have d: "getDependencies (dependent_views throwing_tick) \<noteq> 0"
    "getDependencies (dependent_views idle_tick) \<noteq> 0"
    "registerIfNot_exception throwing_tick = None"
    "registerIfNot_exception idle_tick = None"
    by (simp_all add: throwing_tick_def idle_tick_def example_tick_def getDependencies_def)
  have v: "reschedule_processing_interval_ms example_engine = 1000"
    "polling_backoff_ms example_engine = 1000"
    "polling_max_timeout_ms example_engine = 10000"
    "reschedule_processing_interval_ms inverted_engine = 20000"
    "polling_backoff_ms inverted_engine = 1000"
    "polling_max_timeout_ms inverted_engine = 10000"
    "reschedule_processing_interval_ms wrapping_engine = 1000"
    "polling_backoff_ms wrapping_engine = 18446744073709551615"
    "polling_max_timeout_ms wrapping_engine = 10000"
    by (simp_all add: example_engine_def inverted_engine_def wrapping_engine_def)
  have t: "snd (streamToViews example_engine (stream_env throwing_tick))
      = Inl (Exception OTHER_ERROR ''Cannot insert'' [])"
    by (simp add: throwing_tick_streams)
  have thrown_tick: "CreateFileIterator \<in> set (snd (threadFunc example_engine throwing_tick))"
    "reschedule_processing_interval_ms (fst (threadFunc example_engine throwing_tick)) = 1000"
    by (simp_all add: threadFunc_with_dependencies [OF n(1) d(1)]
        stream_with_dependencies_thrown [OF d(3) t] throwing_tick_streams v)
  have i: "snd (streamToViews inverted_engine (stream_env idle_tick)) = Inr False"
    "snd (streamToViews wrapping_engine (stream_env idle_tick)) = Inr False"
    by (simp_all add: same idle_tick_streams)
  have inverted: "reschedule_processing_interval_ms (fst (threadFunc inverted_engine idle_tick)) = 10000"
    by (simp add: threadFunc_with_dependencies [OF n(2) d(2)]
        stream_with_dependencies_returned [OF d(4) i(1)] v)
  have wrapped: "reschedule_processing_interval_ms (fst (threadFunc wrapping_engine idle_tick)) = 999"
    by (simp add: threadFunc_with_dependencies [OF n(3) d(2)]
        stream_with_dependencies_returned [OF d(4) i(2)] v)
  have w: "unat (polling_backoff_ms wrapping_engine) = 18446744073709551615"
    by (simp add: v)
  show ?thesis
    by (intro conjI) (rule thrown_tick v construct_inverted i inverted wrapped w)+
qed

text \<open>
  Claim C3, amended. On a tick that runs the streaming loop (the table is not shut down,
  there are dependencies and the replica is registered): when \<open>streamToViews\<close> returns, it
  returns true exactly when the rows of the cycle add up to more than 0. If it returns
  true, the reschedule interval is reset to \<open>polling_min_timeout_ms\<close>. If it returns false,
  the new interval never exceeds \<open>polling_max_timeout_ms\<close>; when the previous interval plus
  \<open>polling_backoff_ms\<close> is below \<open>2 ^ 64\<close> it is the minimum of the maximum and that sum,
  and it is then not below the previous interval provided the previous interval was not
  above the maximum. If \<open>streamToViews\<close> throws, the interval is left as it was. In each
  case the task is scheduled after the resulting interval unless the table is shut down.
\<close>

theorem threadFunc_reschedule_interval:
  assumes "\<not> shutdown_called st"
    and "getDependencies (dependent_views env) \<noteq> 0"
    and "registerIfNot_exception env = None"
  shows "(snd (streamToViews st (stream_env env)) = Inr b \<longrightarrow>
        b = (0 < sum_list (map it_rows (iterations (stream_env env)))))
    \<and> (snd (streamToViews st (stream_env env)) = Inr True \<longrightarrow>
        reschedule_processing_interval_ms (fst (threadFunc st env)) = polling_min_timeout_ms st)
    \<and> (snd (streamToViews st (stream_env env)) = Inr False \<longrightarrow>
        unat (reschedule_processing_interval_ms (fst (threadFunc st env)))
          \<le> unat (polling_max_timeout_ms st)
        \<and> (unat (reschedule_processing_interval_ms st) + unat (polling_backoff_ms st) < 2 ^ 64 \<longrightarrow>
             unat (reschedule_processing_interval_ms (fst (threadFunc st env))) =
               min (unat (polling_max_timeout_ms st))
                   (unat (reschedule_processing_interval_ms st) + unat (polling_backoff_ms st))
             \<and> (unat (reschedule_processing_interval_ms st) \<le> unat (polling_max_timeout_ms st) \<longrightarrow>
                  unat (reschedule_processing_interval_ms st)
                    \<le> unat (reschedule_processing_interval_ms (fst (threadFunc st env))))))
    \<and> (snd (streamToViews st (stream_env env)) = Inl e \<longrightarrow>
        reschedule_processing_interval_ms (fst (threadFunc st env))
          = reschedule_processing_interval_ms st)
    \<and> (\<not> shutdown_during_tick env \<longrightarrow>
         ScheduleAfter (reschedule_processing_interval_ms (fst (threadFunc st env)))
           \<in> set (snd (threadFunc st env)))"
proof -
  let ?final = "(fst (stream_with_dependencies st env))\<lparr>shutdown_called := shutdown_during_tick env\<rparr>"
  let ?idle = "min (polling_max_timeout_ms st)
                  (reschedule_processing_interval_ms st + polling_backoff_ms st)"
  have tick: "threadFunc st env =
      (?final, snd (stream_with_dependencies st env) @ reschedule ?final env)"
    by (rule threadFunc_with_dependencies [OF assms(1,2)])
  have rows: "snd (streamToViews st (stream_env env)) = Inr b \<longrightarrow>
      b = (0 < sum_list (map it_rows (iterations (stream_env env))))"
    using streamToViews_returns by blast
  have reset: "snd (streamToViews st (stream_env env)) = Inr True \<longrightarrow>
      reschedule_processing_interval_ms (fst (threadFunc st env)) = polling_min_timeout_ms st"
    using stream_with_dependencies_returned [OF assms(3), of st True]
    by (simp add: tick)
  have idle: "reschedule_processing_interval_ms (fst (threadFunc st env)) = ?idle"
    if "snd (streamToViews st (stream_env env)) = Inr False"
    using stream_with_dependencies_returned [OF assms(3) that]
    by (simp add: tick)
  have backoff: "snd (streamToViews st (stream_env env)) = Inr False \<longrightarrow>
        unat (reschedule_processing_interval_ms (fst (threadFunc st env)))
          \<le> unat (polling_max_timeout_ms st)
        \<and> (unat (reschedule_processing_interval_ms st) + unat (polling_backoff_ms st) < 2 ^ 64 \<longrightarrow>
             unat (reschedule_processing_interval_ms (fst (threadFunc st env))) =
               min (unat (polling_max_timeout_ms st))
                   (unat (reschedule_processing_interval_ms st) + unat (polling_backoff_ms st))
             \<and> (unat (reschedule_processing_interval_ms st) \<le> unat (polling_max_timeout_ms st) \<longrightarrow>
                  unat (reschedule_processing_interval_ms st)
                    \<le> unat (reschedule_processing_interval_ms (fst (threadFunc st env)))))"
  proof
    assume f: "snd (streamToViews st (stream_env env)) = Inr False"
    show "unat (reschedule_processing_interval_ms (fst (threadFunc st env)))
          \<le> unat (polling_max_timeout_ms st)
        \<and> (unat (reschedule_processing_interval_ms st) + unat (polling_backoff_ms st) < 2 ^ 64 \<longrightarrow>
             unat (reschedule_processing_interval_ms (fst (threadFunc st env))) =
               min (unat (polling_max_timeout_ms st))
                   (unat (reschedule_processing_interval_ms st) + unat (polling_backoff_ms st))
             \<and> (unat (reschedule_processing_interval_ms st) \<le> unat (polling_max_timeout_ms st) \<longrightarrow>
                  unat (reschedule_processing_interval_ms st)
                    \<le> unat (reschedule_processing_interval_ms (fst (threadFunc st env)))))"
      by (simp add: idle [OF f] unat_min_word unat_add_no_overflow)
  qed
  have kept: "snd (streamToViews st (stream_env env)) = Inl e \<longrightarrow>
        reschedule_processing_interval_ms (fst (threadFunc st env))
          = reschedule_processing_interval_ms st"
    using stream_with_dependencies_thrown [OF assms(3), of st e]
    by (simp add: tick)
  have scheduled: "\<not> shutdown_during_tick env \<longrightarrow>
         ScheduleAfter (reschedule_processing_interval_ms (fst (threadFunc st env)))
           \<in> set (snd (threadFunc st env))"
  proof
    assume "\<not> shutdown_during_tick env"
    then have "\<not> shutdown_called ?final" by simp
    from reschedule_running [OF this, of env] show "ScheduleAfter
        (reschedule_processing_interval_ms (fst (threadFunc st env))) \<in> set (snd (threadFunc st env))"
      by (simp add: tick)
  qed
  from rows reset backoff kept scheduled show ?thesis by blast
qed

theorem threadFunc_reschedule_interval_witness:
  "snd (streamToViews example_engine (stream_env example_tick)) = Inr True
   \<and> reschedule_processing_interval_ms
       (fst (threadFunc (example_engine\<lparr>reschedule_processing_interval_ms := 3000\<rparr>) example_tick)) = 1000
   \<and> ScheduleAfter 1000
       \<in> set (snd (threadFunc (example_engine\<lparr>reschedule_processing_interval_ms := 3000\<rparr>) example_tick))
   \<and> snd (streamToViews example_engine (stream_env idle_tick)) = Inr False
   \<and> unat (reschedule_processing_interval_ms (fst (threadFunc example_engine idle_tick))) = 2000
   \<and> ScheduleAfter 2000 \<in> set (snd (threadFunc example_engine idle_tick))
   \<and> unat (reschedule_processing_interval_ms
       (fst (threadFunc (example_engine\<lparr>reschedule_processing_interval_ms := 9500\<rparr>) idle_tick))) = 10000
   \<and> snd (streamToViews example_engine (stream_env throwing_tick))
       = Inl (Exception OTHER_ERROR ''Cannot insert'' [])
   \<and> reschedule_processing_interval_ms (fst (threadFunc example_engine throwing_tick)) = 1000
   \<and> ScheduleAfter 1000 \<in> set (snd (threadFunc example_engine throwing_tick))"
proof -
  let ?busy = "example_engine\<lparr>reschedule_processing_interval_ms := 3000\<rparr>"
  let ?late = "example_engine\<lparr>reschedule_processing_interval_ms := 9500\<rparr>"
  let ?e = "Exception OTHER_ERROR ''Cannot insert'' []"
  have same: "\<And>v env. streamToViews (example_engine\<lparr>reschedule_processing_interval_ms := v\<rparr>) env
      = streamToViews example_engine env"
    by (rule streamToViews_same_metadata) simp_all
  have s: "\<not> shutdown_called ?busy" "\<not> shutdown_called ?late"
    using example_tick_facts(1) by simp_all
  have v: "polling_min_timeout_ms ?busy = 1000"
    "unat (polling_max_timeout_ms example_engine) = 10000"
    "unat (polling_max_timeout_ms ?late) = 10000"
    "unat (polling_backoff_ms example_engine) = 1000"
    "unat (polling_backoff_ms ?late) = 1000"
    "unat (reschedule_processing_interval_ms example_engine) = 1000"
    "reschedule_processing_interval_ms example_engine = 1000"
    "unat (reschedule_processing_interval_ms ?late) = 9500"
    by (simp_all add: example_engine_def)
  have one: "getDependencies (dependent_views example_tick) \<noteq> 0"
    "getDependencies (dependent_views idle_tick) \<noteq> 0"
    "getDependencies (dependent_views throwing_tick) \<noteq> 0"
    "registerIfNot_exception throwing_tick = None"
    "\<not> shutdown_during_tick throwing_tick"
    by (simp_all add: idle_tick_def throwing_tick_def example_tick_def getDependencies_def)
  have t: "snd (streamToViews example_engine (stream_env throwing_tick)) = Inl ?e"
    by (simp add: throwing_tick_streams)
  note busy = threadFunc_reschedule_interval [of ?busy example_tick True ?e,
      OF s(1) one(1) example_tick_facts(5)]
  note idle = threadFunc_reschedule_interval [of example_engine idle_tick False ?e,
      OF example_tick_facts(1) one(2) example_tick_facts(6)]
  note late = threadFunc_reschedule_interval [of ?late idle_tick False ?e,
      OF s(2) one(2) example_tick_facts(6)]
  note thrown_tick = threadFunc_reschedule_interval [of example_engine throwing_tick False ?e,
      OF example_tick_facts(1) one(3) one(4)]
  have b: "reschedule_processing_interval_ms (fst (threadFunc ?busy example_tick)) = 1000"
    "ScheduleAfter 1000 \<in> set (snd (threadFunc ?busy example_tick))"
    using busy example_tick_streams example_tick_facts(8) v(1)
    by (auto simp: same)
  have i: "unat (reschedule_processing_interval_ms (fst (threadFunc example_engine idle_tick))) = 2000"
    using idle idle_tick_streams v
    by simp
  have i': "ScheduleAfter 2000 \<in> set (snd (threadFunc example_engine idle_tick))"
  proof -
    from i have "reschedule_processing_interval_ms (fst (threadFunc example_engine idle_tick)) = 2000"
      by (simp add: word_unat_eq_iff)
    with idle example_tick_facts(9) show ?thesis by simp
  qed
  have l: "unat (reschedule_processing_interval_ms (fst (threadFunc ?late idle_tick))) = 10000"
    using late idle_tick_streams v
    by (simp add: same)
  have k: "reschedule_processing_interval_ms (fst (threadFunc example_engine throwing_tick)) = 1000"
    "ScheduleAfter 1000 \<in> set (snd (threadFunc example_engine throwing_tick))"
    using thrown_tick t one(5) v(7)
    by auto
  from example_tick_streams idle_tick_streams t b i i' l k show ?thesis
    by simp
qed

lemma dependencies_ready_all: "dependencies_ready views = list_all view_is_ready views"
  by (induction views rule: dependencies_ready.induct) simp_all

lemma reschedule_no_processing: "\<not> list_ex is_processing_event (reschedule st env)"
  by (simp add: reschedule_def is_processing_event_def split: option.splits)

text \<open>
  Claim C4, as the spec states it, fails when a dependent view is not a materialized view
  (the \<^verbatim>\<open>dynamic_cast\<close> gives null, and the view counts): no dependent view is materialized
  with a resolvable target, yet \<open>getDependencies\<close> returns 1 and the tick registers the
  replica and streams.
\<close>

theorem threadFunc_other_view_counterexample:
  "spec_downstream_consumers (dependent_views window_view_tick) = []
   \<and> getDependencies (dependent_views window_view_tick) = 1
   \<and> RegisterIfNot \<in> set (snd (threadFunc example_engine window_view_tick))
   \<and> CreateFileIterator \<in> set (snd (threadFunc example_engine window_view_tick))
   \<and> TryMulti [''set /processed/a''] \<in> set (snd (threadFunc example_engine window_view_tick))"
proof -
  have d: "getDependencies (dependent_views window_view_tick) = 1"
    by (simp add: window_view_tick_def example_tick_def getDependencies_def)
  have c: "spec_downstream_consumers (dependent_views window_view_tick) = []"
    by (simp add: window_view_tick_def example_tick_def spec_downstream_consumers_def)
  have s: "stream_env window_view_tick = stream_env example_tick"
    "registerIfNot_exception window_view_tick = None"
    by (simp_all add: window_view_tick_def example_tick_def)
  have t: "fst (streamToViews example_engine (stream_env example_tick)) =
    [CreateFileIterator, Log LOG_TEST ''Using {} processing threads'',
     ProfileIncrement ObjectStorageQueueInsertIterations 1, ExecuteInsertPipeline 2,
     ProfileIncrement ObjectStorageQueueProcessedRows 5,
     PrepareCommitRequests 0 True [], PrepareCommitRequests 1 True [],
     ProfileIncrement ObjectStorageQueueCommitRequests 1, GetZooKeeper,
     TryMulti [''set /processed/a''],
     ProfileIncrement ObjectStorageQueueSuccessfulCommits 1,
     FinalizeCommit 0 True [], FinalizeCommit 1 True [],
     Log LOG_TRACE ''Successfully committed {} requests for {} sources (inserted rows: {}, successful files: {})'',
     ReleaseFinishedBuckets, Log LOG_TEST ''Processed rows: {}'']"
    by (simp add: streamToViews_def example_engine_def example_tick_def example_iteration_def
      getTableMetadata_def example_table_metadata_def createSources_def commit_def
      gather_requests_def gather_successful_objects_def healthy_commit_env_def upt_rec Let_def)
  have w: "snd (stream_with_dependencies example_engine window_view_tick) =
    [Log LOG_DEBUG ''Started streaming to {} attached views'', RegisterIfNot]
      @ fst (streamToViews example_engine (stream_env example_tick))
      @ [Log LOG_DEBUG ''Stopped streaming to {} attached views'']"
    using example_tick_streams
    by (cases "streamToViews example_engine (stream_env example_tick)")
       (simp add: stream_with_dependencies_def s streamToViews_mv_attached Let_def)
  have n: "\<not> shutdown_called example_engine"
    by (simp add: example_engine_def)
  have "getDependencies (dependent_views window_view_tick) \<noteq> 0"
    by (simp add: d)
  from threadFunc_with_dependencies [OF n this] w t c d show ?thesis
    by simp
qed

text \<open>
  Claim C4, amended. \<open>getDependencies\<close> returns 0 when there is no dependent view, when one
  of them cannot be resolved or when a materialized one has no resolvable target table;
  otherwise it returns the number of all dependent views, materialized or not. On a tick
  for which it returns 0 nothing is processed: the engine's state is unchanged (but for the
  shutdown flag), and the trace has no registration of the replica, no file iterator, no
  insert pipeline, no commit: only the log line and the rescheduling. A tick of a table
  that is shut down does nothing at all.
\<close>

theorem threadFunc_skips_without_dependencies:
  "getDependencies views = (if views \<noteq> [] \<and> list_all view_is_ready views then length views else 0)
   \<and> (\<not> shutdown_called st \<and> getDependencies (dependent_views env) = 0 \<longrightarrow>
        threadFunc st env =
          (st\<lparr>shutdown_called := shutdown_during_tick env\<rparr>,
           Log LOG_TEST ''No attached dependencies''
             # reschedule (st\<lparr>shutdown_called := shutdown_during_tick env\<rparr>) env)
        \<and> \<not> list_ex is_processing_event (snd (threadFunc st env)))
   \<and> (shutdown_called st \<longrightarrow> threadFunc st env = (st, []))"
proof (intro conjI impI)
  show "getDependencies views =
      (if views \<noteq> [] \<and> list_all view_is_ready views then length views else 0)"
    by (simp add: getDependencies_def dependencies_ready_all)
next
  assume h: "\<not> shutdown_called st \<and> getDependencies (dependent_views env) = 0"
  then show t: "threadFunc st env =
          (st\<lparr>shutdown_called := shutdown_during_tick env\<rparr>,
           Log LOG_TEST ''No attached dependencies''
             # reschedule (st\<lparr>shutdown_called := shutdown_during_tick env\<rparr>) env)"
    by (simp add: threadFunc_without_dependencies)
  show "\<not> list_ex is_processing_event (snd (threadFunc st env))"
    using reschedule_no_processing [of "st\<lparr>shutdown_called := shutdown_during_tick env\<rparr>" env]
    by (simp add: t is_processing_event_def)
next
  assume "shutdown_called st"
  then show "threadFunc st env = (st, [])"
    by (simp add: threadFunc_def)
qed

theorem threadFunc_skips_without_dependencies_witness:
  "getDependencies [] = 0
   \<and> getDependencies [(''db.mv'', Some (StorageMaterializedView None)), (''db.wv'', Some StorageOther)] = 0
   \<and> getDependencies [(''db.mv'', None)] = 0
   \<and> getDependencies [(''db.mv'', Some (StorageMaterializedView (Some ''db.t''))), (''db.wv'', Some StorageOther)] = 2
   \<and> \<not> shutdown_called example_engine
   \<and> threadFunc example_engine no_views_tick =
       (example_engine,
        [Log LOG_TEST ''No attached dependencies'',
         Log LOG_TRACE ''Reschedule processing thread in {} ms'', ScheduleAfter 1000])
   \<and> shutdown_called (example_engine\<lparr>shutdown_called := True\<rparr>)
   \<and> snd (threadFunc (example_engine\<lparr>shutdown_called := True\<rparr>) example_tick) = []"
proof -
  have n: "\<not> shutdown_called example_engine"
    "shutdown_called (example_engine\<lparr>shutdown_called := True\<rparr>)"
    by (simp_all add: example_engine_def)
  have v: "dependent_views no_views_tick = []" "\<not> shutdown_during_tick no_views_tick"
    by (simp_all add: no_views_tick_def example_tick_def)
  have e: "example_engine\<lparr>shutdown_called := False\<rparr> = example_engine"
    by (simp add: example_engine_def)
  have r: "reschedule example_engine no_views_tick =
    [Log LOG_TRACE ''Reschedule processing thread in {} ms'', ScheduleAfter 1000]"
    by (simp add: reschedule_def example_engine_def)
  have "threadFunc example_engine no_views_tick =
      (example_engine\<lparr>shutdown_called := False\<rparr>,
       Log LOG_TEST ''No attached dependencies''
         # reschedule (example_engine\<lparr>shutdown_called := False\<rparr>) no_views_tick)"
    using n v threadFunc_skips_without_dependencies [of "[]" example_engine no_views_tick]
    by simp
  then have t: "threadFunc example_engine no_views_tick =
       (example_engine,
        [Log LOG_TEST ''No attached dependencies'',
         Log LOG_TRACE ''Reschedule processing thread in {} ms'', ScheduleAfter 1000])"
    by (simp only: e r)
  have g1: "getDependencies [] = 0"
    using threadFunc_skips_without_dependencies [of "[]" example_engine example_tick]
    by simp
  have g2: "getDependencies
      [(''db.mv'', Some (StorageMaterializedView None)), (''db.wv'', Some StorageOther)] = 0"
    using threadFunc_skips_without_dependencies
        [of "[(''db.mv'', Some (StorageMaterializedView None)), (''db.wv'', Some StorageOther)]"
            example_engine example_tick]
    by simp
  have g3: "getDependencies [(''db.mv'', None)] = 0"
    using threadFunc_skips_without_dependencies [of "[(''db.mv'', None)]" example_engine example_tick]
    by simp
  have g4: "getDependencies
      [(''db.mv'', Some (StorageMaterializedView (Some ''db.t''))), (''db.wv'', Some StorageOther)] = 2"
    using threadFunc_skips_without_dependencies
        [of "[(''db.mv'', Some (StorageMaterializedView (Some ''db.t''))), (''db.wv'', Some StorageOther)]"
            example_engine example_tick]
    by simp
  have d: "snd (threadFunc (example_engine\<lparr>shutdown_called := True\<rparr>) example_tick) = []"
    using n(2) threadFunc_skips_without_dependencies
        [of "[]" "example_engine\<lparr>shutdown_called := True\<rparr>" example_tick]
    by simp
  from n g1 g2 g3 g4 t d show ?thesis
    by simp
qed

lemma commit_fail_point:
  assumes "fail_commit cenv" and "gather_requests sources \<noteq> []"
  shows "snd (commit ap cenv ok rows sources msg) =
      Inl (Exception UNKNOWN_EXCEPTION ''Failed to commit processed files'' [])"
    and "\<not> list_ex is_TryMulti (fst (commit ap cenv ok rows sources msg))"
  using assms by (auto simp: commit_def Let_def list_ex_iff)

lemma commit_never_schedules:
  "\<not> list_ex is_ScheduleAfter (fst (commit ap cenv ok rows sources msg))"
  by (auto simp: commit_def Let_def list_ex_iff)

lemma streamToViews_loop_never_schedules:
  "\<not> list_ex is_ScheduleAfter (fst (streamToViews_loop a t its acc))"
proof (induction its arbitrary: acc)
  case Nil
  show ?case by simp
next
  case (Cons it its)
  have c: "\<And>ok msg. \<not> list_ex is_ScheduleAfter
      (fst (commit a (it_commit_env it) ok (unat (it_rows it)) (createSources t it) msg))"
    by (rule commit_never_schedules)
  show ?case
  proof (cases "it_pipeline_exception it")
    case None
    with c [of True "[]"] Cons.IH [of "acc + it_rows it"] show ?thesis
      by (auto simp: Let_def list_ex_iff split: prod.splits sum.splits)
  next
    case (Some e)
    with c [of False "getCurrentExceptionMessage e"] show ?thesis
      by (auto simp: Let_def list_ex_iff split: prod.splits sum.splits)
  qed
qed

lemma streamToViews_never_schedules:
  "\<not> list_ex is_ScheduleAfter (fst (streamToViews st env))"
  using streamToViews_loop_never_schedules
    [of "after_processing (getTableMetadata st)" "processing_threads_num (getTableMetadata st)"
        "iterations env" 0]
  by (auto simp: streamToViews_def list_ex_iff split: prod.splits sum.splits)

lemma streamToViews_fail_point:
  assumes "table_exists senv" and "iterations senv = it # its"
    and "fail_commit (it_commit_env it)"
    and "gather_requests (createSources (processing_threads_num (getTableMetadata st)) it) \<noteq> []"
  shows "snd (streamToViews st senv) =
      Inl (Exception UNKNOWN_EXCEPTION ''Failed to commit processed files'' [])"
proof -
  let ?sources = "createSources (processing_threads_num (getTableMetadata st)) it"
  let ?action = "after_processing (getTableMetadata st)"
  have c: "\<And>ok msg. snd (commit ?action (it_commit_env it) ok (unat (it_rows it)) ?sources msg) =
      Inl (Exception UNKNOWN_EXCEPTION ''Failed to commit processed files'' [])"
    by (rule commit_fail_point(1) [OF assms(3,4)])
  have "snd (streamToViews_loop ?action (processing_threads_num (getTableMetadata st)) (it # its) 0) =
      Inl (Exception UNKNOWN_EXCEPTION ''Failed to commit processed files'' [])"
  proof (cases "it_pipeline_exception it")
    case None
    with c [of True "[]"] show ?thesis
      by (auto simp: Let_def split: prod.splits sum.splits)
  next
    case (Some e)
    with c [of False "getCurrentExceptionMessage e"] show ?thesis
      by (auto simp: Let_def split: prod.splits sum.splits)
  qed
  with assms(1,2) show ?thesis
    by (auto simp: streamToViews_def split: prod.splits sum.splits)
qed

text \<open>
  Claim C5. With the fail point \<^verbatim>\<open>object_storage_queue_fail_commit\<close> enabled, a \<open>commit\<close> with
  non-empty requests throws \<open>UNKNOWN_EXCEPTION\<close> and issues no coordinator transaction, and
  so does the streaming cycle in whose first turn it is called. An exception that escapes
  \<open>streamToViews\<close> (or \<^verbatim>\<open>registerIfNot\<close>) is caught by the background task: the tick logs
  it, leaves the reschedule interval as it was, and, unless the table is shut down, schedules
  the task again after that interval; a table shut down meanwhile is not scheduled.
\<close>

theorem fail_commit_caught_and_rescheduled:
  "(fail_commit cenv \<and> gather_requests sources \<noteq> [] \<longrightarrow>
      snd (commit ap cenv ok rows sources msg) =
        Inl (Exception UNKNOWN_EXCEPTION ''Failed to commit processed files'' [])
      \<and> \<not> list_ex is_TryMulti (fst (commit ap cenv ok rows sources msg)))
   \<and> (table_exists senv \<and> iterations senv = it # its \<and> fail_commit (it_commit_env it)
        \<and> gather_requests (createSources (processing_threads_num (getTableMetadata st)) it) \<noteq> [] \<longrightarrow>
      snd (streamToViews st senv) =
        Inl (Exception UNKNOWN_EXCEPTION ''Failed to commit processed files'' []))
   \<and> (\<not> shutdown_called st \<and> getDependencies (dependent_views env) \<noteq> 0
        \<and> (registerIfNot_exception env = Some e
            \<or> registerIfNot_exception env = None \<and> snd (streamToViews st (stream_env env)) = Inl e) \<longrightarrow>
      Log LOG_ERROR (''Failed to process data: '' @ getCurrentExceptionMessage e)
        \<in> set (snd (threadFunc st env))
      \<and> reschedule_processing_interval_ms (fst (threadFunc st env))
          = reschedule_processing_interval_ms st
      \<and> (\<not> shutdown_during_tick env \<longrightarrow>
           ScheduleAfter (reschedule_processing_interval_ms st) \<in> set (snd (threadFunc st env)))
      \<and> (shutdown_during_tick env \<longrightarrow>
           \<not> list_ex is_ScheduleAfter (snd (threadFunc st env))))"
proof (intro conjI impI)
  assume "fail_commit cenv \<and> gather_requests sources \<noteq> []"
  then show "snd (commit ap cenv ok rows sources msg) =
        Inl (Exception UNKNOWN_EXCEPTION ''Failed to commit processed files'' [])"
    and "\<not> list_ex is_TryMulti (fst (commit ap cenv ok rows sources msg))"
    by (simp_all add: commit_fail_point)
next
  assume "table_exists senv \<and> iterations senv = it # its \<and> fail_commit (it_commit_env it)
        \<and> gather_requests (createSources (processing_threads_num (getTableMetadata st)) it) \<noteq> []"
  then show "snd (streamToViews st senv) =
        Inl (Exception UNKNOWN_EXCEPTION ''Failed to commit processed files'' [])"
    by (simp add: streamToViews_fail_point)
next
  assume h: "\<not> shutdown_called st \<and> getDependencies (dependent_views env) \<noteq> 0
        \<and> (registerIfNot_exception env = Some e
            \<or> registerIfNot_exception env = None \<and> snd (streamToViews st (stream_env env)) = Inl e)"
  let ?final = "(fst (stream_with_dependencies st env))\<lparr>shutdown_called := shutdown_during_tick env\<rparr>"
  have tick: "threadFunc st env =
      (?final, snd (stream_with_dependencies st env) @ reschedule ?final env)"
    using h by (simp add: threadFunc_with_dependencies)
  obtain pre where caught: "stream_with_dependencies st env =
      (st\<lparr>mv_attached := False\<rparr>,
       pre @ [Log LOG_ERROR (''Failed to process data: '' @ getCurrentExceptionMessage e)])"
    and quiet: "\<not> list_ex is_ScheduleAfter pre"
  proof (cases "registerIfNot_exception env")
    case (Some e')
    with h have "e' = e" by simp
    with Some that [of "[Log LOG_DEBUG ''Started streaming to {} attached views'', RegisterIfNot]"]
    show thesis
      by (simp add: stream_with_dependencies_not_registered)
  next
    case None
    with h have s: "snd (streamToViews st (stream_env env)) = Inl e" by simp
    from stream_with_dependencies_thrown [OF None s] streamToViews_never_schedules [of st "stream_env env"]
      that [of "[Log LOG_DEBUG ''Started streaming to {} attached views'', RegisterIfNot]
                  @ fst (streamToViews st (stream_env env))"]
    show thesis
      by simp
  qed
  show "Log LOG_ERROR (''Failed to process data: '' @ getCurrentExceptionMessage e)
        \<in> set (snd (threadFunc st env))"
    by (simp add: tick caught)
  show "reschedule_processing_interval_ms (fst (threadFunc st env))
          = reschedule_processing_interval_ms st"
    by (simp add: tick caught)
  show "ScheduleAfter (reschedule_processing_interval_ms st) \<in> set (snd (threadFunc st env))"
    if "\<not> shutdown_during_tick env"
    using that by (simp add: tick caught reschedule_def)
  show "\<not> list_ex is_ScheduleAfter (snd (threadFunc st env))"
    if "shutdown_during_tick env"
    using that quiet by (simp add: tick caught reschedule_def)
qed

theorem fail_commit_caught_and_rescheduled_witness:
  "fail_commit failing_commit_env
   \<and> gather_requests [example_source] \<noteq> []
   \<and> snd (commit KEEP failing_commit_env True 5 [example_source] []) =
       Inl (Exception UNKNOWN_EXCEPTION ''Failed to commit processed files'' [])
   \<and> \<not> list_ex is_TryMulti (fst (commit KEEP failing_commit_env True 5 [example_source] []))
   \<and> iterations (stream_env failing_tick) = [example_iteration\<lparr>it_commit_env := failing_commit_env\<rparr>]
   \<and> snd (streamToViews example_engine (stream_env failing_tick)) =
       Inl (Exception UNKNOWN_EXCEPTION ''Failed to commit processed files'' [])
   \<and> \<not> shutdown_called example_engine
   \<and> getDependencies (dependent_views failing_tick) = 1
   \<and> Log LOG_ERROR ''Failed to process data: Failed to commit processed files''
       \<in> set (snd (threadFunc example_engine failing_tick))
   \<and> reschedule_processing_interval_ms (fst (threadFunc example_engine failing_tick)) = 1000
   \<and> ScheduleAfter 1000 \<in> set (snd (threadFunc example_engine failing_tick))
   \<and> \<not> list_ex is_ScheduleAfter
       (snd (threadFunc example_engine (failing_tick\<lparr>shutdown_during_tick := True\<rparr>)))"
proof -
  let ?e = "Exception UNKNOWN_EXCEPTION ''Failed to commit processed files'' []"
  let ?stopped = "failing_tick\<lparr>shutdown_during_tick := True\<rparr>"
  let ?it = "example_iteration\<lparr>it_commit_env := failing_commit_env\<rparr>"
  have f: "fail_commit failing_commit_env"
    by (simp add: failing_commit_env_def)
  have r: "gather_requests [example_source] \<noteq> []"
    by (simp add: gather_requests_def example_source_def)
  have i: "reschedule_processing_interval_ms example_engine = 1000"
    by (simp add: example_engine_def)
  have s: "stream_env ?stopped = stream_env failing_tick"
    "dependent_views ?stopped = dependent_views failing_tick"
    "registerIfNot_exception ?stopped = None"
    "shutdown_during_tick ?stopped"
    by (simp_all add: failing_tick_def example_tick_def)
  have t: "table_exists (stream_env failing_tick)"
    "iterations (stream_env failing_tick) = [?it]"
    "fail_commit (it_commit_env ?it)"
    "gather_requests (createSources (processing_threads_num (getTableMetadata example_engine)) ?it) \<noteq> []"
    by (simp_all add: failing_tick_def example_tick_def failing_commit_env_def
        gather_requests_def createSources_def example_iteration_def getTableMetadata_def
        example_engine_def example_table_metadata_def upt_rec)
  note running = fail_commit_caught_and_rescheduled
      [of failing_commit_env "[example_source]" KEEP True 5 "[]"
          "stream_env failing_tick" ?it "[]" example_engine failing_tick ?e]
  note stopped = fail_commit_caught_and_rescheduled
      [of failing_commit_env "[example_source]" KEEP True 5 "[]"
          "stream_env failing_tick" ?it "[]" example_engine ?stopped ?e]
  from running f r
  have a: "snd (commit KEEP failing_commit_env True 5 [example_source] []) = Inl ?e"
    "\<not> list_ex is_TryMulti (fst (commit KEEP failing_commit_env True 5 [example_source] []))"
    by simp_all
  from running t
  have th: "snd (streamToViews example_engine (stream_env failing_tick)) = Inl ?e"
    by simp
  from running th example_tick_facts
  have b: "Log LOG_ERROR ''Failed to process data: Failed to commit processed files''
       \<in> set (snd (threadFunc example_engine failing_tick))"
    "reschedule_processing_interval_ms (fst (threadFunc example_engine failing_tick)) = 1000"
    "ScheduleAfter 1000 \<in> set (snd (threadFunc example_engine failing_tick))"
    by (simp_all add: i)
  from stopped th example_tick_facts s
  have c: "\<not> list_ex is_ScheduleAfter (snd (threadFunc example_engine ?stopped))"
    by simp
  from f r a t(2) th b c example_tick_facts show ?thesis
    by simp
qed

section \<open>Properties of the constructor, read and getSettings\<close>

lemma construct_example: "construct glob_chars example_args = Inr example_engine"
  by (simp add: construct_def example_args_def example_engine_def normalize_path_def
      validateSettings_def example_settings_def)

lemma construct_path:
  assumes "construct g args = Inr st"
  shows "normalize_path g (arg_path args) = Inr (configuration_path st)"
  using assms
  by (auto simp: construct_def Let_def split: sum.splits option.splits)

lemma construct_path_refused:
  assumes "normalize_path g (arg_path args) = Inl e"
  shows "construct g args = Inl e"
  using assms by (simp add: construct_def Let_def)

text \<open>
  Claim C6, as the spec states it, fails on the empty path: it neither ends with \<open>/\<close> nor has
  globs, yet the constructor accepts it and replaces it by \<open>/*\<close>.
\<close>

theorem construct_empty_path_counterexample:
  "\<not> ends_with_slash [] \<and> \<not> glob_chars []
   \<and> map_sum id configuration_path (construct glob_chars (example_args\<lparr>arg_path := []\<rparr>))
       = Inr ''/*''"
  by (simp add: ends_with_slash_def glob_chars_def construct_def example_args_def
      normalize_path_def validateSettings_def example_settings_def)

text \<open>
  Claim C6, amended. A non-empty path that neither ends with \<open>/\<close> nor contains globs makes the
  construction fail with \<open>BAD_QUERY_PARAMETER\<close>. A path ending with \<open>/\<close> is normalized by
  appending \<open>*\<close>, and an empty path is replaced by \<open>/*\<close>: neither is refused by the path
  check, and an engine that is constructed holds the normalized path.
\<close>

theorem construct_path_check:
  "(arg_path args \<noteq> [] \<and> \<not> ends_with_slash (arg_path args) \<and> \<not> g (arg_path args) \<longrightarrow>
      construct g args = Inl (Exception BAD_QUERY_PARAMETER
        ''ObjectStorageQueue url must either end with '/' or contain globs'' []))
   \<and> (ends_with_slash (arg_path args) \<longrightarrow>
      normalize_path g (arg_path args) = Inr (arg_path args @ ''*'')
      \<and> (\<forall>st. construct g args = Inr st \<longrightarrow> configuration_path st = arg_path args @ ''*''))
   \<and> (arg_path args = [] \<longrightarrow>
      normalize_path g (arg_path args) = Inr ''/*''
      \<and> (\<forall>st. construct g args = Inr st \<longrightarrow> configuration_path st = ''/*''))"
proof (intro conjI impI allI)
  assume "arg_path args \<noteq> [] \<and> \<not> ends_with_slash (arg_path args) \<and> \<not> g (arg_path args)"
  then have "normalize_path g (arg_path args) = Inl (Exception BAD_QUERY_PARAMETER
        ''ObjectStorageQueue url must either end with '/' or contain globs'' [])"
    by (auto simp: normalize_path_def ends_with_slash_def)
  then show "construct g args = Inl (Exception BAD_QUERY_PARAMETER
        ''ObjectStorageQueue url must either end with '/' or contain globs'' [])"
    by (rule construct_path_refused)
next
  assume s: "ends_with_slash (arg_path args)"
  then show n: "normalize_path g (arg_path args) = Inr (arg_path args @ ''*'')"
    by (simp add: normalize_path_def ends_with_slash_def)
  fix st assume "construct g args = Inr st"
  from construct_path [OF this] n show "configuration_path st = arg_path args @ ''*''"
    by simp
next
  assume e: "arg_path args = []"
  then show n: "normalize_path g (arg_path args) = Inr ''/*''"
    by (simp add: normalize_path_def)
  fix st assume "construct g args = Inr st"
  from construct_path [OF this] n show "configuration_path st = ''/*''"
    by simp
qed

theorem construct_path_check_witness:
  "\<not> ends_with_slash ''data'' \<and> \<not> glob_chars ''data''
   \<and> thrown (construct glob_chars (example_args\<lparr>arg_path := ''data''\<rparr>)) = Some BAD_QUERY_PARAMETER
   \<and> ends_with_slash ''data/''
   \<and> construct glob_chars example_args = Inr example_engine
   \<and> configuration_path example_engine = ''data/*''
   \<and> normalize_path glob_chars [] = Inr ''/*''"
proof -
  have a: "arg_path (example_args\<lparr>arg_path := ''data''\<rparr>) = ''data''"
    and b: "arg_path example_args = ''data/''"
    and c: "arg_path (example_args\<lparr>arg_path := []\<rparr>) = []"
    by (simp_all add: example_args_def)
  have d: "\<not> ends_with_slash ''data''" "\<not> glob_chars ''data''" "ends_with_slash ''data/''"
    by (simp_all add: ends_with_slash_def glob_chars_def)
  show ?thesis
    using a b c d construct_example
      construct_path_check [of "example_args\<lparr>arg_path := ''data''\<rparr>" glob_chars]
      construct_path_check [of example_args glob_chars]
      construct_path_check [of "example_args\<lparr>arg_path := []\<rparr>" glob_chars]
    by (simp add: thrown_def)
qed

text \<open>
  Claim C7. A direct SELECT throws \<open>QUERY_NOT_ALLOWED\<close> when the session setting
  \<^verbatim>\<open>stream_like_engine_allow_direct_select\<close> is unset; when it is set, it throws
  \<open>QUERY_NOT_ALLOWED\<close> all the same while a materialized view is attached; otherwise the
  read proceeds and its step is added to the plan.
\<close>

theorem read_direct_select:
  "(\<not> allow \<longrightarrow> thrown (read st allow cols n) = Some QUERY_NOT_ALLOWED)
   \<and> (allow \<and> mv_attached st \<longrightarrow>
        read st allow cols n = Inl (Exception QUERY_NOT_ALLOWED
          ''Cannot read from {} with attached materialized views'' [ArgStr (getName st)]))
   \<and> (allow \<and> \<not> mv_attached st \<longrightarrow>
        read st allow cols n = Inr (ReadFromObjectStorageQueue cols n))"
  by (simp add: read_def thrown_def)

theorem read_direct_select_witness:
  "thrown (read example_engine False [''a''] 8192) = Some QUERY_NOT_ALLOWED
   \<and> mv_attached (example_engine\<lparr>mv_attached := True\<rparr>)
   \<and> thrown (read (example_engine\<lparr>mv_attached := True\<rparr>) True [''a''] 8192) = Some QUERY_NOT_ALLOWED
   \<and> \<not> mv_attached example_engine
   \<and> read example_engine True [''a''] 8192 = Inr (ReadFromObjectStorageQueue [''a''] 8192)"
proof -
  have m: "\<not> mv_attached example_engine" "mv_attached (example_engine\<lparr>mv_attached := True\<rparr>)"
    by (simp_all add: example_engine_def)
  show ?thesis
    using m
      read_direct_select [of False example_engine "[''a'']" 8192]
      read_direct_select [of True "example_engine\<lparr>mv_attached := True\<rparr>" "[''a'']" 8192]
      read_direct_select [of True example_engine "[''a'']" 8192]
    by (simp add: thrown_def)
qed

text \<open>
  Claim C10. \<open>getSettings\<close> rebuilds the settings from the table metadata and the engine's
  own members: the mode, the after-processing action, the retries, the number of threads,
  the last processed path, the tracked-file bounds and the buckets are those of the table
  metadata; the keeper path is \<open>zk_path\<close>; the logging flag, the three polling settings, the
  four commit thresholds, the hash-ring flag and the list batch size are the engine's
  members. Both cleanup intervals are reported as 0: the intervals the table was created
  with are kept in the metadata object, and changing them there changes nothing of what
  \<open>getSettings\<close> returns. For an engine just constructed, \<open>getSettings\<close> so gives back the
  settings it was created with for the engine's members, what \<^verbatim>\<open>syncWithKeeper\<close> returned
  for the table metadata, and 0 for the cleanup intervals.
\<close>

theorem getSettings_cleanup_intervals:
  "setting_cleanup_interval_min_ms (getSettings st) = 0
   \<and> setting_cleanup_interval_max_ms (getSettings st) = 0
   \<and> getSettings (st\<lparr>files_metadata :=
        (files_metadata st)\<lparr>cleanup_interval_min_ms := a, cleanup_interval_max_ms := b\<rparr>\<rparr>)
       = getSettings st
   \<and> setting_mode (getSettings st) = mode (getTableMetadata st)
   \<and> setting_after_processing (getSettings st) = after_processing (getTableMetadata st)
   \<and> setting_keeper_path (getSettings st) = zk_path st
   \<and> setting_loading_retries (getSettings st) = loading_retries (getTableMetadata st)
   \<and> setting_processing_threads_num (getSettings st) = processing_threads_num (getTableMetadata st)
   \<and> setting_enable_logging_to_queue_log (getSettings st)
       = (if enable_logging_to_queue_log st then 1 else 0)
   \<and> setting_last_processed_path (getSettings st) = last_processed_path (getTableMetadata st)
   \<and> setting_tracked_file_ttl_sec (getSettings st) = tracked_files_ttl_sec (getTableMetadata st)
   \<and> setting_tracked_files_limit (getSettings st) = tracked_files_limit (getTableMetadata st)
   \<and> setting_buckets (getSettings st) = buckets (getTableMetadata st)
   \<and> setting_polling_min_timeout_ms (getSettings st) = polling_min_timeout_ms st
   \<and> setting_polling_max_timeout_ms (getSettings st) = polling_max_timeout_ms st
   \<and> setting_polling_backoff_ms (getSettings st) = polling_backoff_ms st
   \<and> setting_max_processed_files_before_commit (getSettings st)
       = max_processed_files_before_commit (commit_settings st)
   \<and> setting_max_processed_rows_before_commit (getSettings st)
       = max_processed_rows_before_commit (commit_settings st)
   \<and> setting_max_processed_bytes_before_commit (getSettings st)
       = max_processed_bytes_before_commit (commit_settings st)
   \<and> setting_max_processing_time_sec_before_commit (getSettings st)
       = max_processing_time_sec_before_commit (commit_settings st)
   \<and> setting_enable_hash_ring_filtering (getSettings st) = enable_hash_ring_filtering st
   \<and> setting_list_objects_batch_size (getSettings st) = list_objects_batch_size st
   \<and> (construct g args = Inr st \<longrightarrow>
        cleanup_interval_min_ms (files_metadata st)
          = setting_cleanup_interval_min_ms (arg_queue_settings args)
        \<and> cleanup_interval_max_ms (files_metadata st)
          = setting_cleanup_interval_max_ms (arg_queue_settings args)
        \<and> arg_syncWithKeeper args = Inr (getTableMetadata st)
        \<and> setting_keeper_path (getSettings st) = arg_zk_path args
        \<and> setting_polling_min_timeout_ms (getSettings st)
          = setting_polling_min_timeout_ms (arg_queue_settings args)
        \<and> setting_polling_max_timeout_ms (getSettings st)
          = setting_polling_max_timeout_ms (arg_queue_settings args)
        \<and> setting_polling_backoff_ms (getSettings st)
          = setting_polling_backoff_ms (arg_queue_settings args)
        \<and> setting_max_processed_files_before_commit (getSettings st)
          = setting_max_processed_files_before_commit (arg_queue_settings args)
        \<and> setting_max_processed_rows_before_commit (getSettings st)
          = setting_max_processed_rows_before_commit (arg_queue_settings args)
        \<and> setting_max_processed_bytes_before_commit (getSettings st)
          = setting_max_processed_bytes_before_commit (arg_queue_settings args)
        \<and> setting_max_processing_time_sec_before_commit (getSettings st)
          = setting_max_processing_time_sec_before_commit (arg_queue_settings args)
        \<and> setting_enable_hash_ring_filtering (getSettings st)
          = setting_enable_hash_ring_filtering (arg_queue_settings args)
        \<and> setting_list_objects_batch_size (getSettings st)
          = setting_list_objects_batch_size (arg_queue_settings args)
        \<and> setting_enable_logging_to_queue_log (getSettings st)
          = (if setting_enable_logging_to_queue_log (arg_queue_settings args) \<noteq> 0 then 1 else 0))"
proof -
  have fields: "getSettings st =
    \<lparr>setting_mode = mode (getTableMetadata st),
     setting_after_processing = after_processing (getTableMetadata st),
     setting_keeper_path = zk_path st,
     setting_loading_retries = loading_retries (getTableMetadata st),
     setting_processing_threads_num = processing_threads_num (getTableMetadata st),
     setting_enable_logging_to_queue_log = (if enable_logging_to_queue_log st then 1 else 0),
     setting_last_processed_path = last_processed_path (getTableMetadata st),
     setting_tracked_file_ttl_sec = tracked_files_ttl_sec (getTableMetadata st),
     setting_tracked_files_limit = tracked_files_limit (getTableMetadata st),
     setting_cleanup_interval_min_ms = 0,
     setting_cleanup_interval_max_ms = 0,
     setting_buckets = buckets (getTableMetadata st),
     setting_polling_min_timeout_ms = polling_min_timeout_ms st,
     setting_polling_max_timeout_ms = polling_max_timeout_ms st,
     setting_polling_backoff_ms = polling_backoff_ms st,
     setting_max_processed_files_before_commit =
       max_processed_files_before_commit (commit_settings st),
     setting_max_processed_rows_before_commit =
       max_processed_rows_before_commit (commit_settings st),
     setting_max_processed_bytes_before_commit =
       max_processed_bytes_before_commit (commit_settings st),
     setting_max_processing_time_sec_before_commit =
       max_processing_time_sec_before_commit (commit_settings st),
     setting_enable_hash_ring_filtering = enable_hash_ring_filtering st,
     setting_list_objects_batch_size = list_objects_batch_size st\<rparr>"
    by (simp add: getSettings_def Let_def)
  have same: "getSettings (st\<lparr>files_metadata :=
        (files_metadata st)\<lparr>cleanup_interval_min_ms := a, cleanup_interval_max_ms := b\<rparr>\<rparr>)
       = getSettings st"
    by (simp add: getSettings_def getTableMetadata_def)
  have built: "cleanup_interval_min_ms (files_metadata st)
          = setting_cleanup_interval_min_ms (arg_queue_settings args)
        \<and> cleanup_interval_max_ms (files_metadata st)
          = setting_cleanup_interval_max_ms (arg_queue_settings args)
        \<and> arg_syncWithKeeper args = Inr (getTableMetadata st)
        \<and> zk_path st = arg_zk_path args
        \<and> polling_min_timeout_ms st = setting_polling_min_timeout_ms (arg_queue_settings args)
        \<and> polling_max_timeout_ms st = setting_polling_max_timeout_ms (arg_queue_settings args)
        \<and> polling_backoff_ms st = setting_polling_backoff_ms (arg_queue_settings args)
        \<and> max_processed_files_before_commit (commit_settings st)
          = setting_max_processed_files_before_commit (arg_queue_settings args)
        \<and> max_processed_rows_before_commit (commit_settings st)
          = setting_max_processed_rows_before_commit (arg_queue_settings args)
        \<and> max_processed_bytes_before_commit (commit_settings st)
          = setting_max_processed_bytes_before_commit (arg_queue_settings args)
        \<and> max_processing_time_sec_before_commit (commit_settings st)
          = setting_max_processing_time_sec_before_commit (arg_queue_settings args)
        \<and> enable_hash_ring_filtering st
          = setting_enable_hash_ring_filtering (arg_queue_settings args)
        \<and> list_objects_batch_size st = setting_list_objects_batch_size (arg_queue_settings args)
        \<and> enable_logging_to_queue_log st
          = (setting_enable_logging_to_queue_log (arg_queue_settings args) \<noteq> 0)"
    if "construct g args = Inr st"
    using that
    by (auto simp: construct_def Let_def getTableMetadata_def split: sum.splits option.splits)
  show ?thesis
    unfolding fields using same built
    by (simp add: fields)
qed

theorem getSettings_cleanup_intervals_witness:
  "construct glob_chars example_args = Inr example_engine
   \<and> setting_cleanup_interval_min_ms (arg_queue_settings example_args) = 10000
   \<and> setting_cleanup_interval_max_ms (arg_queue_settings example_args) = 30000
   \<and> cleanup_interval_min_ms (files_metadata example_engine) = 10000
   \<and> cleanup_interval_max_ms (files_metadata example_engine) = 30000
   \<and> setting_cleanup_interval_min_ms (getSettings example_engine) = 0
   \<and> setting_cleanup_interval_max_ms (getSettings example_engine) = 0
   \<and> setting_polling_backoff_ms (getSettings example_engine) = 1000
   \<and> setting_max_processed_files_before_commit (getSettings example_engine) = 100
   \<and> setting_keeper_path (getSettings example_engine) = ''/clickhouse/s3queue/queue/t''
   \<and> arg_syncWithKeeper example_args = Inr (getTableMetadata example_engine)"
proof -
  have s: "setting_cleanup_interval_min_ms (arg_queue_settings example_args) = 10000"
    "setting_cleanup_interval_max_ms (arg_queue_settings example_args) = 30000"
    "setting_polling_backoff_ms (arg_queue_settings example_args) = 1000"
    "setting_max_processed_files_before_commit (arg_queue_settings example_args) = 100"
    "arg_zk_path example_args = ''/clickhouse/s3queue/queue/t''"
    by (simp_all add: example_args_def example_settings_def)
  show ?thesis
    using s construct_example
      getSettings_cleanup_intervals [of example_engine 0 0 glob_chars example_args]
    by auto
qed

section \<open>Properties of alter\<close>

lemma changeable_not_prefixed:
  assumes "name \<in> set (changeable_settings queue_mode)"
  shows "\<not> starts_with_s3queue name"
  using assms
  by (auto simp: changeable_settings_def changeable_settings_unordered_mode_def
      changeable_settings_ordered_mode_def starts_with_s3queue_def split: if_splits)

lemma isSettingChangeable_eq:
  "isSettingChangeable name queue_mode =
    (if starts_with_s3queue name
     then Inl (Exception LOGICAL_ERROR ''Setting is not normalized: {}'' [ArgStr name])
     else Inr (name \<in> set (changeable_settings queue_mode)))"
  by (simp add: isSettingChangeable_def checkNormalizedSetting_def changeable_settings_def)

lemma requiresDetachedMV_eq:
  "requiresDetachedMV name =
    (if starts_with_s3queue name
     then Inl (Exception LOGICAL_ERROR ''Setting is not normalized: {}'' [ArgStr name])
     else Inr (name = ''buckets''))"
  by (simp add: requiresDetachedMV_def checkNormalizedSetting_def)

lemma buckets_not_prefixed: "\<not> starts_with_s3queue ''buckets''"
  by (simp add: starts_with_s3queue_def)

lemma get_names_from_Inr:
  assumes "get_names_from names settings = Inr r"
  shows "distinct (map fst settings) \<and> fst ` set settings \<inter> set names = {}
    \<and> set r = set names \<union> fst ` set settings \<and> (distinct names \<longrightarrow> distinct r)"
  using assms
proof (induction settings arbitrary: names)
  case Nil
  then show ?case by simp
next
  case (Cons s settings)
  from Cons.prems have n: "fst s \<notin> set names"
    and r: "get_names_from (insort (fst s) names) settings = Inr r"
    by (auto split: if_splits)
  from Cons.IH [OF r] n show ?case
    by (auto simp: set_insort_key distinct_insort)
qed

lemma get_names_from_Inl:
  assumes "\<not> distinct (map fst settings) \<or> fst ` set settings \<inter> set names \<noteq> {}"
  shows "thrown (get_names_from names settings) = Some BAD_ARGUMENTS"
  using assms
proof (induction settings arbitrary: names)
  case Nil
  then show ?case by simp
next
  case (Cons s settings)
  show ?case
  proof (cases "fst s \<in> set names")
    case True
    then show ?thesis by (simp add: thrown_def)
  next
    case False
    with Cons.prems
    have "\<not> distinct (map fst settings)
        \<or> fst ` set settings \<inter> set (insort (fst s) names) \<noteq> {}"
      by (auto simp: set_insort_key)
    from Cons.IH [OF this] False show ?thesis by simp
  qed
qed

lemma get_names_Inr:
  assumes "get_names settings = Inr r"
  shows "distinct (map fst settings) \<and> set r = fst ` set settings \<and> distinct r"
  using get_names_from_Inr [of "[]" settings r] assms by (simp add: get_names_def)

lemma get_names_Inl:
  assumes "\<not> distinct (map fst settings)"
  shows "thrown (get_names settings) = Some BAD_ARGUMENTS"
  using get_names_from_Inl [of settings "[]"] assms by (simp add: get_names_def)

lemma thrown_Some_Inl: "thrown r = Some c \<Longrightarrow> \<exists>f args. r = Inl (Exception c f args)"
  by (auto simp: thrown_def split: sum.splits exception.splits)

lemma with_reset_settings_Inr:
  assumes "with_reset_settings collab old applied = Inr ns"
  shows "\<exists>resets. ns = applied @ resets \<and> (old \<noteq> None \<longrightarrow> distinct (map fst ns))"
proof (cases old)
  case None
  with assms show ?thesis by (simp add: with_reset_settings_def)
next
  case (Some os)
  with assms obtain old_set new_set where
    o: "get_names os = Inr old_set" and n: "get_names applied = Inr new_set"
    and ns: "ns = applied @ map (\<lambda>name. (name, default_settings_get collab name))
                            (set_difference old_set new_set)"
    by (auto simp: with_reset_settings_def split: sum.splits)
  from get_names_Inr [OF o] get_names_Inr [OF n]
  have "distinct (map fst ns)"
    by (auto simp: ns set_difference_def comp_def distinct_map_filter)
  with ns Some show ?thesis by blast
qed

lemma get_names_from_cases:
  "thrown (get_names_from names settings) = Some BAD_ARGUMENTS
    \<or> (\<exists>r. get_names_from names settings = Inr r)"
  by (induction settings arbitrary: names) (auto simp: thrown_def)

lemma get_names_cases:
  "thrown (get_names settings) = Some BAD_ARGUMENTS \<or> (\<exists>r. get_names settings = Inr r)"
  by (simp add: get_names_def get_names_from_cases)

lemma with_reset_settings_duplicated:
  assumes "\<not> distinct (map fst os) \<or> \<not> distinct (map fst applied)"
  shows "thrown (with_reset_settings collab (Some os) applied) = Some BAD_ARGUMENTS"
proof -
  consider (old) "thrown (get_names os) = Some BAD_ARGUMENTS"
    | (new) r where "get_names os = Inr r" "thrown (get_names applied) = Some BAD_ARGUMENTS"
    | (none) r r' where "get_names os = Inr r" "get_names applied = Inr r'"
    using get_names_cases [of os] get_names_cases [of applied] by blast
  then show ?thesis
  proof cases
    case old
    from thrown_Some_Inl [OF this] show ?thesis
      by (auto simp: with_reset_settings_def thrown_def)
  next
    case new
    from thrown_Some_Inl [OF new(2)] new(1) show ?thesis
      by (auto simp: with_reset_settings_def thrown_def)
  next
    case none
    with get_names_Inr [of os r] get_names_Inr [of applied r'] assms show ?thesis
      by simp
  qed
qed

lemma collect_changed_settings_Inr:
  assumes "collect_changed_settings m nm d old seen xs = Inr changed"
  shows "changed = filter (setting_changed old) xs
    \<and> (\<forall>s \<in> set xs. setting_changed old s \<longrightarrow>
          fst s \<in> set (changeable_settings m) \<and> (fst s = ''buckets'' \<longrightarrow> d = 0))
    \<and> distinct (map fst xs) \<and> fst ` set xs \<inter> set seen = {}"
  using assms
proof (induction xs arbitrary: seen changed)
  case Nil
  then show ?case by simp
next
  case (Cons s xs)
  from Cons.prems have fresh: "fst s \<notin> set seen"
    by (auto split: if_splits)
  show ?case
  proof (cases "setting_changed old s")
    case False
    with Cons.prems fresh
    have "collect_changed_settings m nm d old (fst s # seen) xs = Inr changed"
      by simp
    from Cons.IH [OF this] False fresh show ?thesis by auto
  next
    case True
    with Cons.prems fresh obtain rest where
      ok: "\<not> starts_with_s3queue (fst s)" "fst s \<in> set (changeable_settings m)"
        "fst s = ''buckets'' \<longrightarrow> d = 0"
      and r: "collect_changed_settings m nm d old (fst s # seen) xs = Inr rest"
      and c: "changed = s # rest"
      by (auto simp: isSettingChangeable_eq requiresDetachedMV_eq
          split: if_splits sum.splits bool.splits)
    from Cons.IH [OF r] True fresh ok c show ?thesis by auto
  qed
qed

lemma collect_changed_settings_support_disabled:
  assumes "distinct (map fst xs)" and "fst ` set xs \<inter> set seen = {}"
    and "\<forall>s \<in> set xs. setting_changed old s \<longrightarrow> \<not> starts_with_s3queue (fst s)"
    and "\<exists>s \<in> set xs. setting_changed old s \<and> fst s \<notin> set (changeable_settings m)"
  shows "thrown (collect_changed_settings m nm d old seen xs) = Some SUPPORT_IS_DISABLED"
  using assms
proof (induction xs arbitrary: seen)
  case Nil
  then show ?case by simp
next
  case (Cons s xs)
  from Cons.prems(1,2) have fresh: "fst s \<notin> set seen"
    and d': "distinct (map fst xs)" and s': "fst ` set xs \<inter> set (fst s # seen) = {}"
    by auto
  from Cons.prems(3) have p': "\<forall>s \<in> set xs. setting_changed old s \<longrightarrow> \<not> starts_with_s3queue (fst s)"
    by simp
  show ?case
  proof (cases "setting_changed old s \<and> fst s \<notin> set (changeable_settings m)")
    case True
    with Cons.prems(3) fresh show ?thesis
      by (simp add: isSettingChangeable_eq thrown_def)
  next
    case False
    with Cons.prems(4)
    have e': "\<exists>s \<in> set xs. setting_changed old s \<and> fst s \<notin> set (changeable_settings m)"
      by auto
    note ih = Cons.IH [OF d' s' p' e']
    from thrown_Some_Inl [OF ih] obtain f args where
      "collect_changed_settings m nm d old (fst s # seen) xs = Inl (Exception SUPPORT_IS_DISABLED f args)"
      by blast
    with False fresh Cons.prems(3) show ?thesis
      by (auto simp: isSettingChangeable_eq requiresDetachedMV_eq thrown_def)
  qed
qed

lemma collect_changed_settings_passes:
  assumes "\<forall>s \<in> set pre. setting_changed old s \<longrightarrow>
      fst s \<in> set (changeable_settings m) \<and> fst s \<noteq> ''buckets''"
    and "distinct (map fst (pre @ xs))" and "fst ` set (pre @ xs) \<inter> set seen = {}"
  shows "collect_changed_settings m nm d old seen (pre @ xs) =
    (case collect_changed_settings m nm d old (rev (map fst pre) @ seen) xs of
       Inl e \<Rightarrow> Inl e
     | Inr changed \<Rightarrow> Inr (filter (setting_changed old) pre @ changed))"
  using assms
proof (induction pre arbitrary: seen)
  case Nil
  then show ?case by (simp split: sum.splits)
next
  case (Cons s pre)
  from Cons.prems(2,3) have fresh: "fst s \<notin> set seen"
    and d': "distinct (map fst (pre @ xs))"
    and s': "fst ` set (pre @ xs) \<inter> set (fst s # seen) = {}"
    by auto
  from Cons.prems(1) have p': "\<forall>s \<in> set pre. setting_changed old s \<longrightarrow>
      fst s \<in> set (changeable_settings m) \<and> fst s \<noteq> ''buckets''"
    by simp
  note ih = Cons.IH [OF p' d' s']
  from Cons.prems(1) have ok: "setting_changed old s \<longrightarrow>
      fst s \<in> set (changeable_settings m) \<and> fst s \<noteq> ''buckets'' \<and> \<not> starts_with_s3queue (fst s)"
    using changeable_not_prefixed by auto
  show ?case
    using fresh ok ih
    by (auto simp: isSettingChangeable_eq requiresDetachedMV_eq split: sum.splits)
qed

lemma collect_changed_settings_buckets:
  assumes "\<forall>s \<in> set pre. setting_changed old s \<longrightarrow> fst s \<in> set (changeable_settings m)"
    and "distinct (map fst (pre @ (''buckets'', v) # post))"
    and "setting_changed old (''buckets'', v)"
  shows "collect_changed_settings m nm d old [] (pre @ (''buckets'', v) # post) =
    (if ''buckets'' \<notin> set (changeable_settings m)
     then Inl (Exception SUPPORT_IS_DISABLED ''Changing setting {} is not allowed for {} mode of {}''
                  [ArgStr ''buckets'', ArgStr (enum_name m), ArgStr nm])
     else if d \<noteq> 0
     then Inl (Exception SUPPORT_IS_DISABLED
            ''Changing setting {} is not allowed only with detached dependencies (dependencies count: {})''
            [ArgStr ''buckets'', ArgNum d])
     else case collect_changed_settings m nm d old (''buckets'' # rev (map fst pre)) post of
            Inl e \<Rightarrow> Inl e
          | Inr changed \<Rightarrow> Inr (filter (setting_changed old) pre @ (''buckets'', v) # changed))"
proof -
  from assms(2) have nb: "\<forall>s \<in> set pre. fst s \<noteq> ''buckets''"
    by (auto simp: image_iff)
  with assms(1) have p: "\<forall>s \<in> set pre. setting_changed old s \<longrightarrow>
      fst s \<in> set (changeable_settings m) \<and> fst s \<noteq> ''buckets''"
    by simp
  from assms(2) have fresh: "''buckets'' \<notin> set (rev (map fst pre) @ [])"
    by auto
  have pass: "collect_changed_settings m nm d old [] (pre @ (''buckets'', v) # post) =
    (case collect_changed_settings m nm d old (rev (map fst pre) @ []) ((''buckets'', v) # post) of
       Inl e \<Rightarrow> Inl e
     | Inr changed \<Rightarrow> Inr (filter (setting_changed old) pre @ changed))"
    by (rule collect_changed_settings_passes [OF p assms(2)]) simp
  show ?thesis
    unfolding pass using fresh assms(3)
    by (auto simp: isSettingChangeable_eq requiresDetachedMV_eq buckets_not_prefixed
        split: sum.splits)
qed

lemma collect_changed_settings_detached_message:
  assumes "collect_changed_settings m nm d old seen xs = Inl (Exception c
      ''Changing setting {} is not allowed only with detached dependencies (dependencies count: {})'' args)"
  shows "args = [ArgStr ''buckets'', ArgNum d] \<and> d \<noteq> 0 \<and> c = SUPPORT_IS_DISABLED"
  using assms
proof (induction xs arbitrary: seen)
  case Nil
  then show ?case by simp
next
  case (Cons s xs)
  then show ?case
    by (auto simp: isSettingChangeable_eq requiresDetachedMV_eq
        split: if_splits sum.splits bool.splits)
qed

lemma alter_of_settings:
  assumes "isSettingsAlter collab commands"
    and "apply_commands collab (normalizeAlterCommands commands) (old_settings_of st) = Some applied"
  shows "alter collab view_ids commands st =
    (case with_reset_settings collab (old_settings_of st) applied of
       Inl e \<Rightarrow> (st, Some e)
     | Inr new_settings \<Rightarrow>
        (case collect_changed_settings (mode (getTableMetadata st)) (getName st)
                (getDependencies view_ids) (old_settings_of st) [] new_settings of
           Inl e \<Rightarrow> (st, Some e)
         | Inr changed_settings \<Rightarrow>
            (case alterSettings collab changed_settings (getTableMetadata st) of
               Inl e \<Rightarrow> (st, Some e)
             | Inr tm \<Rightarrow>
                (case apply_local_changes collab changed_settings
                        (st\<lparr>files_metadata := (files_metadata st)\<lparr>table_metadata := tm\<rparr>\<rparr>) of
                   (st', Some e) \<Rightarrow> (st', Some e)
                 | (st', None) \<Rightarrow> (st'\<lparr>settings_changes := Some new_settings\<rparr>, None)))))"
  using assms by (simp add: alter_def Let_def)

lemma alter_refused_by_names:
  assumes "isSettingsAlter collab commands"
    and "apply_commands collab (normalizeAlterCommands commands) (old_settings_of st) = Some applied"
    and "with_reset_settings collab (old_settings_of st) applied = Inl e"
  shows "alter collab view_ids commands st = (st, Some e)"
  by (simp add: alter_of_settings [OF assms(1,2)] assms(3))

lemma alter_refused_by_loop:
  assumes "isSettingsAlter collab commands"
    and "apply_commands collab (normalizeAlterCommands commands) (old_settings_of st) = Some applied"
    and "with_reset_settings collab (old_settings_of st) applied = Inr ns"
    and "collect_changed_settings (mode (getTableMetadata st)) (getName st)
           (getDependencies view_ids) (old_settings_of st) [] ns = Inl e"
  shows "alter collab view_ids commands st = (st, Some e)"
  by (simp add: alter_of_settings [OF assms(1,2)] assms(3,4))

lemma alter_succeeded:
  assumes "isSettingsAlter collab commands"
    and "apply_commands collab (normalizeAlterCommands commands) (old_settings_of st) = Some applied"
    and "snd (alter collab view_ids commands st) = None"
  shows "\<exists>ns changed. with_reset_settings collab (old_settings_of st) applied = Inr ns
    \<and> collect_changed_settings (mode (getTableMetadata st)) (getName st)
         (getDependencies view_ids) (old_settings_of st) [] ns = Inr changed
    \<and> settings_changes (fst (alter collab view_ids commands st)) = Some ns"
  using assms(3) unfolding alter_of_settings [OF assms(1,2)]
  by (auto split: sum.splits prod.splits option.splits)

lemma get_names_from_distinct:
  assumes "distinct (map fst settings)" and "fst ` set settings \<inter> set names = {}"
  shows "\<exists>r. get_names_from names settings = Inr r"
  using assms
proof (induction settings arbitrary: names)
  case Nil
  show ?case by simp
next
  case (Cons s settings)
  from Cons.prems have "fst s \<notin> set names" and "distinct (map fst settings)"
    and "fst ` set settings \<inter> set (insort (fst s) names) = {}"
    by (auto simp: set_insort_key)
  with Cons.IH [of "insort (fst s) names"] show ?case by simp
qed

lemma with_reset_settings_distinct:
  assumes "\<forall>os. old = Some os \<longrightarrow> distinct (map fst os)" and "distinct (map fst applied)"
  shows "\<exists>ns. with_reset_settings collab old applied = Inr ns \<and> distinct (map fst ns)"
proof (cases old)
  case None
  with assms(2) show ?thesis by (simp add: with_reset_settings_def)
next
  case (Some os)
  with assms(1) have "distinct (map fst os)" by simp
  from get_names_from_distinct [OF this, of "[]"] get_names_from_distinct [OF assms(2), of "[]"]
  obtain r r' where "get_names os = Inr r" and "get_names applied = Inr r'"
    by (auto simp: get_names_def)
  then obtain ns where w: "with_reset_settings collab old applied = Inr ns"
    by (simp add: with_reset_settings_def Some)
  from with_reset_settings_Inr [OF w] Some w show ?thesis by simp
qed

lemma collect_changed_settings_no_duplicate:
  assumes "distinct (map fst xs)" and "fst ` set xs \<inter> set seen = {}"
  shows "thrown (collect_changed_settings m nm d old seen xs) \<noteq> Some BAD_ARGUMENTS"
  using assms
proof (induction xs arbitrary: seen)
  case Nil
  show ?case by (simp add: thrown_def)
next
  case (Cons s xs)
  from Cons.prems have fresh: "fst s \<notin> set seen"
    and "distinct (map fst xs)" and "fst ` set xs \<inter> set (fst s # seen) = {}"
    by auto
  from Cons.IH [OF this(2,3)]
  have ih: "thrown (collect_changed_settings m nm d old (fst s # seen) xs) \<noteq> Some BAD_ARGUMENTS" .
  show ?case
  proof (cases "collect_changed_settings m nm d old (fst s # seen) xs")
    case (Inl e)
    with ih fresh show ?thesis
      by (auto simp: isSettingChangeable_eq requiresDetachedMV_eq thrown_def
          split: bool.splits if_splits)
  next
    case (Inr changed)
    with fresh show ?thesis
      by (auto simp: isSettingChangeable_eq requiresDetachedMV_eq thrown_def
          split: bool.splits if_splits)
  qed
qed

lemma alter_duplicated_names:
  assumes "isSettingsAlter collab commands"
    and "apply_commands collab (normalizeAlterCommands commands) (old_settings_of st) = Some applied"
    and "old_settings_of st = Some os"
    and "\<not> distinct (map fst os) \<or> \<not> distinct (map fst applied)"
  shows "fst (alter collab view_ids commands st) = st
    \<and> alter_thrown (alter collab view_ids commands st) = Some BAD_ARGUMENTS"
proof -
  from thrown_Some_Inl [OF with_reset_settings_duplicated [OF assms(4), of collab]]
  obtain f args where
    "with_reset_settings collab (Some os) applied = Inl (Exception BAD_ARGUMENTS f args)"
    by blast
  with assms(3)
  have "with_reset_settings collab (old_settings_of st) applied = Inl (Exception BAD_ARGUMENTS f args)"
    by simp
  from alter_refused_by_names [OF assms(1,2) this] show ?thesis
    by (simp add: alter_thrown_def)
qed

lemma modify_setting_names:
  "set (map fst (modify_setting change settings)) = insert (fst change) (set (map fst settings))"
  by (induction settings) auto

lemma modify_setting_distinct:
  "distinct (map fst settings) \<Longrightarrow> distinct (map fst (modify_setting change settings))"
proof (induction settings)
  case Nil
  show ?case by simp
next
  case (Cons s settings)
  then show ?case
    using modify_setting_names [of change settings] by (force simp: image_iff)
qed

lemma reset_setting_names:
  "set (map fst (reset_setting name settings)) \<subseteq> set (map fst settings)"
  by (induction settings) auto

lemma reset_setting_distinct:
  "distinct (map fst settings) \<Longrightarrow> distinct (map fst (reset_setting name settings))"
proof (induction settings)
  case Nil
  show ?case by simp
next
  case (Cons s settings)
  then show ?case
    using reset_setting_names [of name settings] by auto
qed

lemma fold_modify_setting_distinct:
  "distinct (map fst settings) \<Longrightarrow> distinct (map fst (fold modify_setting changes settings))"
  by (induction changes arbitrary: settings) (simp_all add: modify_setting_distinct)

lemma fold_reset_setting_distinct:
  "distinct (map fst settings) \<Longrightarrow> distinct (map fst (fold reset_setting names settings))"
  by (induction names arbitrary: settings) (simp_all add: reset_setting_distinct)

lemma example_apply_command_distinct:
  "distinct (map fst settings) \<Longrightarrow> distinct (map fst (example_apply_command command settings))"
  by (cases "command_type command")
     (simp_all add: fold_modify_setting_distinct fold_reset_setting_distinct)

lemma fold_example_apply_command_distinct:
  "distinct (map fst settings) \<Longrightarrow>
    distinct (map fst (fold example_apply_command commands settings))"
proof (induction commands arbitrary: settings)
  case Nil
  then show ?case by simp
next
  case (Cons command commands)
  from Cons.IH [OF example_apply_command_distinct [OF Cons.prems, of command]]
  show ?case by simp
qed

lemma normalizeSetting_prefixed: "normalizeSetting (''s3queue_'' @ name) = name"
  by (simp add: normalizeSetting_def starts_with_s3queue_def)

lemma normalizeAlterCommands_names:
  "map (\<lambda>command. map fst (command_settings_changes command)) (normalizeAlterCommands commands)
    = map (\<lambda>command. map (\<lambda>change. normalizeSetting (fst change))
                         (command_settings_changes command)) commands"
  by (simp add: normalizeAlterCommands_def normalize_names_def comp_def)

text \<open>
  A setting whose name still starts with \<open>s3queue_\<close> after the prefix was stripped once is
  met by \<^verbatim>\<open>checkNormalizedSetting\<close>; the last part of the theorem on the changeable settings
  leaves such names out.
\<close>

lemma alter_still_prefixed_setting:
  "normalizeSetting ''s3queue_s3queue_processing_threads_num'' = ''s3queue_processing_threads_num''
   \<and> ''s3queue_processing_threads_num'' \<notin> set changeable_settings_ordered_mode
   \<and> mode (getTableMetadata example_engine) = ORDERED
   \<and> setting_changed (old_settings_of example_engine)
        (''s3queue_processing_threads_num'', FieldUInt64 8)
   \<and> checkAlterIsPossible example_collaborators []
        [modify ''s3queue_s3queue_processing_threads_num'' (FieldUInt64 8)] example_engine = Inr ()
   \<and> snd (alter example_collaborators []
        [modify ''s3queue_s3queue_processing_threads_num'' (FieldUInt64 8)] example_engine)
       = Some (Exception LOGICAL_ERROR ''Setting is not normalized: {}''
                 [ArgStr ''s3queue_processing_threads_num''])"
  by (simp add: normalizeSetting_def starts_with_s3queue_def changeable_settings_ordered_mode_def
      getTableMetadata_def example_engine_def example_table_metadata_def setting_changed_def
      old_settings_of_def normalize_names_def checkAlterIsPossible_def alter_def
      example_collaborators_def modify_def normalizeAlterCommands_def example_apply_def
      setting_changed_in_check_def with_reset_settings_def get_names_def set_difference_def
      isSettingChangeable_def checkNormalizedSetting_def requiresDetachedMV_def
      getDependencies_def getName_def Let_def)

lemma doubled_engine_constructed:
  "construct glob_chars
     (example_args\<lparr>arg_engine_settings :=
        Some [(''mode'', FieldString ''ordered''), (''loading_retries'', FieldUInt64 10),
              (''s3queue_loading_retries'', FieldUInt64 10)]\<rparr>) = Inr doubled_engine"
  by (simp add: construct_def example_args_def doubled_engine_def example_engine_def
      normalize_path_def validateSettings_def example_settings_def)

text \<open>
  Claim C2, as the spec states it, fails on a table whose stored settings name a setting
  twice once the prefix is stripped (\<open>loading_retries\<close> and \<open>s3queue_loading_retries\<close>): an
  alter that changes \<open>processing_threads_num\<close>, which cannot be changed in ordered mode,
  passes \<^verbatim>\<open>checkAlterIsPossible\<close> and is refused by the duplicate check of \<open>alter\<close> with
  \<open>BAD_ARGUMENTS\<close>, not with \<open>SUPPORT_IS_DISABLED\<close>.
\<close>

theorem alter_unchangeable_setting_counterexample:
  "construct glob_chars
     (example_args\<lparr>arg_engine_settings :=
        Some [(''mode'', FieldString ''ordered''), (''loading_retries'', FieldUInt64 10),
              (''s3queue_loading_retries'', FieldUInt64 10)]\<rparr>) = Inr doubled_engine
   \<and> mode (getTableMetadata doubled_engine) = ORDERED
   \<and> ''processing_threads_num'' \<notin> set changeable_settings_ordered_mode
   \<and> setting_changed (old_settings_of doubled_engine) (''processing_threads_num'', FieldUInt64 8)
   \<and> checkAlterIsPossible example_collaborators []
        [modify ''processing_threads_num'' (FieldUInt64 8)] doubled_engine = Inr ()
   \<and> alter example_collaborators []
        [modify ''processing_threads_num'' (FieldUInt64 8)] doubled_engine
       = (doubled_engine,
          Some (Exception BAD_ARGUMENTS ''Setting {} is duplicated'' [ArgStr ''loading_retries'']))"
proof -
  have a: "mode (getTableMetadata doubled_engine) = ORDERED"
    "''processing_threads_num'' \<notin> set changeable_settings_ordered_mode"
    "setting_changed (old_settings_of doubled_engine) (''processing_threads_num'', FieldUInt64 8)"
    by (simp_all add: getTableMetadata_def doubled_engine_def example_engine_def
        example_table_metadata_def changeable_settings_ordered_mode_def setting_changed_def
        old_settings_of_def normalize_names_def normalizeSetting_def starts_with_s3queue_def)
  have b: "checkAlterIsPossible example_collaborators []
        [modify ''processing_threads_num'' (FieldUInt64 8)] doubled_engine = Inr ()"
    "alter example_collaborators []
        [modify ''processing_threads_num'' (FieldUInt64 8)] doubled_engine
       = (doubled_engine,
          Some (Exception BAD_ARGUMENTS ''Setting {} is duplicated'' [ArgStr ''loading_retries'']))"
    by (simp_all add: alter_def example_collaborators_def modify_def normalizeAlterCommands_def
        example_apply_def old_settings_of_def normalize_names_def normalizeSetting_def
        starts_with_s3queue_def with_reset_settings_def get_names_def
        checkAlterIsPossible_def setting_changed_in_check_def getDependencies_def
        doubled_engine_def example_engine_def Let_def)
  show ?thesis
    by (intro conjI) (rule doubled_engine_constructed a b)+
qed

text \<open>
  Claim C2, amended. The settings that can be changed are the fourteen of the unordered
  list in \<open>UNORDERED\<close> mode and the eleven of the ordered list in \<open>ORDERED\<close> mode. An alter of
  settings succeeds only if every setting whose value changes has its name in the list of
  the table's mode, so changing any other setting makes the alter fail and leaves the
  engine as it was. When the table has stored settings and a normalized name stands twice
  among them or among the new settings, the alter fails with \<open>BAD_ARGUMENTS\<close>. When the
  names \<open>alter\<close> collects pass the check for duplicates and no changed name still starts
  with \<open>s3queue_\<close>, changing a setting outside the list fails with \<open>SUPPORT_IS_DISABLED\<close>.
\<close>

theorem alter_changeable_settings:
  assumes "isSettingsAlter collab commands"
    and "apply_commands collab (normalizeAlterCommands commands) (old_settings_of st) = Some applied"
  shows "changeable_settings UNORDERED =
      [''processing_threads_num'', ''loading_retries'', ''after_processing'',
       ''tracked_files_limit'', ''tracked_file_ttl_sec'', ''polling_min_timeout_ms'',
       ''polling_max_timeout_ms'', ''polling_backoff_ms'', ''max_processed_files_before_commit'',
       ''max_processed_rows_before_commit'', ''max_processed_bytes_before_commit'',
       ''max_processing_time_sec_before_commit'', ''enable_hash_ring_filtering'',
       ''list_objects_batch_size'']
    \<and> changeable_settings ORDERED =
      [''loading_retries'', ''after_processing'', ''polling_min_timeout_ms'',
       ''polling_max_timeout_ms'', ''polling_backoff_ms'', ''max_processed_files_before_commit'',
       ''max_processed_rows_before_commit'', ''max_processed_bytes_before_commit'',
       ''max_processing_time_sec_before_commit'', ''buckets'', ''list_objects_batch_size'']
    \<and> (snd (alter collab view_ids commands st) = None \<longrightarrow>
         (\<exists>ns. settings_changes (fst (alter collab view_ids commands st)) = Some ns
            \<and> set applied \<subseteq> set ns
            \<and> (\<forall>s \<in> set ns. setting_changed (old_settings_of st) s \<longrightarrow>
                  fst s \<in> set (changeable_settings (mode (getTableMetadata st))))))
    \<and> ((\<exists>s \<in> set applied. setting_changed (old_settings_of st) s
            \<and> fst s \<notin> set (changeable_settings (mode (getTableMetadata st)))) \<longrightarrow>
         fst (alter collab view_ids commands st) = st
         \<and> snd (alter collab view_ids commands st) \<noteq> None)
    \<and> (with_reset_settings collab (old_settings_of st) applied = Inr new_settings
         \<and> distinct (map fst new_settings)
         \<and> (\<forall>s \<in> set new_settings. setting_changed (old_settings_of st) s \<longrightarrow>
               \<not> starts_with_s3queue (fst s))
         \<and> (\<exists>s \<in> set new_settings. setting_changed (old_settings_of st) s
               \<and> fst s \<notin> set (changeable_settings (mode (getTableMetadata st)))) \<longrightarrow>
         fst (alter collab view_ids commands st) = st
         \<and> alter_thrown (alter collab view_ids commands st) = Some SUPPORT_IS_DISABLED)
    \<and> (old_settings_of st = Some os
         \<and> (\<not> distinct (map fst os) \<or> \<not> distinct (map fst applied)) \<longrightarrow>
         fst (alter collab view_ids commands st) = st
         \<and> alter_thrown (alter collab view_ids commands st) = Some BAD_ARGUMENTS)"
proof (intro conjI impI)
  show "changeable_settings UNORDERED =
      [''processing_threads_num'', ''loading_retries'', ''after_processing'',
       ''tracked_files_limit'', ''tracked_file_ttl_sec'', ''polling_min_timeout_ms'',
       ''polling_max_timeout_ms'', ''polling_backoff_ms'', ''max_processed_files_before_commit'',
       ''max_processed_rows_before_commit'', ''max_processed_bytes_before_commit'',
       ''max_processing_time_sec_before_commit'', ''enable_hash_ring_filtering'',
       ''list_objects_batch_size'']"
    by (simp add: changeable_settings_def changeable_settings_unordered_mode_def)
  show "changeable_settings ORDERED =
      [''loading_retries'', ''after_processing'', ''polling_min_timeout_ms'',
       ''polling_max_timeout_ms'', ''polling_backoff_ms'', ''max_processed_files_before_commit'',
       ''max_processed_rows_before_commit'', ''max_processed_bytes_before_commit'',
       ''max_processing_time_sec_before_commit'', ''buckets'', ''list_objects_batch_size'']"
    by (simp add: changeable_settings_def changeable_settings_ordered_mode_def)
next
  assume "snd (alter collab view_ids commands st) = None"
  from alter_succeeded [OF assms this] obtain ns changed where
    w: "with_reset_settings collab (old_settings_of st) applied = Inr ns"
    and c: "collect_changed_settings (mode (getTableMetadata st)) (getName st)
         (getDependencies view_ids) (old_settings_of st) [] ns = Inr changed"
    and s: "settings_changes (fst (alter collab view_ids commands st)) = Some ns"
    by blast
  from with_reset_settings_Inr [OF w] have "set applied \<subseteq> set ns" by auto
  with collect_changed_settings_Inr [OF c] s
  show "\<exists>ns. settings_changes (fst (alter collab view_ids commands st)) = Some ns
            \<and> set applied \<subseteq> set ns
            \<and> (\<forall>s \<in> set ns. setting_changed (old_settings_of st) s \<longrightarrow>
                  fst s \<in> set (changeable_settings (mode (getTableMetadata st))))"
    by blast
next
  assume bad: "\<exists>s \<in> set applied. setting_changed (old_settings_of st) s
            \<and> fst s \<notin> set (changeable_settings (mode (getTableMetadata st)))"
  have "\<exists>e. alter collab view_ids commands st = (st, Some e)"
  proof (cases "with_reset_settings collab (old_settings_of st) applied")
    case (Inl e)
    from alter_refused_by_names [OF assms Inl] show ?thesis by blast
  next
    case (Inr ns)
    from with_reset_settings_Inr [OF Inr] have sub: "set applied \<subseteq> set ns" by auto
    show ?thesis
    proof (cases "collect_changed_settings (mode (getTableMetadata st)) (getName st)
           (getDependencies view_ids) (old_settings_of st) [] ns")
      case (Inl e)
      from alter_refused_by_loop [OF assms Inr Inl] show ?thesis by blast
    next
      case changed: (Inr changed)
      from collect_changed_settings_Inr [OF changed] sub bad show ?thesis by blast
    qed
  qed
  then show "fst (alter collab view_ids commands st) = st"
    and "snd (alter collab view_ids commands st) \<noteq> None"
    by auto
next
  assume h: "with_reset_settings collab (old_settings_of st) applied = Inr new_settings
         \<and> distinct (map fst new_settings)
         \<and> (\<forall>s \<in> set new_settings. setting_changed (old_settings_of st) s \<longrightarrow>
               \<not> starts_with_s3queue (fst s))
         \<and> (\<exists>s \<in> set new_settings. setting_changed (old_settings_of st) s
               \<and> fst s \<notin> set (changeable_settings (mode (getTableMetadata st))))"
  then have "thrown (collect_changed_settings (mode (getTableMetadata st)) (getName st)
      (getDependencies view_ids) (old_settings_of st) [] new_settings) = Some SUPPORT_IS_DISABLED"
    by (intro collect_changed_settings_support_disabled) simp_all
  from thrown_Some_Inl [OF this] obtain f args where
    "collect_changed_settings (mode (getTableMetadata st)) (getName st)
      (getDependencies view_ids) (old_settings_of st) [] new_settings
     = Inl (Exception SUPPORT_IS_DISABLED f args)"
    by blast
  with h have a: "alter collab view_ids commands st = (st, Some (Exception SUPPORT_IS_DISABLED f args))"
    by (intro alter_refused_by_loop [OF assms]) simp_all
  show "fst (alter collab view_ids commands st) = st"
    by (simp add: a)
  show "alter_thrown (alter collab view_ids commands st) = Some SUPPORT_IS_DISABLED"
    by (simp add: a alter_thrown_def)
next
  assume "old_settings_of st = Some os
         \<and> (\<not> distinct (map fst os) \<or> \<not> distinct (map fst applied))"
  then have d: "fst (alter collab view_ids commands st) = st
    \<and> alter_thrown (alter collab view_ids commands st) = Some BAD_ARGUMENTS"
    using alter_duplicated_names [OF assms] by blast
  from d show "fst (alter collab view_ids commands st) = st" by simp
  from d show "alter_thrown (alter collab view_ids commands st) = Some BAD_ARGUMENTS" by simp
qed

lemma example_alter_facts:
  "isSettingsAlter example_collaborators [modify name v]"
  "old_settings_of example_engine = Some [(''mode'', FieldString ''ordered''), (''buckets'', FieldUInt64 4)]"
  "mode (getTableMetadata example_engine) = ORDERED"
  "getName example_engine = ''S3Queue''"
  by (simp_all add: example_collaborators_def modify_def old_settings_of_def example_engine_def
      normalize_names_def normalizeSetting_def starts_with_s3queue_def getTableMetadata_def
      example_table_metadata_def getName_def)

lemma example_apply_backoff:
  "apply_commands example_collaborators
      (normalizeAlterCommands [modify ''polling_backoff_ms'' (FieldUInt64 500)])
      (Some [(''mode'', FieldString ''ordered''), (''buckets'', FieldUInt64 4)])
    = Some [(''mode'', FieldString ''ordered''), (''buckets'', FieldUInt64 4),
            (''polling_backoff_ms'', FieldUInt64 500)]"
  by (simp add: example_collaborators_def modify_def normalizeAlterCommands_def example_apply_def
      normalize_names_def normalizeSetting_def starts_with_s3queue_def)

lemma example_apply_threads:
  "apply_commands example_collaborators
      (normalizeAlterCommands [modify ''processing_threads_num'' (FieldUInt64 8)])
      (Some [(''mode'', FieldString ''ordered''), (''buckets'', FieldUInt64 4)])
    = Some [(''mode'', FieldString ''ordered''), (''buckets'', FieldUInt64 4),
            (''processing_threads_num'', FieldUInt64 8)]"
  by (simp add: example_collaborators_def modify_def normalizeAlterCommands_def example_apply_def
      normalize_names_def normalizeSetting_def starts_with_s3queue_def)

lemma example_apply_buckets:
  "apply_commands example_collaborators
      (normalizeAlterCommands [modify ''buckets'' (FieldUInt64 8)])
      (Some [(''mode'', FieldString ''ordered''), (''buckets'', FieldUInt64 4)])
    = Some [(''mode'', FieldString ''ordered''), (''buckets'', FieldUInt64 8)]"
  by (simp add: example_collaborators_def modify_def normalizeAlterCommands_def example_apply_def
      normalize_names_def normalizeSetting_def starts_with_s3queue_def)

lemma example_with_reset:
  "with_reset_settings example_collaborators
      (Some [(''mode'', FieldString ''ordered''), (''buckets'', FieldUInt64 4)])
      [(''mode'', FieldString ''ordered''), (''buckets'', FieldUInt64 4), (name, v)]
    = (if name = ''mode'' \<or> name = ''buckets''
       then Inl (Exception BAD_ARGUMENTS ''Setting {} is duplicated'' [ArgStr name])
       else Inr [(''mode'', FieldString ''ordered''), (''buckets'', FieldUInt64 4), (name, v)])"
  by (auto simp: with_reset_settings_def get_names_def set_difference_def set_insort_key)

lemma doubled_old_settings:
  "old_settings_of doubled_engine =
     Some [(''mode'', FieldString ''ordered''), (''loading_retries'', FieldUInt64 10),
           (''loading_retries'', FieldUInt64 10)]"
  by (simp add: old_settings_of_def doubled_engine_def example_engine_def normalize_names_def
      normalizeSetting_def starts_with_s3queue_def)

lemma doubled_apply_backoff:
  "apply_commands example_collaborators
      (normalizeAlterCommands [modify ''polling_backoff_ms'' (FieldUInt64 500)])
      (Some [(''mode'', FieldString ''ordered''), (''loading_retries'', FieldUInt64 10),
             (''loading_retries'', FieldUInt64 10)])
    = Some [(''mode'', FieldString ''ordered''), (''loading_retries'', FieldUInt64 10),
            (''loading_retries'', FieldUInt64 10), (''polling_backoff_ms'', FieldUInt64 500)]"
  by (simp add: example_collaborators_def modify_def normalizeAlterCommands_def example_apply_def
      normalize_names_def normalizeSetting_def starts_with_s3queue_def)

lemma doubled_apply_threads:
  "apply_commands example_collaborators
      (normalizeAlterCommands [modify ''processing_threads_num'' (FieldUInt64 8)])
      (Some [(''mode'', FieldString ''ordered''), (''loading_retries'', FieldUInt64 10),
             (''loading_retries'', FieldUInt64 10)])
    = Some ([(''mode'', FieldString ''ordered''), (''loading_retries'', FieldUInt64 10),
             (''loading_retries'', FieldUInt64 10)] @ [(''processing_threads_num'', FieldUInt64 8)])"
  by (simp add: example_collaborators_def modify_def normalizeAlterCommands_def example_apply_def
      normalize_names_def normalizeSetting_def starts_with_s3queue_def)

theorem alter_changeable_settings_witness:
  "snd (alter example_collaborators []
          [modify ''polling_backoff_ms'' (FieldUInt64 500)] example_engine) = None
   \<and> settings_changes (fst (alter example_collaborators []
          [modify ''polling_backoff_ms'' (FieldUInt64 500)] example_engine))
       = Some [(''mode'', FieldString ''ordered''), (''buckets'', FieldUInt64 4),
               (''polling_backoff_ms'', FieldUInt64 500)]
   \<and> setting_changed (old_settings_of example_engine) (''processing_threads_num'', FieldUInt64 8)
   \<and> ''processing_threads_num'' \<notin> set (changeable_settings ORDERED)
   \<and> snd (alter example_collaborators []
          [modify ''processing_threads_num'' (FieldUInt64 8)] example_engine) \<noteq> None
   \<and> alter_thrown (alter example_collaborators []
          [modify ''processing_threads_num'' (FieldUInt64 8)] example_engine)
       = Some SUPPORT_IS_DISABLED
   \<and> old_settings_of doubled_engine =
       Some [(''mode'', FieldString ''ordered''), (''loading_retries'', FieldUInt64 10),
             (''loading_retries'', FieldUInt64 10)]
   \<and> alter_thrown (alter example_collaborators []
          [modify ''processing_threads_num'' (FieldUInt64 8)] doubled_engine)
       = Some BAD_ARGUMENTS"
proof -
  let ?old = "Some [(''mode'', FieldString ''ordered''), (''buckets'', FieldUInt64 4)]"
  let ?doubled = "[(''mode'', FieldString ''ordered''), (''loading_retries'', FieldUInt64 10),
             (''loading_retries'', FieldUInt64 10)]"
  let ?backoff = "[(''mode'', FieldString ''ordered''), (''buckets'', FieldUInt64 4),
            (''polling_backoff_ms'', FieldUInt64 500)]"
  let ?threads = "[(''mode'', FieldString ''ordered''), (''buckets'', FieldUInt64 4),
            (''processing_threads_num'', FieldUInt64 8)]"
  have ok: "alter example_collaborators [] [modify ''polling_backoff_ms'' (FieldUInt64 500)]
      example_engine =
     (example_engine\<lparr>polling_backoff_ms := 500, settings_changes := Some ?backoff\<rparr>, None)"
    by (simp add: alter_def example_collaborators_def modify_def normalizeAlterCommands_def
        example_apply_def old_settings_of_def normalize_names_def normalizeSetting_def
        starts_with_s3queue_def with_reset_settings_def get_names_def set_difference_def
        setting_changed_def isSettingChangeable_def checkNormalizedSetting_def
        requiresDetachedMV_def changeable_settings_ordered_mode_def getDependencies_def
        getName_def getTableMetadata_def apply_local_change_def example_engine_def
        example_table_metadata_def Let_def)
  have ch: "setting_changed ?old (''processing_threads_num'', FieldUInt64 8)"
    "\<not> setting_changed ?old (''mode'', FieldString ''ordered'')"
    "\<not> setting_changed ?old (''buckets'', FieldUInt64 4)"
    by (simp_all add: setting_changed_def)
  have nc: "''processing_threads_num'' \<notin> set (changeable_settings ORDERED)"
    "\<not> starts_with_s3queue ''processing_threads_num''"
    by (simp_all add: changeable_settings_def changeable_settings_ordered_mode_def
        starts_with_s3queue_def)
  note thm_ok = alter_changeable_settings
      [of example_collaborators "[modify ''polling_backoff_ms'' (FieldUInt64 500)]"
          example_engine ?backoff "[]" ?backoff,
       OF example_alter_facts(1) example_apply_backoff [folded example_alter_facts(2)]]
  note thm_bad = alter_changeable_settings
      [of example_collaborators "[modify ''processing_threads_num'' (FieldUInt64 8)]"
          example_engine ?threads "[]" ?threads,
       OF example_alter_facts(1) example_apply_threads [folded example_alter_facts(2)]]
  from thm_bad ch nc
  have bad: "snd (alter example_collaborators []
          [modify ''processing_threads_num'' (FieldUInt64 8)] example_engine) \<noteq> None"
    "alter_thrown (alter example_collaborators []
          [modify ''processing_threads_num'' (FieldUInt64 8)] example_engine)
       = Some SUPPORT_IS_DISABLED"
    by (simp_all add: example_alter_facts example_with_reset)
  have dup: "alter_thrown (alter example_collaborators []
          [modify ''processing_threads_num'' (FieldUInt64 8)] doubled_engine)
       = Some BAD_ARGUMENTS"
    using alter_changeable_settings
      [of example_collaborators "[modify ''processing_threads_num'' (FieldUInt64 8)]"
          doubled_engine "?doubled @ [(''processing_threads_num'', FieldUInt64 8)]" "[]" "[]"
          ?doubled,
       OF example_alter_facts(1) doubled_apply_threads [folded doubled_old_settings]]
      doubled_old_settings
    by simp
  from thm_ok ok ch nc bad dup doubled_old_settings show ?thesis
    by (simp add: example_alter_facts)
qed

text \<open>
  Claim C8, as the spec states it, fails on a table in unordered mode: with a dependent view
  attached, an alter that changes \<open>buckets\<close> is refused with \<open>SUPPORT_IS_DISABLED\<close> by the
  check of the mode, which comes first, and its message names the setting, the mode and the
  engine, not the dependency count.
\<close>

theorem alter_buckets_unordered_counterexample:
  "mode (getTableMetadata unordered_engine) = UNORDERED
   \<and> getDependencies attached_view = 1
   \<and> setting_changed (old_settings_of unordered_engine) (''buckets'', FieldUInt64 8)
   \<and> snd (alter example_collaborators attached_view
            [modify ''buckets'' (FieldUInt64 8)] unordered_engine)
       = Some (Exception SUPPORT_IS_DISABLED ''Changing setting {} is not allowed for {} mode of {}''
                 [ArgStr ''buckets'', ArgStr ''UNORDERED'', ArgStr ''S3Queue''])"
  by (simp add: alter_def example_collaborators_def modify_def normalizeAlterCommands_def
      example_apply_def old_settings_of_def normalize_names_def normalizeSetting_def
      starts_with_s3queue_def with_reset_settings_def get_names_def set_difference_def
      setting_changed_def isSettingChangeable_def checkNormalizedSetting_def
      requiresDetachedMV_def changeable_settings_unordered_mode_def getDependencies_def
      attached_view_def getName_def getTableMetadata_def unordered_engine_def example_engine_def
      example_table_metadata_def Let_def)

text \<open>
  Claim C8, amended. \<open>buckets\<close> is the only setting for which \<open>requiresDetachedMV\<close> holds,
  and an exception of the loop of \<open>alter\<close> with the message of the detached dependencies
  names \<open>buckets\<close> and a dependency count that is not 0. An alter that changes \<open>buckets\<close>
  while \<open>getDependencies\<close> is not 0 always fails and leaves the engine as it was, whether
  \<open>buckets\<close> is among the settings that the commands leave or is put back to its default by
  a reset, and also when the check for duplicates refuses the names before. When the names
  pass the check for duplicates and every changed setting listed before \<open>buckets\<close> can be
  changed in the table's mode, the failure is \<open>SUPPORT_IS_DISABLED\<close>: in \<open>ORDERED\<close> mode
  with the message that names the setting and the dependency count, in \<open>UNORDERED\<close> mode
  with the message that names the setting, the mode and the engine.
\<close>

theorem alter_buckets_requires_detached_views:
  assumes "isSettingsAlter collab commands"
    and "apply_commands collab (normalizeAlterCommands commands) (old_settings_of st) = Some applied"
  shows "(requiresDetachedMV name = Inr True) = (name = ''buckets'')
    \<and> (collect_changed_settings m nm d old seen xs = Inl (Exception c
          ''Changing setting {} is not allowed only with detached dependencies (dependencies count: {})''
          args) \<longrightarrow>
         args = [ArgStr ''buckets'', ArgNum d] \<and> d \<noteq> 0 \<and> c = SUPPORT_IS_DISABLED)
    \<and> ((''buckets'', v) \<in> set applied \<and> setting_changed (old_settings_of st) (''buckets'', v)
          \<and> getDependencies view_ids \<noteq> 0 \<longrightarrow>
         fst (alter collab view_ids commands st) = st
         \<and> snd (alter collab view_ids commands st) \<noteq> None)
    \<and> (with_reset_settings collab (old_settings_of st) applied = Inr (pre @ (''buckets'', v) # post)
          \<and> distinct (map fst (pre @ (''buckets'', v) # post))
          \<and> (\<forall>s \<in> set pre. setting_changed (old_settings_of st) s \<longrightarrow>
                fst s \<in> set (changeable_settings (mode (getTableMetadata st))))
          \<and> setting_changed (old_settings_of st) (''buckets'', v)
          \<and> getDependencies view_ids \<noteq> 0 \<longrightarrow>
         alter collab view_ids commands st =
           (st, Some
             (if mode (getTableMetadata st) = ORDERED
              then Exception SUPPORT_IS_DISABLED
                ''Changing setting {} is not allowed only with detached dependencies (dependencies count: {})''
                [ArgStr ''buckets'', ArgNum (getDependencies view_ids)]
              else Exception SUPPORT_IS_DISABLED
                ''Changing setting {} is not allowed for {} mode of {}''
                [ArgStr ''buckets'', ArgStr ''UNORDERED'', ArgStr (getName st)])))
    \<and> (with_reset_settings collab (old_settings_of st) applied = Inl refused \<longrightarrow>
         alter collab view_ids commands st = (st, Some refused))
    \<and> (with_reset_settings collab (old_settings_of st) applied = Inr new_settings
          \<and> (''buckets'', v) \<in> set new_settings
          \<and> setting_changed (old_settings_of st) (''buckets'', v)
          \<and> getDependencies view_ids \<noteq> 0 \<longrightarrow>
         fst (alter collab view_ids commands st) = st
         \<and> snd (alter collab view_ids commands st) \<noteq> None)"
proof (intro conjI impI)
  show "(requiresDetachedMV name = Inr True) = (name = ''buckets'')"
    by (auto simp: requiresDetachedMV_eq buckets_not_prefixed)
next
  assume "collect_changed_settings m nm d old seen xs = Inl (Exception c
      ''Changing setting {} is not allowed only with detached dependencies (dependencies count: {})''
      args)"
  from collect_changed_settings_detached_message [OF this]
  show "args = [ArgStr ''buckets'', ArgNum d]" and "d \<noteq> 0" and "c = SUPPORT_IS_DISABLED"
    by simp_all
next
  assume h: "(''buckets'', v) \<in> set applied \<and> setting_changed (old_settings_of st) (''buckets'', v)
          \<and> getDependencies view_ids \<noteq> 0"
  have "\<exists>e. alter collab view_ids commands st = (st, Some e)"
  proof (cases "with_reset_settings collab (old_settings_of st) applied")
    case (Inl e)
    from alter_refused_by_names [OF assms Inl] show ?thesis by blast
  next
    case (Inr ns)
    from with_reset_settings_Inr [OF Inr] h have b: "(''buckets'', v) \<in> set ns" by auto
    show ?thesis
    proof (cases "collect_changed_settings (mode (getTableMetadata st)) (getName st)
           (getDependencies view_ids) (old_settings_of st) [] ns")
      case (Inl e)
      from alter_refused_by_loop [OF assms Inr Inl] show ?thesis by blast
    next
      case changed: (Inr changed)
      from collect_changed_settings_Inr [OF changed] b h show ?thesis by force
    qed
  qed
  then show "fst (alter collab view_ids commands st) = st"
    and "snd (alter collab view_ids commands st) \<noteq> None"
    by auto
next
  assume h: "with_reset_settings collab (old_settings_of st) applied = Inr (pre @ (''buckets'', v) # post)
          \<and> distinct (map fst (pre @ (''buckets'', v) # post))
          \<and> (\<forall>s \<in> set pre. setting_changed (old_settings_of st) s \<longrightarrow>
                fst s \<in> set (changeable_settings (mode (getTableMetadata st))))
          \<and> setting_changed (old_settings_of st) (''buckets'', v)
          \<and> getDependencies view_ids \<noteq> 0"
  let ?e = "if mode (getTableMetadata st) = ORDERED
              then Exception SUPPORT_IS_DISABLED
                ''Changing setting {} is not allowed only with detached dependencies (dependencies count: {})''
                [ArgStr ''buckets'', ArgNum (getDependencies view_ids)]
              else Exception SUPPORT_IS_DISABLED
                ''Changing setting {} is not allowed for {} mode of {}''
                [ArgStr ''buckets'', ArgStr ''UNORDERED'', ArgStr (getName st)]"
  from h have p: "\<forall>s \<in> set pre. setting_changed (old_settings_of st) s \<longrightarrow>
                fst s \<in> set (changeable_settings (mode (getTableMetadata st)))"
    and d: "distinct (map fst (pre @ (''buckets'', v) # post))"
    and c: "setting_changed (old_settings_of st) (''buckets'', v)"
    by blast+
  have "collect_changed_settings (mode (getTableMetadata st)) (getName st)
           (getDependencies view_ids) (old_settings_of st) [] (pre @ (''buckets'', v) # post)
        = Inl ?e"
    unfolding collect_changed_settings_buckets [OF p d c] using h
    by (cases "mode (getTableMetadata st)")
       (simp_all add: changeable_settings_def changeable_settings_ordered_mode_def
          changeable_settings_unordered_mode_def)
  with h show "alter collab view_ids commands st = (st, Some ?e)"
    by (intro alter_refused_by_loop [OF assms]) simp_all
next
  assume "with_reset_settings collab (old_settings_of st) applied = Inl refused"
  from alter_refused_by_names [OF assms this]
  show "alter collab view_ids commands st = (st, Some refused)" .
next
  assume h: "with_reset_settings collab (old_settings_of st) applied = Inr new_settings
          \<and> (''buckets'', v) \<in> set new_settings
          \<and> setting_changed (old_settings_of st) (''buckets'', v)
          \<and> getDependencies view_ids \<noteq> 0"
  then have w: "with_reset_settings collab (old_settings_of st) applied = Inr new_settings"
    by simp
  have "\<exists>e. alter collab view_ids commands st = (st, Some e)"
  proof (cases "collect_changed_settings (mode (getTableMetadata st)) (getName st)
           (getDependencies view_ids) (old_settings_of st) [] new_settings")
    case (Inl e)
    from alter_refused_by_loop [OF assms w Inl] show ?thesis by blast
  next
    case changed: (Inr changed)
    from collect_changed_settings_Inr [OF changed] h show ?thesis by force
  qed
  then show "fst (alter collab view_ids commands st) = st"
    and "snd (alter collab view_ids commands st) \<noteq> None"
    by auto
qed

lemma unordered_alter_facts:
  "old_settings_of unordered_engine =
     Some [(''mode'', FieldString ''unordered''), (''buckets'', FieldUInt64 1)]"
  "mode (getTableMetadata unordered_engine) = UNORDERED"
  "getName unordered_engine = ''S3Queue''"
  "getDependencies attached_view = 1"
  by (simp_all add: old_settings_of_def unordered_engine_def example_engine_def
      normalize_names_def normalizeSetting_def starts_with_s3queue_def getTableMetadata_def
      example_table_metadata_def getName_def getDependencies_def attached_view_def)

lemma unordered_apply_buckets:
  "apply_commands example_collaborators
      (normalizeAlterCommands [modify ''buckets'' (FieldUInt64 8)])
      (Some [(''mode'', FieldString ''unordered''), (''buckets'', FieldUInt64 1)])
    = Some [(''mode'', FieldString ''unordered''), (''buckets'', FieldUInt64 8)]"
  by (simp add: example_collaborators_def modify_def normalizeAlterCommands_def example_apply_def
      normalize_names_def normalizeSetting_def starts_with_s3queue_def)

lemma with_reset_same_names:
  "with_reset_settings example_collaborators (Some [(''mode'', a), (''buckets'', b)])
      [(''mode'', a'), (''buckets'', b')] = Inr [(''mode'', a'), (''buckets'', b')]"
  by (simp add: with_reset_settings_def get_names_def set_difference_def)

theorem alter_buckets_requires_detached_views_witness:
  "requiresDetachedMV ''buckets'' = Inr True
   \<and> requiresDetachedMV ''loading_retries'' = Inr False
   \<and> getDependencies attached_view = 1
   \<and> setting_changed (old_settings_of example_engine) (''buckets'', FieldUInt64 8)
   \<and> fst (alter example_collaborators attached_view
             [modify ''buckets'' (FieldUInt64 8)] example_engine) = example_engine
   \<and> snd (alter example_collaborators attached_view
             [modify ''buckets'' (FieldUInt64 8)] example_engine)
       = Some (Exception SUPPORT_IS_DISABLED
           ''Changing setting {} is not allowed only with detached dependencies (dependencies count: {})''
           [ArgStr ''buckets'', ArgNum 1])
   \<and> alter example_collaborators attached_view [modify ''buckets'' (FieldUInt64 8)] unordered_engine
       = (unordered_engine, Some (Exception SUPPORT_IS_DISABLED
           ''Changing setting {} is not allowed for {} mode of {}''
           [ArgStr ''buckets'', ArgStr ''UNORDERED'', ArgStr ''S3Queue'']))
   \<and> collect_changed_settings ORDERED ''S3Queue'' 1
         (Some [(''mode'', FieldString ''ordered''), (''buckets'', FieldUInt64 4)]) []
         [(''mode'', FieldString ''ordered''), (''buckets'', FieldUInt64 8)]
       = Inl (Exception SUPPORT_IS_DISABLED
           ''Changing setting {} is not allowed only with detached dependencies (dependencies count: {})''
           [ArgStr ''buckets'', ArgNum 1])
   \<and> with_reset_settings example_collaborators (old_settings_of example_engine)
         [(''mode'', FieldString ''ordered''), (''processing_threads_num'', FieldUInt64 8)]
       = Inr [(''mode'', FieldString ''ordered''), (''processing_threads_num'', FieldUInt64 8),
              (''buckets'', FieldUInt64 0)]
   \<and> setting_changed (old_settings_of example_engine) (''buckets'', FieldUInt64 0)
   \<and> fst (alter example_collaborators attached_view
             [modify ''processing_threads_num'' (FieldUInt64 8), reset_command ''buckets'']
             example_engine) = example_engine
   \<and> snd (alter example_collaborators attached_view
             [modify ''processing_threads_num'' (FieldUInt64 8), reset_command ''buckets'']
             example_engine) \<noteq> None"
proof -
  let ?reset = "[(''mode'', FieldString ''ordered''), (''processing_threads_num'', FieldUInt64 8)]"
  have ra: "apply_commands example_collaborators
      (normalizeAlterCommands
         [modify ''processing_threads_num'' (FieldUInt64 8), reset_command ''buckets''])
      (old_settings_of example_engine) = Some ?reset"
    by (simp add: example_alter_facts example_collaborators_def modify_def reset_command_def
        normalizeAlterCommands_def example_apply_def normalize_names_def normalizeSetting_def
        starts_with_s3queue_def)
  have rs: "isSettingsAlter example_collaborators
      [modify ''processing_threads_num'' (FieldUInt64 8), reset_command ''buckets'']"
    by (simp add: example_collaborators_def modify_def reset_command_def)
  have rw: "with_reset_settings example_collaborators (old_settings_of example_engine) ?reset
       = Inr (?reset @ [(''buckets'', FieldUInt64 0)])"
    by (simp add: example_alter_facts with_reset_settings_def get_names_def set_difference_def
        example_collaborators_def less_eq_char_def less_char_def)
  have rc: "setting_changed (old_settings_of example_engine) (''buckets'', FieldUInt64 0)"
    by (simp add: example_alter_facts setting_changed_def)
  have rf: "fst (alter example_collaborators attached_view
             [modify ''processing_threads_num'' (FieldUInt64 8), reset_command ''buckets'']
             example_engine) = example_engine
     \<and> snd (alter example_collaborators attached_view
             [modify ''processing_threads_num'' (FieldUInt64 8), reset_command ''buckets'']
             example_engine) \<noteq> None"
    using alter_buckets_requires_detached_views
      [of example_collaborators
          "[modify ''processing_threads_num'' (FieldUInt64 8), reset_command ''buckets'']"
          example_engine ?reset _ _ _ _ _ _ _ _ _ "FieldUInt64 0" attached_view _ _ _
          "?reset @ [(''buckets'', FieldUInt64 0)]",
       OF rs ra] rw rc unordered_alter_facts(4)
    by simp
  let ?ordered = "[(''mode'', FieldString ''ordered''), (''buckets'', FieldUInt64 8)]"
  let ?unordered = "[(''mode'', FieldString ''unordered''), (''buckets'', FieldUInt64 8)]"
  let ?detached = "''Changing setting {} is not allowed only with detached dependencies (dependencies count: {})''"
  note o = alter_buckets_requires_detached_views
      [of example_collaborators "[modify ''buckets'' (FieldUInt64 8)]" example_engine ?ordered,
       OF example_alter_facts(1) example_apply_buckets [folded example_alter_facts(2)]]
  note u = alter_buckets_requires_detached_views
      [of example_collaborators "[modify ''buckets'' (FieldUInt64 8)]" unordered_engine ?unordered,
       OF example_alter_facts(1) unordered_apply_buckets [folded unordered_alter_facts(1)]]
  have r: "requiresDetachedMV ''buckets'' = Inr True"
    "requiresDetachedMV ''loading_retries'' = Inr False"
    using o [of "''buckets''"] o [of "''loading_retries''"]
    by (simp_all add: requiresDetachedMV_eq starts_with_s3queue_def)
  have c: "setting_changed (old_settings_of example_engine) (''buckets'', FieldUInt64 8)"
    "\<not> setting_changed (old_settings_of example_engine) (''mode'', FieldString ''ordered'')"
    "setting_changed (old_settings_of unordered_engine) (''buckets'', FieldUInt64 8)"
    "\<not> setting_changed (old_settings_of unordered_engine) (''mode'', FieldString ''unordered'')"
    by (simp_all add: example_alter_facts unordered_alter_facts setting_changed_def)
  have l: "collect_changed_settings ORDERED ''S3Queue'' 1
         (Some [(''mode'', FieldString ''ordered''), (''buckets'', FieldUInt64 4)]) [] ?ordered
       = Inl (Exception SUPPORT_IS_DISABLED ?detached [ArgStr ''buckets'', ArgNum 1])"
    by (simp add: setting_changed_def isSettingChangeable_eq requiresDetachedMV_eq
        starts_with_s3queue_def changeable_settings_def changeable_settings_ordered_mode_def)
  have f: "fst (alter example_collaborators attached_view
             [modify ''buckets'' (FieldUInt64 8)] example_engine) = example_engine"
    using o [of _ _ _ _ _ _ _ _ _ "FieldUInt64 8" attached_view] c
    by (simp add: unordered_alter_facts)
  have a: "alter example_collaborators attached_view [modify ''buckets'' (FieldUInt64 8)] example_engine
       = (example_engine, Some (Exception SUPPORT_IS_DISABLED ?detached
           [ArgStr ''buckets'', ArgNum 1]))"
    using o [of _ _ _ _ _ _ _ _ _ "FieldUInt64 8" attached_view
                "[(''mode'', FieldString ''ordered'')]" "[]"] c
    by (simp add: example_alter_facts unordered_alter_facts with_reset_same_names)
  have b: "alter example_collaborators attached_view [modify ''buckets'' (FieldUInt64 8)] unordered_engine
       = (unordered_engine, Some (Exception SUPPORT_IS_DISABLED
           ''Changing setting {} is not allowed for {} mode of {}''
           [ArgStr ''buckets'', ArgStr ''UNORDERED'', ArgStr ''S3Queue'']))"
    using u [of _ _ _ _ _ _ _ _ _ "FieldUInt64 8" attached_view
                "[(''mode'', FieldString ''unordered'')]" "[]"] c
    by (simp add: example_alter_facts unordered_alter_facts with_reset_same_names)
  from r c f a b l rw rc rf unordered_alter_facts(4) show ?thesis
    by simp
qed

text \<open>
  Claim C9, as the spec states it, fails twice. An alter whose \<^verbatim>\<open>MODIFY SETTING\<close> names one
  setting twice, as \<open>s3queue_polling_backoff_ms\<close> and as \<open>polling_backoff_ms\<close>, does not
  fail: both names are normalized to one, the second value overwrites the first, and the
  alter succeeds with it. And where \<open>alter\<close> does meet a name twice, here among the stored
  settings of the table, it throws \<open>BAD_ARGUMENTS\<close>, not \<open>LOGICAL_ERROR\<close>.
\<close>

theorem alter_duplicated_setting_counterexample:
  "map fst (command_settings_changes modify_both)
     = [''s3queue_polling_backoff_ms'', ''polling_backoff_ms'']
   \<and> normalizeSetting ''s3queue_polling_backoff_ms'' = ''polling_backoff_ms''
   \<and> normalizeSetting ''polling_backoff_ms'' = ''polling_backoff_ms''
   \<and> alter example_collaborators [] [modify_both] example_engine
       = (example_engine
            \<lparr>polling_backoff_ms := 600,
             settings_changes :=
               Some [(''mode'', FieldString ''ordered''), (''buckets'', FieldUInt64 4),
                     (''polling_backoff_ms'', FieldUInt64 600)]\<rparr>,
          None)
   \<and> old_settings_of doubled_engine =
       Some [(''mode'', FieldString ''ordered''), (''loading_retries'', FieldUInt64 10),
             (''loading_retries'', FieldUInt64 10)]
   \<and> alter example_collaborators [] [modify ''polling_backoff_ms'' (FieldUInt64 500)] doubled_engine
       = (doubled_engine,
          Some (Exception BAD_ARGUMENTS ''Setting {} is duplicated'' [ArgStr ''loading_retries'']))"
proof -
  have a: "map fst (command_settings_changes modify_both)
     = [''s3queue_polling_backoff_ms'', ''polling_backoff_ms'']"
    "normalizeSetting ''s3queue_polling_backoff_ms'' = ''polling_backoff_ms''"
    "normalizeSetting ''polling_backoff_ms'' = ''polling_backoff_ms''"
    by (simp_all add: modify_both_def normalizeSetting_def starts_with_s3queue_def)
  have b: "alter example_collaborators [] [modify_both] example_engine
       = (example_engine
            \<lparr>polling_backoff_ms := 600,
             settings_changes :=
               Some [(''mode'', FieldString ''ordered''), (''buckets'', FieldUInt64 4),
                     (''polling_backoff_ms'', FieldUInt64 600)]\<rparr>,
          None)"
    by (simp add: alter_def example_collaborators_def modify_both_def
        normalizeAlterCommands_def
        example_apply_def old_settings_of_def normalize_names_def normalizeSetting_def
        starts_with_s3queue_def with_reset_settings_def get_names_def set_difference_def
        setting_changed_def isSettingChangeable_def checkNormalizedSetting_def
        requiresDetachedMV_def changeable_settings_ordered_mode_def getDependencies_def
        getName_def getTableMetadata_def apply_local_change_def example_engine_def
        example_table_metadata_def Let_def)
  have c: "alter example_collaborators [] [modify ''polling_backoff_ms'' (FieldUInt64 500)] doubled_engine
       = (doubled_engine,
          Some (Exception BAD_ARGUMENTS ''Setting {} is duplicated'' [ArgStr ''loading_retries'']))"
    by (simp add: alter_def example_collaborators_def modify_def normalizeAlterCommands_def
        example_apply_def old_settings_of_def normalize_names_def normalizeSetting_def
        starts_with_s3queue_def with_reset_settings_def get_names_def
        doubled_engine_def example_engine_def Let_def)
  show ?thesis
    by (intro conjI) (rule a b c doubled_old_settings)+
qed

text \<open>
  Claim C9, amended. Naming the same setting twice in an alter does not by itself make it
  fail: \<open>normalizeAlterCommands\<close> gives every occurrence its normalized name (a name with the
  prefix gets the name without it), and when the commands are applied so that a setting
  already there is overwritten, as \<open>example_apply\<close> does, the new settings carry each name
  once whatever the commands are, provided the stored settings do, and no check of \<open>alter\<close>
  for duplicates throws. When a normalized name stands twice among the stored settings of
  the table or among the new settings that the commands leave, the alter fails and leaves
  the engine as it was; when the table has stored settings the error is \<open>BAD_ARGUMENTS\<close>
  (\<^verbatim>\<open>Setting {} is duplicated\<close>), not \<open>LOGICAL_ERROR\<close>. When every name stands once in both,
  neither the collection of the names nor the loop of \<open>alter\<close> throws \<open>BAD_ARGUMENTS\<close>.
\<close>

theorem alter_duplicated_setting:
  assumes "isSettingsAlter collab commands"
    and "apply_commands collab (normalizeAlterCommands commands) (old_settings_of st) = Some applied"
  shows "(old_settings_of st = Some os
          \<and> (\<not> distinct (map fst os) \<or> \<not> distinct (map fst applied)) \<longrightarrow>
         fst (alter collab view_ids commands st) = st
         \<and> alter_thrown (alter collab view_ids commands st) = Some BAD_ARGUMENTS)
    \<and> (\<not> distinct (map fst applied) \<longrightarrow>
         fst (alter collab view_ids commands st) = st
         \<and> snd (alter collab view_ids commands st) \<noteq> None)
    \<and> ((\<forall>os. old_settings_of st = Some os \<longrightarrow> distinct (map fst os))
          \<and> distinct (map fst applied) \<longrightarrow>
         (\<exists>ns. with_reset_settings collab (old_settings_of st) applied = Inr ns
            \<and> distinct (map fst ns)
            \<and> thrown (collect_changed_settings (mode (getTableMetadata st)) (getName st)
                 (getDependencies view_ids) (old_settings_of st) [] ns) \<noteq> Some BAD_ARGUMENTS))
    \<and> normalizeSetting (''s3queue_'' @ name) = name
    \<and> map (\<lambda>command. map fst (command_settings_changes command)) (normalizeAlterCommands commands)
        = map (\<lambda>command. map (\<lambda>change. normalizeSetting (fst change))
                             (command_settings_changes command)) commands
    \<and> (distinct (map fst stored) \<longrightarrow>
         (\<exists>left. example_apply any_commands (Some stored) = Some left \<and> distinct (map fst left)))
    \<and> (apply_commands collab = example_apply
          \<and> (\<forall>os. old_settings_of st = Some os \<longrightarrow> distinct (map fst os)) \<longrightarrow>
         (\<exists>ns. with_reset_settings collab (old_settings_of st) applied = Inr ns
            \<and> distinct (map fst ns)
            \<and> thrown (collect_changed_settings (mode (getTableMetadata st)) (getName st)
                 (getDependencies view_ids) (old_settings_of st) [] ns) \<noteq> Some BAD_ARGUMENTS))"
proof -
  have first: "fst (alter collab view_ids commands st) = st
         \<and> alter_thrown (alter collab view_ids commands st) = Some BAD_ARGUMENTS"
    if "old_settings_of st = Some os'"
      and "\<not> distinct (map fst os') \<or> \<not> distinct (map fst applied)" for os'
    by (rule alter_duplicated_names [OF assms that])
  have second: "fst (alter collab view_ids commands st) = st
         \<and> snd (alter collab view_ids commands st) \<noteq> None"
    if dup: "\<not> distinct (map fst applied)"
  proof (cases "old_settings_of st")
    case (Some os')
    from first [OF Some] dup show ?thesis
      by (auto simp: alter_thrown_def split: option.splits)
  next
    case None
    then have w: "with_reset_settings collab (old_settings_of st) applied = Inr applied"
      by (simp add: with_reset_settings_def)
    show ?thesis
    proof (cases "collect_changed_settings (mode (getTableMetadata st)) (getName st)
           (getDependencies view_ids) (old_settings_of st) [] applied")
      case (Inl e)
      from alter_refused_by_loop [OF assms w Inl] show ?thesis by simp
    next
      case (Inr changed)
      from collect_changed_settings_Inr [OF Inr] dup show ?thesis by simp
    qed
  qed
  have third: "\<exists>ns. with_reset_settings collab (old_settings_of st) applied = Inr ns
            \<and> distinct (map fst ns)
            \<and> thrown (collect_changed_settings (mode (getTableMetadata st)) (getName st)
                 (getDependencies view_ids) (old_settings_of st) [] ns) \<noteq> Some BAD_ARGUMENTS"
    if "\<forall>os. old_settings_of st = Some os \<longrightarrow> distinct (map fst os)"
      and "distinct (map fst applied)"
  proof -
    from with_reset_settings_distinct [OF that, of collab] obtain ns where
      w: "with_reset_settings collab (old_settings_of st) applied = Inr ns"
      and d: "distinct (map fst ns)"
      by blast
    from collect_changed_settings_no_duplicate [OF d, of "[]"] w d show ?thesis
      by simp
  qed
  have fifth: "\<exists>left. example_apply any_commands (Some stored) = Some left \<and> distinct (map fst left)"
    if "distinct (map fst stored)"
    using fold_example_apply_command_distinct [OF that, of any_commands]
    by (simp add: example_apply_def)
  have sixth: "\<exists>ns. with_reset_settings collab (old_settings_of st) applied = Inr ns
            \<and> distinct (map fst ns)
            \<and> thrown (collect_changed_settings (mode (getTableMetadata st)) (getName st)
                 (getDependencies view_ids) (old_settings_of st) [] ns) \<noteq> Some BAD_ARGUMENTS"
    if a: "apply_commands collab = example_apply"
      and o: "\<forall>os. old_settings_of st = Some os \<longrightarrow> distinct (map fst os)"
  proof (cases "old_settings_of st")
    case None
    with assms(2) a show ?thesis
      by (simp add: example_apply_def)
  next
    case (Some os')
    with o have "distinct (map fst os')" by simp
    from fold_example_apply_command_distinct [OF this, of "normalizeAlterCommands commands"]
      assms(2) a Some
    have "distinct (map fst applied)"
      by (auto simp: example_apply_def)
    from third [OF o this] show ?thesis .
  qed
  from first second third fifth sixth normalizeSetting_prefixed [of name]
    normalizeAlterCommands_names [of commands]
  show ?thesis by blast
qed

theorem alter_duplicated_setting_witness:
  "\<not> distinct (map fst [(''mode'', FieldString ''ordered''), (''loading_retries'', FieldUInt64 10),
           (''loading_retries'', FieldUInt64 10)])
   \<and> fst (alter example_collaborators []
        [modify ''polling_backoff_ms'' (FieldUInt64 500)] doubled_engine) = doubled_engine
   \<and> alter_thrown (alter example_collaborators []
        [modify ''polling_backoff_ms'' (FieldUInt64 500)] doubled_engine) = Some BAD_ARGUMENTS
   \<and> snd (alter example_collaborators []
        [modify ''polling_backoff_ms'' (FieldUInt64 500)] doubled_engine) \<noteq> None
   \<and> apply_commands example_collaborators (normalizeAlterCommands [modify_both])
        (old_settings_of example_engine)
       = Some [(''mode'', FieldString ''ordered''), (''buckets'', FieldUInt64 4),
               (''polling_backoff_ms'', FieldUInt64 600)]
   \<and> with_reset_settings example_collaborators (old_settings_of example_engine)
        [(''mode'', FieldString ''ordered''), (''buckets'', FieldUInt64 4),
         (''polling_backoff_ms'', FieldUInt64 600)]
       = Inr [(''mode'', FieldString ''ordered''), (''buckets'', FieldUInt64 4),
              (''polling_backoff_ms'', FieldUInt64 600)]
   \<and> thrown (collect_changed_settings ORDERED ''S3Queue'' 0 (old_settings_of example_engine) []
        [(''mode'', FieldString ''ordered''), (''buckets'', FieldUInt64 4),
         (''polling_backoff_ms'', FieldUInt64 600)]) \<noteq> Some BAD_ARGUMENTS
   \<and> distinct (map fst (the (example_apply [modify_both]
        (Some [(''mode'', FieldString ''ordered''), (''buckets'', FieldUInt64 4)]))))"
proof -
  let ?doubled = "[(''mode'', FieldString ''ordered''), (''loading_retries'', FieldUInt64 10),
            (''loading_retries'', FieldUInt64 10)]"
  let ?old = "[(''mode'', FieldString ''ordered''), (''buckets'', FieldUInt64 4)]"
  let ?both = "[(''mode'', FieldString ''ordered''), (''buckets'', FieldUInt64 4),
               (''polling_backoff_ms'', FieldUInt64 600)]"
  have sb: "isSettingsAlter example_collaborators [modify_both]"
    by (simp add: example_collaborators_def modify_both_def)
  have ab: "apply_commands example_collaborators (normalizeAlterCommands [modify_both])
        (old_settings_of example_engine) = Some ?both"
    by (simp add: example_alter_facts example_collaborators_def modify_both_def
        normalizeAlterCommands_def example_apply_def normalize_names_def normalizeSetting_def
        starts_with_s3queue_def)
  have wb: "with_reset_settings example_collaborators (old_settings_of example_engine) ?both
       = Inr ?both"
    by (simp add: example_alter_facts with_reset_settings_def get_names_def set_difference_def
        less_eq_char_def less_char_def)
  have g: "getDependencies [] = 0"
    by (simp add: getDependencies_def)
  note dup = alter_duplicated_setting
      [of example_collaborators "[modify ''polling_backoff_ms'' (FieldUInt64 500)]" doubled_engine
          "?doubled @ [(''polling_backoff_ms'', FieldUInt64 500)]" ?doubled "[]" "[]" ?old
          "[modify_both]",
       OF example_alter_facts(1)]
  note once = alter_duplicated_setting
      [of example_collaborators "[modify_both]" example_engine ?both ?old "[]" "[]" ?old
          "[modify_both]", OF sb ab]
  have d: "fst (alter example_collaborators []
        [modify ''polling_backoff_ms'' (FieldUInt64 500)] doubled_engine) = doubled_engine"
    "alter_thrown (alter example_collaborators []
        [modify ''polling_backoff_ms'' (FieldUInt64 500)] doubled_engine) = Some BAD_ARGUMENTS"
    "snd (alter example_collaborators []
        [modify ''polling_backoff_ms'' (FieldUInt64 500)] doubled_engine) \<noteq> None"
    using dup doubled_apply_backoff [folded doubled_old_settings] doubled_old_settings
    by simp_all
  have o: "thrown (collect_changed_settings ORDERED ''S3Queue'' 0 (old_settings_of example_engine) []
        ?both) \<noteq> Some BAD_ARGUMENTS"
    using once wb g
    by (simp add: example_alter_facts)
  have k: "distinct (map fst (the (example_apply [modify_both] (Some ?old))))"
    using once by auto
  from d ab wb o k show ?thesis
    by simp
qed

end
